(* ===== verification/Prelude.thy ===== *)
theory Prelude
  imports Main
begin

text \<open>
  Shared vocabulary of the development: the Python values the scraper handles
  (parsed JSON from the GitHub API, which is what \<open>response.json()\<close> returns),
  the exceptions the code can raise, Python truthiness, \<open>str()\<close> and \<open>repr()\<close>
  of those values, \<open>str.join\<close>, and the dictionary operations (\<open>.get\<close>,
  \<open>d[k]\<close>, \<open>d[k] = v\<close> on an insertion-ordered dict) the components share.
  Python's \<open>None\<close> is the JSON \<open>null\<close> value \<open>JNull\<close>: \<open>get_github_data\<close>
  returns \<open>None\<close> on failure, and a \<open>null\<close> body is indistinguishable from it.
\<close>

named_theorems py_simps "rules that evaluate the Python value layer on concrete values"
named_theorems api_simps "rules that evaluate requests and stub GitHub servers on concrete inputs"

section \<open>Python values and exceptions\<close>

datatype json =
    JNull
  | JBool bool
  | JInt int
  | JStr string
  | JList "json list"
  | JDict "(string \<times> json) list"

datatype py_error =
    KeyError string
  | TypeError
  | AttributeError
  | ValueError
  | JSONDecodeError
  | ConnectionError
  | EmptyDataError
  | ParserError
  | FileNotFoundError

type_synonym py_dict = "(string \<times> json) list"

section \<open>Truthiness, iteration, subscripting\<close>

text \<open>\<open>bool(x)\<close>: \<open>None\<close>, \<open>False\<close>, \<open>0\<close> and empty containers are false.\<close>

fun py_bool :: "json \<Rightarrow> bool" where
  "py_bool JNull = False"
| "py_bool (JBool b) = b"
| "py_bool (JInt i) = (i \<noteq> 0)"
| "py_bool (JStr s) = (s \<noteq> [])"
| "py_bool (JList xs) = (xs \<noteq> [])"
| "py_bool (JDict kvs) = (kvs \<noteq> [])"

text \<open>
  \<open>list.extend(x)\<close> and \<open>len(x)\<close> iterate \<open>x\<close>: a list yields its elements,
  a dict its keys, a string its characters; anything else raises TypeError.
\<close>

fun py_iter :: "json \<Rightarrow> py_error + json list" where
  "py_iter (JList xs) = Inr xs"
| "py_iter (JDict kvs) = Inr (map (\<lambda>kv. JStr (fst kv)) kvs)"
| "py_iter (JStr s) = Inr (map (\<lambda>c. JStr [c]) s)"
| "py_iter _ = Inl TypeError"

text \<open>\<open>x[k]\<close> with a string key: a dict looks it up (KeyError when absent),
  every other value raises TypeError.\<close>

fun py_getitem :: "json \<Rightarrow> string \<Rightarrow> py_error + json" where
  "py_getitem (JDict kvs) k = (case map_of kvs k of None \<Rightarrow> Inl (KeyError k) | Some v \<Rightarrow> Inr v)"
| "py_getitem _ k = Inl TypeError"

text \<open>\<open>d.get(k, default)\<close> on the parsed JSON: only dicts have \<open>.get\<close>.\<close>

definition dict_get :: "(string \<times> json) list \<Rightarrow> string \<Rightarrow> json \<Rightarrow> json" where
  "dict_get kvs k d = (case map_of kvs k of None \<Rightarrow> d | Some v \<Rightarrow> v)"

declare dict_get_def [py_simps]

fun py_get :: "json \<Rightarrow> string \<Rightarrow> json \<Rightarrow> py_error + json" where
  "py_get (JDict kvs) k d = Inr (dict_get kvs k d)"
| "py_get _ k d = Inl AttributeError"

section \<open>Insertion-ordered dicts\<close>

text \<open>\<open>d[k] = v\<close> keeps an existing key at its position and appends a new one.\<close>

fun dict_set :: "'k \<Rightarrow> 'v \<Rightarrow> ('k \<times> 'v) list \<Rightarrow> ('k \<times> 'v) list" where
  "dict_set k v [] = [(k, v)]"
| "dict_set k v ((a, b) # ps) = (if a = k then (k, v) # ps else (a, b) # dict_set k v ps)"

section \<open>str(), repr() and str.join\<close>

fun py_join :: "string \<Rightarrow> string list \<Rightarrow> string" where
  "py_join sep [] = []"
| "py_join sep [x] = x"
| "py_join sep (x # y # zs) = x @ sep @ py_join sep (y # zs)"

fun nat_str :: "nat \<Rightarrow> string" where
  "nat_str n = (if n < 10 then [char_of (48 + n)] else nat_str (n div 10) @ [char_of (48 + n mod 10)])"

definition int_str :: "int \<Rightarrow> string" where
  "int_str i = (if i < 0 then CHR ''-'' # nat_str (nat (- i)) else nat_str (nat i))"

definition hex_digit :: "nat \<Rightarrow> char" where
  "hex_digit n = (if n < 10 then char_of (48 + n) else char_of (87 + n))"

text \<open>
  \<open>repr\<close> of a string: single quotes unless the string holds a single quote and
  no double quote; backslash and the chosen quote are escaped, tab, newline and
  carriage return by their letter, other control bytes as \<open>\x\<close> with two hex
  digits.
\<close>

definition str_quote :: "string \<Rightarrow> char" where
  "str_quote s = (if CHR 0x27 \<in> set s \<and> CHR 0x22 \<notin> set s then CHR 0x22 else CHR 0x27)"

definition repr_char :: "char \<Rightarrow> char \<Rightarrow> string" where
  "repr_char q c =
     (if c = q \<or> c = CHR 0x5C then [CHR 0x5C, c]
      else if c = CHR 0x09 then [CHR 0x5C, CHR ''t'']
      else if c = CHR 0x0A then [CHR 0x5C, CHR ''n'']
      else if c = CHR 0x0D then [CHR 0x5C, CHR ''r'']
      else if of_char c < (32::nat) \<or> of_char c = (127::nat)
        then [CHR 0x5C, CHR ''x'', hex_digit (of_char c div 16), hex_digit (of_char c mod 16)]
      else [c])"

definition str_repr :: "string \<Rightarrow> string" where
  "str_repr s = (let q = str_quote s in q # concat (map (repr_char q) s) @ [q])"

fun py_repr :: "json \<Rightarrow> string" where
  "py_repr JNull = ''None''"
| "py_repr (JBool b) = (if b then ''True'' else ''False'')"
| "py_repr (JInt i) = int_str i"
| "py_repr (JStr s) = str_repr s"
| "py_repr (JList xs) = CHR ''['' # py_join '', '' (map py_repr xs) @ '']''"
| "py_repr (JDict kvs) =
     CHR ''{'' # py_join '', '' (map (\<lambda>kv. str_repr (fst kv) @ '': '' @ py_repr (snd kv)) kvs) @ ''}''"

text \<open>\<open>str(x)\<close>: a string is itself, everything else its \<open>repr\<close>.\<close>

fun py_str :: "json \<Rightarrow> string" where
  "py_str (JStr s) = s"
| "py_str j = py_repr j"

section \<open>Shared lemmas on dicts and association lists\<close>

lemma map_of_dict_set [simp]: "map_of (dict_set k v ps) = (map_of ps)(k \<mapsto> v)"
  by (induction k v ps rule: dict_set.induct) (auto simp: fun_eq_iff)

lemma keys_dict_set: "map fst (dict_set k v ps) = (if k \<in> set (map fst ps) then map fst ps else map fst ps @ [k])"
  by (induction k v ps rule: dict_set.induct) auto

lemma dict_set_absent: "k \<notin> set (map fst ps) \<Longrightarrow> dict_set k v ps = ps @ [(k, v)]"
  by (induction k v ps rule: dict_set.induct) auto

lemma distinct_dict_set [simp]: "distinct (map fst ps) \<Longrightarrow> distinct (map fst (dict_set k v ps))"
  by (simp add: keys_dict_set)

lemma dict_set_dict_set [simp]: "dict_set k v (dict_set k v' ps) = dict_set k v ps"
  by (induction k v' ps rule: dict_set.induct) auto

lemma map_of_keyed: "map_of (map (\<lambda>k. (k, g k)) ks) k = (if k \<in> set ks then Some (g k) else None)"
  by (induction ks) auto

lemma map_of_zip_map: "map_of (zip xs (map f xs)) x = (if x \<in> set xs then Some (f x) else None)"
  by (induction xs) auto

lemma map_snd_zip_apply: "length xs = length ys \<Longrightarrow> map (\<lambda>kv. f (snd kv)) (zip xs ys) = map f ys"
  by (induction xs ys rule: list_induct2) simp_all

lemma map_of_zip_keys: "map_of (zip (map fst r) (map (\<lambda>kv. f (snd kv)) r)) k = map_option f (map_of r k)"
  by (induction r) auto

lemma dict_get_mem: "k \<in> set (map fst kvs) \<Longrightarrow> (k, dict_get kvs k d) \<in> set kvs"
  by (cases "map_of kvs k") (auto simp: dict_get_def map_of_eq_None_iff dest: map_of_SomeD)

lemma mem_map_filter: "y \<in> set (List.map_filter f xs) \<longleftrightarrow> (\<exists>x \<in> set xs. f x = Some y)"
  by (induction xs) (auto simp: map_filter_simps split: option.splits)

end
