(* ===== verification/World.thy ===== *)
theory World
  imports Prelude
begin

text \<open>
  The part of the outside world the scraper touches, passed explicitly through
  every operation: the HTTP requests sent so far (in order), the files of the
  working directory (in directory order, which is the order \<open>glob\<close> lists them),
  the lines printed to stdout and the \<open>users_collected\<close> counts shown on the
  progress bar.  The GitHub API is a \<open>server\<close>: given the requests already sent
  and the new one, it answers with a status code and a body (\<open>None\<close> when the
  body is not valid JSON) or the connection fails.
\<close>

record request =
  req_url :: string
  req_headers :: "(string \<times> string) list"
  req_params :: "(string \<times> json) list"

datatype http_reply = Reply int "json option" | NetworkError

type_synonym server = "request list \<Rightarrow> request \<Rightarrow> http_reply"

record world =
  sent :: "request list"
  files :: "(string \<times> string) list"
  out :: "string list"
  shown :: "nat list"

type_synonym 'a res = "(py_error + 'a) \<times> world"

text \<open>\<open>print(s)\<close>.\<close>

definition py_print :: "string \<Rightarrow> world \<Rightarrow> world" where
  "py_print s w = w\<lparr>out := out w @ [s]\<rparr>"

text \<open>\<open>open(name, "w")\<close> followed by writes: the file's contents are replaced,
  a new file is added to the directory.\<close>

definition write_file :: "string \<Rightarrow> string \<Rightarrow> world \<Rightarrow> world" where
  "write_file name text w = w\<lparr>files := dict_set name text (files w)\<rparr>"

definition read_file :: "string \<Rightarrow> world \<Rightarrow> string option" where
  "read_file name w = map_of (files w) name"

definition empty_world :: world where
  "empty_world = \<lparr>sent = [], files = [], out = [], shown = []\<rparr>"

lemma read_write_file [simp]: "read_file name (write_file name text w) = Some text"
  by (simp add: read_file_def write_file_def)

lemma write_file_other [simp]:
  "name' \<noteq> name \<Longrightarrow> read_file name' (write_file name text w) = read_file name' w"
  by (simp add: read_file_def write_file_def)

lemma read_file_py_print [simp]: "read_file name (py_print s w) = read_file name w"
  by (simp add: read_file_def py_print_def)

lemma world_frame_simps [simp]:
  "sent (py_print s w) = sent w" "files (py_print s w) = files w"
  "shown (py_print s w) = shown w" "out (py_print s w) = out w @ [s]"
  "sent (write_file n t w) = sent w" "out (write_file n t w) = out w"
  "shown (write_file n t w) = shown w"
  by (simp_all add: py_print_def write_file_def)

end
