(* ===== verification/Fetcher.thy ===== *)
theory Fetcher
  imports World
begin

text \<open>
  The Fetcher of \<open>src/scrapper/scrapper/github_data_collector.py\<close>: the
  configuration constants (lines 6--10), \<open>get_github_data\<close> (one authenticated
  GET; the parsed body on status 200, \<open>None\<close> otherwise) and \<open>get_user_info\<close>.
  Every call appends its request to the world's log, so the order of requests
  a component issues is part of its observable behaviour.
\<close>

definition GITHUB_TOKEN :: string where "GITHUB_TOKEN = ''''"
definition REPO_OWNER :: string where "REPO_OWNER = ''a16z-infra''"
definition REPO_NAME :: string where "REPO_NAME = ''ai-town''"
definition STARGAZERS_CSV :: string where "STARGAZERS_CSV = ''ai-town_stargazers.csv''"
definition FORKERS_CSV :: string where "FORKERS_CSV = ''ai-town_forkers.csv''"

definition github_headers :: "(string \<times> string) list" where
  "github_headers =
     [(''Authorization'', ''token '' @ GITHUB_TOKEN),
      (''Accept'', ''application/vnd.github.v3+json'')]"

definition github_request :: "string \<Rightarrow> (string \<times> json) list \<Rightarrow> request" where
  "github_request endpoint params =
     \<lparr>req_url = endpoint, req_headers = github_headers, req_params = params\<rparr>"

text \<open>
  \<open>requests.get\<close> raises on a failed connection; \<open>response.json()\<close> raises on a
  body that is not JSON; any status but 200 gives \<open>None\<close>.
\<close>

definition get_github_data :: "server \<Rightarrow> string \<Rightarrow> (string \<times> json) list \<Rightarrow> world \<Rightarrow> json res" where
  "get_github_data srv endpoint params w =
     (let rq = github_request endpoint params;
          w' = w\<lparr>sent := sent w @ [rq]\<rparr>
      in case srv (sent w) rq of
           NetworkError \<Rightarrow> (Inl ConnectionError, w')
         | Reply status body \<Rightarrow>
             (if status = 200
              then (case body of None \<Rightarrow> (Inl JSONDecodeError, w') | Some j \<Rightarrow> (Inr j, w'))
              else (Inr JNull, w')))"

definition user_url :: "json \<Rightarrow> string" where
  "user_url username = ''https://api.github.com/users/'' @ py_str username"

definition get_user_info :: "server \<Rightarrow> json \<Rightarrow> world \<Rightarrow> json res" where
  "get_user_info srv username w = get_github_data srv (user_url username) [] w"

definition repo_url :: string where
  "repo_url = ''https://api.github.com/repos/'' @ REPO_OWNER @ ''/'' @ REPO_NAME"

declare github_request_def [api_simps] repo_url_def [api_simps] user_url_def [api_simps]
  REPO_OWNER_def [api_simps] REPO_NAME_def [api_simps]

subsection \<open>Behaviour of one request\<close>

lemma get_github_data_frame:
  assumes "get_github_data srv endpoint params w = (r, w')"
  shows "sent w' = sent w @ [github_request endpoint params]"
    and "files w' = files w" and "out w' = out w" and "shown w' = shown w"
  using assms
  by (auto simp: get_github_data_def Let_def split: http_reply.splits if_splits option.splits)

lemma get_github_data_reply:
  "srv (sent w) (github_request endpoint params) = Reply st body \<Longrightarrow>
   fst (get_github_data srv endpoint params w) =
     (if st = 200 then (case body of None \<Rightarrow> Inl JSONDecodeError | Some j \<Rightarrow> Inr j) else Inr JNull)"
  by (simp add: get_github_data_def split: option.splits)

lemma get_github_data_network:
  "srv (sent w) (github_request endpoint params) = NetworkError \<Longrightarrow>
   fst (get_github_data srv endpoint params w) = Inl ConnectionError"
  by (simp add: get_github_data_def)

end
