(* ===== verification/Paginator.thy ===== *)
theory Paginator
  imports Fetcher
begin

text \<open>
  The Paginator, \<open>get_paginated_data\<close> of
  \<open>src/scrapper/scrapper/github_data_collector.py\<close> (lines 65--95) with its two
  callers \<open>get_stargazers\<close> and \<open>get_forks\<close>.  The \<open>while True\<close> loop asks for
  page 1, 2, \<dots> until a page is falsy; nothing bounds the number of pages, so
  the loop is a \<open>partial_function (option)\<close> in which \<open>None\<close> is "never returns".
  The progress bar is modelled by the state the code reads back: its total and
  its counter, and tqdm's \<open>__bool__\<close>, which is \<open>total > 0\<close> (TypeError when
  the total is \<open>None\<close> or not a number), so that \<open>if pbar:\<close> is false when the
  total is 0.
\<close>

record pbar =
  pb_total :: json
  pb_desc :: "string option"
  pb_n :: nat

definition tqdm_new :: "json \<Rightarrow> string option \<Rightarrow> pbar" where
  "tqdm_new count desc = \<lparr>pb_total = count, pb_desc = desc, pb_n = 0\<rparr>"

text \<open>\<open>if pbar:\<close> where \<open>pbar\<close> is \<open>None\<close> or a tqdm object.\<close>

fun pbar_bool :: "pbar option \<Rightarrow> py_error + bool" where
  "pbar_bool None = Inr False"
| "pbar_bool (Some p) =
     (case pb_total p of JInt i \<Rightarrow> Inr (0 < i) | JBool b \<Rightarrow> Inr b | _ \<Rightarrow> Inl TypeError)"

definition pbar_update :: "nat \<Rightarrow> pbar option \<Rightarrow> pbar option" where
  "pbar_update k pb = map_option (\<lambda>p. p\<lparr>pb_n := pb_n p + k\<rparr>) pb"

definition page_params :: "nat \<Rightarrow> (string \<times> json) list" where
  "page_params page = [(''page'', JInt (int page)), (''per_page'', JInt 100)]"

text \<open>One iteration of lines 84--91, and the loop around it.\<close>

partial_function (option) paginate_loop ::
  "server \<Rightarrow> string \<Rightarrow> nat \<Rightarrow> json list \<Rightarrow> pbar option \<Rightarrow> world \<Rightarrow>
   (json list \<times> pbar option) res option" where
  "paginate_loop srv endpoint page items pb w =
     (case get_github_data srv endpoint (page_params page) w of
        (Inl e, w1) \<Rightarrow> Some (Inl e, w1)
      | (Inr data, w1) \<Rightarrow>
          (if \<not> py_bool data then Some (Inr (items, pb), w1)
           else (case py_iter data of
                   Inl e \<Rightarrow> Some (Inl e, w1)
                 | Inr xs \<Rightarrow>
                     (case pbar_bool pb of
                        Inl e \<Rightarrow> Some (Inl e, w1)
                      | Inr b \<Rightarrow>
                          paginate_loop srv endpoint (page + 1) (items @ xs)
                            (if b then pbar_update (length xs) pb else pb) w1))))"

text \<open>
  Lines 72--82: when a count field is given (a non-empty string), the repository
  is fetched once and its count read with \<open>.get(count_field, 0)\<close>; a failed
  fetch gives total 0.  Lines 93--95: the final \<open>if pbar:\<close> before closing.
\<close>

definition start_pbar :: "server \<Rightarrow> string option \<Rightarrow> string option \<Rightarrow> world \<Rightarrow> pbar option res" where
  "start_pbar srv desc count_field w =
     (case count_field of
        None \<Rightarrow> (Inr None, w)
      | Some cf \<Rightarrow>
          (if cf = [] then (Inr None, w)
           else (case get_github_data srv repo_url [] w of
                   (Inl e, w1) \<Rightarrow> (Inl e, w1)
                 | (Inr repo_info, w1) \<Rightarrow>
                     (case (if py_bool repo_info then py_get repo_info cf (JInt 0) else Inr (JInt 0)) of
                        Inl e \<Rightarrow> (Inl e, w1)
                      | Inr count \<Rightarrow> (Inr (Some (tqdm_new count desc)), w1)))))"

definition get_paginated_data ::
  "server \<Rightarrow> string \<Rightarrow> string option \<Rightarrow> string option \<Rightarrow> world \<Rightarrow> json list res option" where
  "get_paginated_data srv endpoint desc count_field w =
     (case start_pbar srv desc count_field w of
        (Inl e, w1) \<Rightarrow> Some (Inl e, w1)
      | (Inr pb, w1) \<Rightarrow>
          (case paginate_loop srv endpoint 1 [] pb w1 of
             None \<Rightarrow> None
           | Some (Inl e, w2) \<Rightarrow> Some (Inl e, w2)
           | Some (Inr (items, pb'), w2) \<Rightarrow>
               (case pbar_bool pb' of
                  Inl e \<Rightarrow> Some (Inl e, w2)
                | Inr _ \<Rightarrow> Some (Inr items, w2))))"

definition get_stargazers :: "server \<Rightarrow> world \<Rightarrow> json list res option" where
  "get_stargazers srv w =
     get_paginated_data srv (repo_url @ ''/stargazers'')
       (Some ''Fetching stargazers'') (Some ''stargazers_count'') w"

definition get_forks :: "server \<Rightarrow> world \<Rightarrow> json list res option" where
  "get_forks srv w =
     get_paginated_data srv (repo_url @ ''/forks'') (Some ''Fetching forks'') (Some ''forks_count'') w"

text \<open>
  Specification-side vocabulary: the request for one page, the replies that end the
  loop, and a stateless stub endpoint serving a fixed list of pages (an empty list
  after the last one), as in the spec's test of the Paginator.
\<close>

abbreviation page_request :: "string \<Rightarrow> nat \<Rightarrow> request" where
  "page_request ep p \<equiv> github_request ep (page_params p)"

fun stop_reply :: "http_reply \<Rightarrow> bool" where
  "stop_reply NetworkError = False"
| "stop_reply (Reply st body) = (st \<noteq> 200 \<or> (case body of None \<Rightarrow> False | Some j \<Rightarrow> \<not> py_bool j))"

definition stub_api :: "string \<Rightarrow> json list list \<Rightarrow> request \<Rightarrow> http_reply" where
  "stub_api ep pages rq =
     (if req_url rq \<noteq> ep then Reply 404 None
      else case req_params rq of
        [(''page'', JInt n), (''per_page'', _)] \<Rightarrow>
          (if 1 \<le> n \<and> nat n \<le> length pages then Reply 200 (Some (JList (pages ! (nat n - 1))))
           else Reply 200 (Some (JList [])))
      | _ \<Rightarrow> Reply 404 None)"

text \<open>A reply to the repository request from which the count can be read: a failure
  status (the total is then 0), or a JSON dict that is empty or whose count field is
  absent (default 0) or a number.  A truthy body that is not a dict raises
  AttributeError on \<open>.get\<close>; a count that is a string or \<open>None\<close> makes \<open>if pbar:\<close>
  raise TypeError.\<close>

fun count_body_ok :: "string \<Rightarrow> json \<Rightarrow> bool" where
  "count_body_ok cf (JDict kvs) =
     (kvs = [] \<or> (case dict_get kvs cf (JInt 0) of JInt _ \<Rightarrow> True | JBool _ \<Rightarrow> True | _ \<Rightarrow> False))"
| "count_body_ok cf j = (\<not> py_bool j)"

fun count_reply_ok :: "string \<Rightarrow> http_reply \<Rightarrow> bool" where
  "count_reply_ok cf NetworkError = False"
| "count_reply_ok cf (Reply st body) =
     (st \<noteq> 200 \<or> (case body of None \<Rightarrow> False | Some j \<Rightarrow> count_body_ok cf j))"

text \<open>The stub endpoint behind a repository request with the given reply.\<close>

definition counted_api :: "http_reply \<Rightarrow> string \<Rightarrow> json list list \<Rightarrow> request \<Rightarrow> http_reply" where
  "counted_api repo ep pages rq = (if rq = github_request repo_url [] then repo else stub_api ep pages rq)"

text \<open>A server that answers like \<open>api\<close> for its first \<open>n\<close> requests and then, as
  GitHub does when the hourly quota is used up, with status 403.\<close>

definition rate_limited :: "nat \<Rightarrow> (request \<Rightarrow> http_reply) \<Rightarrow> server" where
  "rate_limited n api h rq =
     (if n \<le> length h then Reply 403 (Some (JDict [(''message'', JStr ''API rate limit exceeded'')])) else api rq)"

declare page_params_def [api_simps] stub_api_def [api_simps] counted_api_def [api_simps]
  tqdm_new_def [py_simps]

subsection \<open>Properties of the loop\<close>

lemma pbar_bool_update [simp]: "pbar_bool (pbar_update k pb) = pbar_bool pb"
  by (cases pb) (simp_all add: pbar_update_def)

lemma pbar_update_update [simp]: "pbar_update a (pbar_update b pb) = pbar_update (b + a) pb"
  by (cases pb) (simp_all add: pbar_update_def add.assoc)

lemma pbar_update_0 [simp]: "pbar_update 0 pb = pb"
  by (cases pb) (simp_all add: pbar_update_def)

lemma paginate_loop_page:
  assumes "srv (sent w) (page_request ep p) = Reply 200 (Some d)"
    and "py_bool d" and "py_iter d = Inr xs" and "pbar_bool pb = Inr b"
  shows "paginate_loop srv ep p items pb w =
         paginate_loop srv ep (Suc p) (items @ xs) (if b then pbar_update (length xs) pb else pb)
           (w\<lparr>sent := sent w @ [page_request ep p]\<rparr>)"
  using assms by (subst paginate_loop.simps) (simp add: get_github_data_def)

lemma paginate_loop_stop:
  assumes "stop_reply (srv (sent w) (page_request ep p))"
  shows "paginate_loop srv ep p items pb w =
         Some (Inr (items, pb), w\<lparr>sent := sent w @ [page_request ep p]\<rparr>)"
  using assms
  by (subst paginate_loop.simps)
     (auto simp: get_github_data_def Let_def elim!: stop_reply.elims split: option.splits)

lemma page_requests_Cons:
  "page_request ep p # map (\<lambda>i. page_request ep (Suc p + i)) [0..<m] =
   map (\<lambda>i. page_request ep (p + i)) [0..<Suc m]"
  by (induction m) simp_all

lemma paginate_loop_trace:
  assumes "paginate_loop srv ep p items pb w = Some r"
  shows "(\<exists>n. sent (snd r) = sent w @ map (\<lambda>i. page_request ep (p + i)) [0..<Suc n]) \<and>
   files (snd r) = files w \<and> out (snd r) = out w \<and> shown (snd r) = shown w \<and>
   (\<forall>items' pb'. fst r = Inr (items', pb') \<longrightarrow>
      (\<exists>xs. items' = items @ xs \<and> pb' = (if pbar_bool pb = Inr True then pbar_update (length xs) pb else pb)))"
  using assms
proof (induction srv ep p items pb w r rule: paginate_loop.raw_induct [rotated, consumes 1])
  case (1 loop srv ep p items pb w r)
  obtain res1 w1 where get: "get_github_data srv ep (page_params p) w = (res1, w1)" by fastforce
  note fr = get_github_data_frame [OF get]
  have stop: "(\<exists>n. sent w1 = sent w @ map (\<lambda>i. page_request ep (p + i)) [0..<Suc n]) \<and>
      files w1 = files w \<and> out w1 = out w \<and> shown w1 = shown w"
    using fr by (intro conjI exI [of _ 0]) simp_all
  show ?case
  proof (cases res1)
    case (Inl e)
    with "1"(2) get stop show ?thesis by auto
  next
    case (Inr data)
    show ?thesis
    proof (cases "py_bool data")
      case False
      with "1"(2) get stop Inr show ?thesis by auto
    next
      case True
      show ?thesis
      proof (cases "py_iter data")
        case (Inl e)
        with "1"(2) get stop Inr True show ?thesis by auto
      next
        case (Inr xs)
        note Inr_data = \<open>res1 = Inr data\<close>
        show ?thesis
        proof (cases "pbar_bool pb")
          case (Inl e)
          with "1"(2) get stop Inr_data True Inr show ?thesis by auto
        next
          case pbb: (Inr b)
          let ?pb1 = "if b then pbar_update (length xs) pb else pb"
          from "1"(2) get Inr_data True Inr pbb
          have rec: "loop srv ep (p + 1) (items @ xs) ?pb1 w1 = Some r" by simp
          from "1"(1) [OF rec] obtain n where
            n: "sent (snd r) = sent w1 @ map (\<lambda>i. page_request ep (p + 1 + i)) [0..<Suc n]" and
            frame: "files (snd r) = files w1" "out (snd r) = out w1" "shown (snd r) = shown w1" and
            res: "\<forall>items' pb'. fst r = Inr (items', pb') \<longrightarrow>
              (\<exists>xs'. items' = (items @ xs) @ xs' \<and>
                 pb' = (if pbar_bool ?pb1 = Inr True then pbar_update (length xs') ?pb1 else ?pb1))"
            by blast
          have s: "sent (snd r) = sent w @ map (\<lambda>i. page_request ep (p + i)) [0..<Suc (Suc n)]"
            using n fr(1) page_requests_Cons [of ep p "Suc n"] by simp
          have it: "\<forall>items' pb'. fst r = Inr (items', pb') \<longrightarrow>
              (\<exists>ys. items' = items @ ys \<and> pb' = (if pbar_bool pb = Inr True then pbar_update (length ys) pb else pb))"
          proof (intro allI impI)
            fix items' pb' assume "fst r = Inr (items', pb')"
            with res obtain xs' where "items' = (items @ xs) @ xs'"
              and "pb' = (if pbar_bool ?pb1 = Inr True then pbar_update (length xs') ?pb1 else ?pb1)" by blast
            with pbb show "\<exists>ys. items' = items @ ys \<and> pb' = (if pbar_bool pb = Inr True then pbar_update (length ys) pb else pb)"
              by (intro exI [of _ "xs @ xs'"]) (auto simp: add.commute)
          qed
          show ?thesis
          proof (intro conjI exI [of _ "Suc n"])
            show "sent (snd r) = sent w @ map (\<lambda>i. page_request ep (p + i)) [0..<Suc (Suc n)]" by (rule s)
          qed (use frame fr it in simp_all)
        qed
      qed
    qed
  qed
qed

text \<open>C32. Paginator, invariant, on any server (one whose replies depend on the requests
  already sent included): when the page loop returns, normally or by an exception, it has
  requested pages \<open>p, p+1, \<dots>, p+n\<close>, each once and in this order, and touched nothing
  else of the world; when it returns normally its items are those it started with followed
  by the new ones, and a truthy progress bar has been advanced by exactly the number of new
  items (a falsy one is left alone).\<close>

theorem paginate_loop_consecutive_pages:
  assumes "paginate_loop srv ep p items pb w = Some r"
  shows "(\<exists>n. sent (snd r) = sent w @ map (\<lambda>i. page_request ep (p + i)) [0..<Suc n]) \<and>
   files (snd r) = files w \<and> out (snd r) = out w \<and> shown (snd r) = shown w \<and>
   (\<forall>items' pb'. fst r = Inr (items', pb') \<longrightarrow>
      (\<exists>xs. items' = items @ xs \<and> pb' = (if pbar_bool pb = Inr True then pbar_update (length xs) pb else pb)))"
  using assms by (rule paginate_loop_trace)

lemma paginate_loop_pages_hist:
  assumes "\<forall>i < length ps. srv (sent w @ map (\<lambda>j. page_request ep (p + j)) [0..<i]) (page_request ep (p + i)) =
                             Reply 200 (Some (JList (ps ! i))) \<and> ps ! i \<noteq> []"
    and "stop_reply (srv (sent w @ map (\<lambda>j. page_request ep (p + j)) [0..<length ps]) (page_request ep (p + length ps)))"
    and "pbar_bool pb = Inr b"
  shows "paginate_loop srv ep p items pb w =
     Some (Inr (items @ concat ps, if b then pbar_update (length (concat ps)) pb else pb),
           w\<lparr>sent := sent w @ map (\<lambda>i. page_request ep (p + i)) [0..<Suc (length ps)]\<rparr>)"
  using assms
proof (induction ps arbitrary: p items pb w)
  case Nil
  then show ?case by (simp add: paginate_loop_stop)
next
  case (Cons x ps)
  let ?w1 = "w\<lparr>sent := sent w @ [page_request ep p]\<rparr>"
  have pre: "sent w @ map (\<lambda>j. page_request ep (p + j)) [0..<Suc i] =
             sent ?w1 @ map (\<lambda>j. page_request ep (Suc p + j)) [0..<i]" for i
    by (induction i) simp_all
  from Cons.prems(1) have first: "srv (sent w) (page_request ep p) = Reply 200 (Some (JList x))" "x \<noteq> []"
    by (auto dest: spec [of _ 0])
  have rest: "\<forall>i < length ps. srv (sent ?w1 @ map (\<lambda>j. page_request ep (Suc p + j)) [0..<i]) (page_request ep (Suc p + i)) =
                             Reply 200 (Some (JList (ps ! i))) \<and> ps ! i \<noteq> []"
  proof (intro allI impI)
    fix i assume "i < length ps"
    then have "Suc i < length (x # ps)" by simp
    with Cons.prems(1) pre [of i] show "srv (sent ?w1 @ map (\<lambda>j. page_request ep (Suc p + j)) [0..<i]) (page_request ep (Suc p + i)) =
                             Reply 200 (Some (JList (ps ! i))) \<and> ps ! i \<noteq> []"
      by (metis add_Suc_right add_Suc nth_Cons_Suc)
  qed
  from Cons.prems(2) pre [of "length ps"]
  have last: "stop_reply (srv (sent ?w1 @ map (\<lambda>j. page_request ep (Suc p + j)) [0..<length ps]) (page_request ep (Suc p + length ps)))"
    by simp
  have pb': "pbar_bool (if b then pbar_update (length x) pb else pb) = Inr b"
    using Cons.prems(3) by simp
  have "paginate_loop srv ep p items pb w =
        paginate_loop srv ep (Suc p) (items @ x) (if b then pbar_update (length x) pb else pb) ?w1"
    using first Cons.prems(3) by (intro paginate_loop_page [where d = "JList x" and xs = x]) simp_all
  also have "\<dots> = Some (Inr (items @ concat (x # ps), if b then pbar_update (length (concat (x # ps))) pb else pb),
           w\<lparr>sent := sent w @ map (\<lambda>i. page_request ep (p + i)) [0..<Suc (length (x # ps))]\<rparr>)"
    using Cons.IH [OF rest last pb'] pre [of "length ps"] by (simp add: map_upt_Suc del: upt_Suc)
  finally show ?case .
qed

lemma paginate_loop_pages:
  assumes "\<forall>i < length ps. api (page_request ep (p + i)) = Reply 200 (Some (JList (ps ! i))) \<and> ps ! i \<noteq> []"
    and "stop_reply (api (page_request ep (p + length ps)))"
    and "pbar_bool pb = Inr b"
  shows "paginate_loop (\<lambda>_. api) ep p items pb w =
     Some (Inr (items @ concat ps, if b then pbar_update (length (concat ps)) pb else pb),
           w\<lparr>sent := sent w @ map (\<lambda>i. page_request ep (p + i)) [0..<Suc (length ps)]\<rparr>)"
  using assms(1,2) by (intro paginate_loop_pages_hist [OF _ _ assms(3)]) simp_all

text \<open>C1. Paginator, functional: when pages \<open>p, p+1, \<dots>\<close> of a stateless endpoint are
  non-empty lists and the page after them is empty (or not status 200), the loop returns
  the items collected so far followed by the concatenation of those pages in order, has
  requested exactly those pages and the empty one, in increasing order, and has advanced a
  truthy progress bar by the number of items.\<close>

theorem paginate_loop_concat:
  assumes "\<forall>i < length ps. api (page_request ep (p + i)) = Reply 200 (Some (JList (ps ! i))) \<and> ps ! i \<noteq> []"
    and "stop_reply (api (page_request ep (p + length ps)))"
    and "pbar_bool pb = Inr b"
  shows "paginate_loop (\<lambda>_. api) ep p items pb w =
     Some (Inr (items @ concat ps, if b then pbar_update (length (concat ps)) pb else pb),
           w\<lparr>sent := sent w @ map (\<lambda>i. page_request ep (p + i)) [0..<Suc (length ps)]\<rparr>)"
  using paginate_loop_pages [OF assms] .

lemma paginate_loop_unfold_page:
  "paginate_loop srv ep p items pb w =
     (case srv (sent w) (page_request ep p) of
        NetworkError \<Rightarrow> Some (Inl ConnectionError, w\<lparr>sent := sent w @ [page_request ep p]\<rparr>)
      | Reply st body \<Rightarrow>
          (if st \<noteq> 200 then Some (Inr (items, pb), w\<lparr>sent := sent w @ [page_request ep p]\<rparr>)
           else case body of
             None \<Rightarrow> Some (Inl JSONDecodeError, w\<lparr>sent := sent w @ [page_request ep p]\<rparr>)
           | Some d \<Rightarrow>
               (if \<not> py_bool d then Some (Inr (items, pb), w\<lparr>sent := sent w @ [page_request ep p]\<rparr>)
                else case py_iter d of
                  Inl e \<Rightarrow> Some (Inl e, w\<lparr>sent := sent w @ [page_request ep p]\<rparr>)
                | Inr xs \<Rightarrow>
                    (case pbar_bool pb of
                       Inl e \<Rightarrow> Some (Inl e, w\<lparr>sent := sent w @ [page_request ep p]\<rparr>)
                     | Inr b \<Rightarrow> paginate_loop srv ep (Suc p) (items @ xs)
                                 (if b then pbar_update (length xs) pb else pb)
                                 (w\<lparr>sent := sent w @ [page_request ep p]\<rparr>)))))"
  by (subst paginate_loop.simps)
     (simp add: get_github_data_def split: http_reply.split option.split sum.split)

lemma paginate_loop_not_None:
  assumes "p \<le> k" and "stop_reply (api (page_request ep k))"
  shows "paginate_loop (\<lambda>_. api) ep p items pb w \<noteq> None"
  using assms
proof (induction "k - p" arbitrary: p items pb w)
  case 0
  then have "p = k" by simp
  with "0.prems"(2) show ?case by (simp add: paginate_loop_stop)
next
  case (Suc n)
  then have IH: "\<And>items pb w. paginate_loop (\<lambda>_. api) ep (Suc p) items pb w \<noteq> None"
    by simp
  show ?case
    by (simp add: paginate_loop_unfold_page [of _ _ p] IH del: not_None_eq
             split: http_reply.split option.split sum.split)
qed

text \<open>C2. Paginator, termination: if some page at or after the current one is empty
  (or fails with a status other than 200), the loop returns.\<close>

theorem paginate_loop_returns:
  assumes "p \<le> k" and "stop_reply (api (page_request ep k))"
  shows "\<exists>r. paginate_loop (\<lambda>_. api) ep p items pb w = Some r"
  using paginate_loop_not_None [where api = api and ep = ep, OF assms] by blast

lemma paginate_loop_Some_runs_out:
  assumes ret: "paginate_loop srv ep p items pb w = Some y"
  shows "\<not> (srv = (\<lambda>_. api) \<and> (\<forall>n \<ge> p. \<exists>xs. api (page_request ep n) = Reply 200 (Some (JList xs)) \<and> xs \<noteq> [])
      \<and> (\<exists>b. pbar_bool pb = Inr b))"
proof (rule paginate_loop.raw_induct [where P = "\<lambda>srv ep p items pb w y. \<not> (srv = (\<lambda>_. api)
     \<and> (\<forall>n \<ge> p. \<exists>xs. api (page_request ep n) = Reply 200 (Some (JList xs)) \<and> xs \<noteq> [])
     \<and> (\<exists>b. pbar_bool pb = Inr b))", OF _ ret])
  fix f srv ep p items pb w y
  assume IH: "\<And>srv ep p items pb w y. f srv ep p items pb w = Some y \<Longrightarrow> \<not> (srv = (\<lambda>_. api)
     \<and> (\<forall>n \<ge> p. \<exists>xs. api (page_request ep n) = Reply 200 (Some (JList xs)) \<and> xs \<noteq> [])
     \<and> (\<exists>b. pbar_bool pb = Inr b))"
    and eq: "(case get_github_data srv ep (page_params p) w of
      (Inl e, w1) \<Rightarrow> Some (Inl e, w1)
      | (Inr data, w1) \<Rightarrow>
          if \<not> py_bool data then Some (Inr (items, pb), w1)
          else case py_iter data of Inl e \<Rightarrow> Some (Inl e, w1)
               | Inr xs \<Rightarrow>
                   case pbar_bool pb of Inl e \<Rightarrow> Some (Inl e, w1)
                   | Inr b \<Rightarrow>
                       f srv ep (p + 1) (items @ xs)
                        (if b then pbar_update (length xs) pb else pb) w1) = Some y"
  show "\<not> (srv = (\<lambda>_. api) \<and> (\<forall>n \<ge> p. \<exists>xs. api (page_request ep n) = Reply 200 (Some (JList xs)) \<and> xs \<noteq> [])
      \<and> (\<exists>b. pbar_bool pb = Inr b))"
  proof
    assume H: "srv = (\<lambda>_. api) \<and> (\<forall>n \<ge> p. \<exists>xs. api (page_request ep n) = Reply 200 (Some (JList xs)) \<and> xs \<noteq> [])
      \<and> (\<exists>b. pbar_bool pb = Inr b)"
    then obtain xs b where xs: "api (page_request ep p) = Reply 200 (Some (JList xs))" "xs \<noteq> []"
      and b: "pbar_bool pb = Inr b" by blast
    with H eq have "f srv ep (Suc p) (items @ xs) (if b then pbar_update (length xs) pb else pb)
                (w\<lparr>sent := sent w @ [page_request ep p]\<rparr>) = Some y"
      by (simp add: get_github_data_def)
    from IH [OF this] H b show False
      by (auto simp: Suc_le_eq split: if_splits)
  qed
qed

text \<open>C3. Paginator, no page bound: if every page from the current one on is a non-empty
  list, the loop never returns; the code has no page limit besides an empty page.\<close>

theorem paginate_loop_diverges:
  assumes "\<forall>n \<ge> p. \<exists>xs. api (page_request ep n) = Reply 200 (Some (JList xs)) \<and> xs \<noteq> []"
    and "pbar_bool pb = Inr b"
  shows "paginate_loop (\<lambda>_. api) ep p items pb w = None"
  using assms paginate_loop_Some_runs_out [of "\<lambda>_. api" ep p items pb w _ api]
  by (cases "paginate_loop (\<lambda>_. api) ep p items pb w") auto

subsection \<open>The whole paginator\<close>

lemma start_pbar_ok:
  assumes "cf \<noteq> []" and "count_reply_ok cf (api (github_request repo_url []))"
  shows "\<exists>pb b. start_pbar (\<lambda>_. api) desc (Some cf) w = (Inr pb, w\<lparr>sent := sent w @ [github_request repo_url []]\<rparr>)
           \<and> pbar_bool pb = Inr b"
proof (cases "api (github_request repo_url [])")
  case (Reply st body)
  show ?thesis
  proof (cases "st = 200")
    case True
    with Reply assms obtain j where j: "body = Some j" "count_body_ok cf j"
      by (cases body) auto
    then show ?thesis using assms Reply True
      by (cases j) (auto simp: start_pbar_def get_github_data_def tqdm_new_def split: json.splits)
  next
    case False
    with Reply assms show ?thesis by (auto simp: start_pbar_def get_github_data_def tqdm_new_def)
  qed
next
  case NetworkError
  with assms show ?thesis by simp
qed

lemma get_paginated_data_pages_hist:
  assumes "\<forall>i < length ps. srv (sent w1 @ map (\<lambda>j. page_request ep (Suc j)) [0..<i]) (page_request ep (Suc i)) =
                             Reply 200 (Some (JList (ps ! i))) \<and> ps ! i \<noteq> []"
    and "stop_reply (srv (sent w1 @ map (\<lambda>j. page_request ep (Suc j)) [0..<length ps]) (page_request ep (Suc (length ps))))"
    and "start_pbar srv desc cf w = (Inr pb, w1)" and "pbar_bool pb = Inr b"
  shows "get_paginated_data srv ep desc cf w =
     Some (Inr (concat ps), w1\<lparr>sent := sent w1 @ map (\<lambda>i. page_request ep (Suc i)) [0..<Suc (length ps)]\<rparr>)"
proof -
  have "paginate_loop srv ep 1 [] pb w1 =
     Some (Inr ([] @ concat ps, if b then pbar_update (length (concat ps)) pb else pb),
           w1\<lparr>sent := sent w1 @ map (\<lambda>i. page_request ep (1 + i)) [0..<Suc (length ps)]\<rparr>)"
    using assms(1,2) by (intro paginate_loop_pages_hist [OF _ _ assms(4)]) simp_all
  with assms(3,4) show ?thesis by (simp add: get_paginated_data_def)
qed

lemma start_pbar_cong:
  "srv (sent w) (github_request repo_url []) = srv' (sent w) (github_request repo_url []) \<Longrightarrow>
   start_pbar srv desc cf w = start_pbar srv' desc cf w"
  by (simp add: start_pbar_def get_github_data_def split: option.split)

lemma get_paginated_data_result:
  assumes "\<forall>i < length ps. api (page_request ep (Suc i)) = Reply 200 (Some (JList (ps ! i))) \<and> ps ! i \<noteq> []"
    and "stop_reply (api (page_request ep (Suc (length ps))))"
    and "cf \<noteq> []" and "count_reply_ok cf (api (github_request repo_url []))"
  shows "get_paginated_data (\<lambda>_. api) ep desc (Some cf) w =
     Some (Inr (concat ps),
           w\<lparr>sent := sent w @ github_request repo_url [] # map (\<lambda>i. page_request ep (Suc i)) [0..<Suc (length ps)]\<rparr>)"
proof -
  let ?w1 = "w\<lparr>sent := sent w @ [github_request repo_url []]\<rparr>"
  from start_pbar_ok [where api = api, OF assms(3,4)] obtain pb b
    where st: "start_pbar (\<lambda>_. api) desc (Some cf) w = (Inr pb, ?w1)" and b: "pbar_bool pb = Inr b" by blast
  have h1: "\<forall>i < length ps. (\<lambda>_. api) (sent ?w1 @ map (\<lambda>j. page_request ep (Suc j)) [0..<i]) (page_request ep (Suc i)) =
                             Reply 200 (Some (JList (ps ! i))) \<and> ps ! i \<noteq> []"
    using assms(1) by simp
  have h2: "stop_reply ((\<lambda>_. api) (sent ?w1 @ map (\<lambda>j. page_request ep (Suc j)) [0..<length ps])
                          (page_request ep (Suc (length ps))))"
    using assms(2) by simp
  from get_paginated_data_pages_hist [OF h1 h2 st b] show ?thesis by simp
qed

text \<open>C17. Paginator, functional, with the count request: on a stateless API whose
  repository reply lets the count be read (in particular any failure status), and whose
  pages 1, 2, \<dots> of the endpoint are non-empty lists up to an empty one,
  \<open>get_paginated_data\<close> returns their concatenation, after requesting the repository
  once and then exactly those pages in increasing order.\<close>

theorem get_paginated_data_concat:
  assumes "\<forall>i < length ps. api (page_request ep (Suc i)) = Reply 200 (Some (JList (ps ! i))) \<and> ps ! i \<noteq> []"
    and "stop_reply (api (page_request ep (Suc (length ps))))"
    and "cf \<noteq> []" and "count_reply_ok cf (api (github_request repo_url []))"
  shows "get_paginated_data (\<lambda>_. api) ep desc (Some cf) w =
     Some (Inr (concat ps),
           w\<lparr>sent := sent w @ github_request repo_url [] # map (\<lambda>i. page_request ep (Suc i)) [0..<Suc (length ps)]\<rparr>)"
  using get_paginated_data_result [OF assms] .

lemma start_pbar_failed:
  assumes "cf \<noteq> []" and "api (github_request repo_url []) = Reply st body" and "st \<noteq> 200"
  shows "start_pbar (\<lambda>_. api) desc (Some cf) w =
           (Inr (Some (tqdm_new (JInt 0) desc)), w\<lparr>sent := sent w @ [github_request repo_url []]\<rparr>)"
  using assms by (simp add: start_pbar_def get_github_data_def)

lemma pbar_bool_zero [simp]: "pbar_bool (Some (tqdm_new (JInt 0) desc)) = Inr False"
  by (simp add: tqdm_new_def)

text \<open>C18. Paginator, failed count: when the repository request fails with a status
  other than 200, the progress bar is created with total 0, so \<open>if pbar:\<close> is false: the
  bar is never advanced while the pages are still collected in full, and it is never
  closed.\<close>

theorem count_failure_bar_idle:
  assumes "\<forall>i < length ps. api (page_request ep (Suc i)) = Reply 200 (Some (JList (ps ! i))) \<and> ps ! i \<noteq> []"
    and "stop_reply (api (page_request ep (Suc (length ps))))"
    and "cf \<noteq> []" and "api (github_request repo_url []) = Reply st body" and "st \<noteq> 200"
  shows "\<exists>w1 w2. start_pbar (\<lambda>_. api) desc (Some cf) w = (Inr (Some (tqdm_new (JInt 0) desc)), w1) \<and>
           paginate_loop (\<lambda>_. api) ep 1 [] (Some (tqdm_new (JInt 0) desc)) w1 =
             Some (Inr (concat ps, Some (tqdm_new (JInt 0) desc)), w2) \<and>
           pbar_bool (Some (tqdm_new (JInt 0) desc)) = Inr False"
proof -
  note start = start_pbar_failed [where api = api and desc = desc and w = w, OF assms(3,4,5)]
  have "paginate_loop (\<lambda>_. api) ep 1 [] (Some (tqdm_new (JInt 0) desc)) (w\<lparr>sent := sent w @ [github_request repo_url []]\<rparr>) =
     Some (Inr ([] @ concat ps, Some (tqdm_new (JInt 0) desc)),
           (w\<lparr>sent := sent w @ [github_request repo_url []]\<rparr>)\<lparr>sent := sent w @ [github_request repo_url []] @ map (\<lambda>i. page_request ep (1 + i)) [0..<Suc (length ps)]\<rparr>)"
    using paginate_loop_pages [where p = 1 and b = False, OF _ _ pbar_bool_zero] assms(1,2) by simp
  with start show ?thesis by (auto simp: tqdm_new_def)
qed

text \<open>C23. Paginator, rate limit: when the API stops answering after \<open>n\<close> requests
  (status 403, as GitHub's rate limit does) while page \<open>k + 1\<close> still has items, the
  paginator treats the 403 as the end of the data: it returns the items of the first \<open>k\<close>
  pages only, strictly fewer than the endpoint holds, without any error.\<close>

theorem get_paginated_data_rate_limited:
  assumes "\<forall>i < length ps. api (page_request ep (Suc i)) = Reply 200 (Some (JList (ps ! i))) \<and> ps ! i \<noteq> []"
    and "k < length ps" and "n = length (sent w) + Suc k"
    and "cf \<noteq> []" and "count_reply_ok cf (api (github_request repo_url []))"
  shows "get_paginated_data (rate_limited n api) ep desc (Some cf) w =
           Some (Inr (concat (take k ps)),
                 w\<lparr>sent := sent w @ github_request repo_url [] # map (\<lambda>i. page_request ep (Suc i)) [0..<Suc k]\<rparr>)
         \<and> length (concat (take k ps)) < length (concat ps)"
proof
  let ?w1 = "w\<lparr>sent := sent w @ [github_request repo_url []]\<rparr>"
  have eq: "start_pbar (rate_limited n api) desc (Some cf) w = start_pbar (\<lambda>_. api) desc (Some cf) w"
    using assms(3) by (intro start_pbar_cong) (simp add: rate_limited_def)
  from start_pbar_ok [where api = api and desc = desc and w = w, OF assms(4,5)] obtain pb b
    where "start_pbar (\<lambda>_. api) desc (Some cf) w = (Inr pb, ?w1)" and b: "pbar_bool pb = Inr b"
    by blast
  with eq have st: "start_pbar (rate_limited n api) desc (Some cf) w = (Inr pb, ?w1)" by simp
  have h1: "\<forall>i < length (take k ps). rate_limited n api (sent ?w1 @ map (\<lambda>j. page_request ep (Suc j)) [0..<i]) (page_request ep (Suc i)) =
                             Reply 200 (Some (JList (take k ps ! i))) \<and> take k ps ! i \<noteq> []"
    using assms(1,2,3) by (simp add: rate_limited_def)
  have h2: "stop_reply (rate_limited n api (sent ?w1 @ map (\<lambda>j. page_request ep (Suc j)) [0..<length (take k ps)])
                   (page_request ep (Suc (length (take k ps)))))"
    using assms(2,3) by (simp add: rate_limited_def)
  show "get_paginated_data (rate_limited n api) ep desc (Some cf) w =
           Some (Inr (concat (take k ps)),
                 w\<lparr>sent := sent w @ github_request repo_url [] # map (\<lambda>i. page_request ep (Suc i)) [0..<Suc k]\<rparr>)"
    using get_paginated_data_pages_hist [OF h1 h2 st b] assms(2) by simp
next
  have "concat ps = concat (take k ps) @ concat (drop k ps)" by (simp flip: concat_append)
  moreover from assms(2) have "drop k ps = ps ! k # drop (Suc k) ps" by (simp add: Cons_nth_drop_Suc)
  with assms(1,2) have "concat (drop k ps) \<noteq> []" by auto
  ultimately show "length (concat (take k ps)) < length (concat ps)" by simp
qed

subsection \<open>Witnesses\<close>

theorem paginate_loop_concat_witness:
  "paginate_loop (\<lambda>_. stub_api ''e'' [[JStr ''a''], [JStr ''b'', JStr ''c'']]) ''e'' 1 [] None empty_world =
     Some (Inr ([JStr ''a'', JStr ''b'', JStr ''c''], None),
           empty_world\<lparr>sent := [page_request ''e'' 1, page_request ''e'' 2, page_request ''e'' 3]\<rparr>)"
proof -
  have h1: "\<forall>i < length [[JStr ''a''], [JStr ''b'', JStr ''c'']].
      stub_api ''e'' [[JStr ''a''], [JStr ''b'', JStr ''c'']] (page_request ''e'' (1 + i)) =
        Reply 200 (Some (JList ([[JStr ''a''], [JStr ''b'', JStr ''c'']] ! i))) \<and>
      [[JStr ''a''], [JStr ''b'', JStr ''c'']] ! i \<noteq> []"
    by (simp add: api_simps less_Suc_eq numeral_2_eq_2)
  have h2: "stop_reply (stub_api ''e'' [[JStr ''a''], [JStr ''b'', JStr ''c'']]
              (page_request ''e'' (1 + length [[JStr ''a''], [JStr ''b'', JStr ''c'']])))"
    by (simp add: api_simps)
  show ?thesis
    using paginate_loop_concat [OF h1 h2, of None False "[]" empty_world]
    by (simp add: empty_world_def numeral_3_eq_3 numeral_2_eq_2 upt_rec)
qed

theorem paginate_loop_returns_witness:
  "\<exists>r. paginate_loop (\<lambda>_. stub_api ''e'' [[JNull]]) ''e'' 1 [] None empty_world = Some r"
proof -
  have "(1::nat) \<le> 2" and "stop_reply (stub_api ''e'' [[JNull]] (page_request ''e'' 2))"
    by (simp_all add: api_simps)
  then show ?thesis by (rule paginate_loop_returns)
qed

theorem paginate_loop_diverges_witness:
  "paginate_loop (\<lambda>_ _. Reply 200 (Some (JList [JNull]))) ''e'' 1 [] None empty_world = None"
proof -
  have "\<forall>n \<ge> (1::nat). \<exists>xs. (\<lambda>_. Reply 200 (Some (JList [JNull]))) (page_request ''e'' n)
           = Reply 200 (Some (JList xs)) \<and> xs \<noteq> []"
    by simp
  moreover have "pbar_bool None = Inr False" by simp
  ultimately show ?thesis by (rule paginate_loop_diverges)
qed

theorem get_paginated_data_concat_witness:
  "get_paginated_data (\<lambda>_. counted_api (Reply 200 (Some (JDict [(''stargazers_count'', JInt 3)])))
       ''e'' [[JStr ''a''], [JStr ''b'', JStr ''c'']])
     ''e'' (Some ''Fetching stargazers'') (Some ''stargazers_count'') empty_world =
   Some (Inr [JStr ''a'', JStr ''b'', JStr ''c''],
         empty_world\<lparr>sent := [github_request repo_url [], page_request ''e'' 1, page_request ''e'' 2,
                              page_request ''e'' 3]\<rparr>)"
proof -
  have h1: "\<forall>i < length [[JStr ''a''], [JStr ''b'', JStr ''c'']].
      counted_api (Reply 200 (Some (JDict [(''stargazers_count'', JInt 3)]))) ''e'' [[JStr ''a''], [JStr ''b'', JStr ''c'']]
        (page_request ''e'' (Suc i)) =
        Reply 200 (Some (JList ([[JStr ''a''], [JStr ''b'', JStr ''c'']] ! i))) \<and>
      [[JStr ''a''], [JStr ''b'', JStr ''c'']] ! i \<noteq> []"
    by (simp add: api_simps less_Suc_eq numeral_2_eq_2)
  have h2: "stop_reply (counted_api (Reply 200 (Some (JDict [(''stargazers_count'', JInt 3)]))) ''e''
              [[JStr ''a''], [JStr ''b'', JStr ''c'']]
              (page_request ''e'' (Suc (length [[JStr ''a''], [JStr ''b'', JStr ''c'']]))))"
    by (simp add: api_simps)
  have h3: "count_reply_ok ''stargazers_count''
      (counted_api (Reply 200 (Some (JDict [(''stargazers_count'', JInt 3)]))) ''e''
         [[JStr ''a''], [JStr ''b'', JStr ''c'']] (github_request repo_url []))"
    by (simp add: api_simps py_simps)
  show ?thesis
    using get_paginated_data_concat [OF h1 h2 _ h3, of "Some ''Fetching stargazers''" empty_world]
    by (simp add: empty_world_def numeral_3_eq_3 numeral_2_eq_2 upt_rec)
qed

theorem count_failure_bar_idle_witness:
  "\<exists>w1 w2. start_pbar (\<lambda>_. counted_api (Reply 500 None) ''e'' [[JStr ''a'']]) (Some ''Fetching forks'')
             (Some ''forks_count'') empty_world = (Inr (Some (tqdm_new (JInt 0) (Some ''Fetching forks''))), w1) \<and>
           paginate_loop (\<lambda>_. counted_api (Reply 500 None) ''e'' [[JStr ''a'']]) ''e'' 1 []
             (Some (tqdm_new (JInt 0) (Some ''Fetching forks''))) w1 =
             Some (Inr ([JStr ''a''], Some (tqdm_new (JInt 0) (Some ''Fetching forks''))), w2) \<and>
           pbar_bool (Some (tqdm_new (JInt 0) (Some ''Fetching forks''))) = Inr False"
proof -
  have h1: "\<forall>i < length [[JStr ''a'']].
      counted_api (Reply 500 None) ''e'' [[JStr ''a'']] (page_request ''e'' (Suc i)) =
        Reply 200 (Some (JList ([[JStr ''a'']] ! i))) \<and> [[JStr ''a'']] ! i \<noteq> []"
    by (simp add: api_simps)
  have h2: "stop_reply (counted_api (Reply 500 None) ''e'' [[JStr ''a'']] (page_request ''e'' (Suc (length [[JStr ''a'']]))))"
    by (simp add: api_simps)
  have h3: "counted_api (Reply 500 None) ''e'' [[JStr ''a'']] (github_request repo_url []) = Reply 500 None"
    by (simp add: api_simps)
  show ?thesis
    using count_failure_bar_idle [OF h1 h2 _ h3, of "''forks_count''" "Some ''Fetching forks''" empty_world]
    by simp
qed

theorem get_paginated_data_rate_limited_witness:
  "get_paginated_data (rate_limited 2 (stub_api ''e'' [[JStr ''a''], [JStr ''b'']])) ''e''
      (Some ''Fetching stargazers'') (Some ''stargazers_count'') empty_world =
     Some (Inr [JStr ''a''],
           empty_world\<lparr>sent := [github_request repo_url [], page_request ''e'' 1, page_request ''e'' 2]\<rparr>)
   \<and> length (concat (take 1 [[JStr ''a''], [JStr ''b'']])) < length (concat [[JStr ''a''], [JStr ''b'']])"
proof -
  have "\<forall>i < length [[JStr ''a''], [JStr ''b'']]. stub_api ''e'' [[JStr ''a''], [JStr ''b'']] (page_request ''e'' (Suc i)) =
          Reply 200 (Some (JList ([[JStr ''a''], [JStr ''b'']] ! i))) \<and> [[JStr ''a''], [JStr ''b'']] ! i \<noteq> []"
    by (simp add: api_simps less_Suc_eq numeral_2_eq_2)
  moreover have "count_reply_ok ''stargazers_count'' (stub_api ''e'' [[JStr ''a''], [JStr ''b'']] (github_request repo_url []))"
    by (simp add: api_simps)
  ultimately show ?thesis
    using get_paginated_data_rate_limited [of "[[JStr ''a''], [JStr ''b'']]" "stub_api ''e'' [[JStr ''a''], [JStr ''b'']]" "''e''" 1 2
            empty_world "''stargazers_count''" "Some ''Fetching stargazers''"]
    by (simp add: empty_world_def numeral_2_eq_2)
qed

theorem paginate_loop_consecutive_pages_witness:
  "\<exists>r. paginate_loop (rate_limited 1 (stub_api ''e'' [[JStr ''a''], [JStr ''b'']])) ''e'' 1 []
        (Some (tqdm_new (JInt 2) None)) empty_world = Some r \<and>
     sent (snd r) = [page_request ''e'' 1, page_request ''e'' 2] \<and>
     (\<exists>xs. fst r = Inr (xs, pbar_update (length xs) (Some (tqdm_new (JInt 2) None))))"
proof -
  let ?srv = "rate_limited 1 (stub_api ''e'' [[JStr ''a''], [JStr ''b'']])"
  let ?pb = "Some (tqdm_new (JInt 2) None)"
  let ?w1 = "empty_world\<lparr>sent := [page_request ''e'' 1]\<rparr>"
  let ?r = "(Inr ([JStr ''a''], pbar_update 1 ?pb), ?w1\<lparr>sent := [page_request ''e'' 1, page_request ''e'' 2]\<rparr>)
           :: (json list \<times> pbar option) res"
  have "paginate_loop ?srv ''e'' 1 [] ?pb empty_world = paginate_loop ?srv ''e'' 2 [JStr ''a''] (pbar_update 1 ?pb) ?w1"
    by (subst paginate_loop_page [where d = "JList [JStr ''a'']" and xs = "[JStr ''a'']" and b = True])
       (simp_all add: rate_limited_def api_simps py_simps empty_world_def numeral_2_eq_2)
  also have "\<dots> = Some ?r"
    by (subst paginate_loop_stop) (simp_all add: rate_limited_def empty_world_def)
  finally have eq: "paginate_loop ?srv ''e'' 1 [] ?pb empty_world = Some ?r" .
  from paginate_loop_consecutive_pages [OF eq]
  have "\<exists>xs. [JStr ''a''] = [] @ xs \<and> pbar_update 1 ?pb = (if pbar_bool ?pb = Inr True then pbar_update (length xs) ?pb else ?pb)"
    by simp
  then have "\<exists>xs. fst ?r = Inr (xs, pbar_update (length xs) ?pb)" by (auto simp: py_simps)
  with eq show ?thesis by (intro exI [of _ ?r]) (simp add: empty_world_def)
qed

end
