(* ===== verification/Enricher.thy ===== *)
theory Enricher
  imports Fetcher
begin

text \<open>
  The UserEnricher, \<open>collect_user_info\<close> of
  \<open>src/scrapper/scrapper/github_data_collector.py\<close> (lines 42--62), with the two
  login extractors \<open>main\<close> passes to it (lines 118 and 127).  For each user the
  login is extracted, the profile fetched, and a five-column record appended when
  the profile is truthy; after every user the running count of records is shown
  on the progress bar (\<open>set_postfix\<close>), which the world records in \<open>shown\<close>.
\<close>

text \<open>The projection of lines 52--58: output column and the profile key read with
  \<open>.get(key, "")\<close>.\<close>

definition profile_fields :: "(string \<times> string) list" where
  "profile_fields =
     [(''person_name'', ''name''), (''github_profile_link'', ''html_url''),
      (''email'', ''email''), (''company'', ''company''), (''interests'', ''bio'')]"

definition profile_of :: "(string \<times> json) list \<Rightarrow> py_dict" where
  "profile_of kvs = map (\<lambda>(col, key). (col, dict_get kvs key (JStr ''''))) profile_fields"

text \<open>\<open>user_info.get\<close> exists only on a dict: a truthy list, string or number raises
  AttributeError at the first \<open>.get\<close>.\<close>

fun profile_record :: "json \<Rightarrow> py_error + py_dict" where
  "profile_record (JDict kvs) = Inr (profile_of kvs)"
| "profile_record _ = Inl AttributeError"

definition show_count :: "nat \<Rightarrow> world \<Rightarrow> world" where
  "show_count n w = w\<lparr>shown := shown w @ [n]\<rparr>"

text \<open>The body of the \<open>for\<close> loop, lines 48--60.\<close>

definition collect_step ::
  "server \<Rightarrow> (json \<Rightarrow> py_error + json) \<Rightarrow> json \<Rightarrow> py_dict list \<Rightarrow> world \<Rightarrow> py_dict list res" where
  "collect_step srv extractor user acc w =
     (case extractor user of
        Inl e \<Rightarrow> (Inl e, w)
      | Inr username \<Rightarrow>
          (case get_user_info srv username w of
             (Inl e, w1) \<Rightarrow> (Inl e, w1)
           | (Inr user_info, w1) \<Rightarrow>
               (if py_bool user_info then
                  (case profile_record user_info of
                     Inl e \<Rightarrow> (Inl e, w1)
                   | Inr r \<Rightarrow> (Inr (acc @ [r]), show_count (Suc (length acc)) w1))
                else (Inr acc, show_count (length acc) w1))))"

fun collect_loop ::
  "server \<Rightarrow> (json \<Rightarrow> py_error + json) \<Rightarrow> json list \<Rightarrow> py_dict list \<Rightarrow> world \<Rightarrow> py_dict list res" where
  "collect_loop srv extractor [] acc w = (Inr acc, w)"
| "collect_loop srv extractor (u # us) acc w =
     (case collect_step srv extractor u acc w of
        (Inl e, w1) \<Rightarrow> (Inl e, w1)
      | (Inr acc', w1) \<Rightarrow> collect_loop srv extractor us acc' w1)"

definition collect_user_info ::
  "server \<Rightarrow> json list \<Rightarrow> (json \<Rightarrow> py_error + json) \<Rightarrow> world \<Rightarrow> py_dict list res" where
  "collect_user_info srv users extractor w = collect_loop srv extractor users [] w"

text \<open>\<open>lambda x: x["login"]\<close> and \<open>lambda x: x["owner"]["login"]\<close>.\<close>

definition stargazer_login :: "json \<Rightarrow> py_error + json" where
  "stargazer_login x = py_getitem x ''login''"

definition forker_login :: "json \<Rightarrow> py_error + json" where
  "forker_login x = (case py_getitem x ''owner'' of Inl e \<Rightarrow> Inl e | Inr owner \<Rightarrow> py_getitem owner ''login'')"

text \<open>
  The abstract behaviour on a stateless API: the record a user contributes, if any,
  is determined by the reply to its profile request alone.
\<close>

definition user_request :: "json \<Rightarrow> request" where
  "user_request username = github_request (user_url username) []"

fun reply_profile :: "http_reply \<Rightarrow> py_dict option" where
  "reply_profile (Reply st (Some (JDict kvs))) =
     (if st = 200 \<and> kvs \<noteq> [] then Some (profile_of kvs) else None)"
| "reply_profile _ = None"

definition profile_columns :: "string list" where
  "profile_columns = map fst profile_fields"

fun reply_ok :: "http_reply \<Rightarrow> bool" where
  "reply_ok NetworkError = False"
| "reply_ok (Reply st None) = (st \<noteq> 200)"
| "reply_ok (Reply st (Some j)) = (st \<noteq> 200 \<or> (case j of JDict _ \<Rightarrow> True | _ \<Rightarrow> \<not> py_bool j))"

text \<open>A stateless test API knowing one user, and the login its records carry.\<close>

definition ann_api :: "request \<Rightarrow> http_reply" where
  "ann_api rq = (if rq = user_request (JStr ''ann'')
                 then Reply 200 (Some (JDict [(''name'', JStr ''Ann''), (''html_url'', JStr ''https://github.com/ann'')]))
                 else Reply 404 None)"

text \<open>A stateful test API: the profile is served to the first request only, every
  later request is answered 404.\<close>

definition once_api :: server where
  "once_api sent_before rq = (if sent_before = [] then ann_api rq else Reply 404 None)"

definition login_of :: "json \<Rightarrow> json" where
  "login_of u = (case u of JDict kvs \<Rightarrow> (case map_of kvs ''login'' of Some l \<Rightarrow> l | None \<Rightarrow> JNull) | _ \<Rightarrow> JNull)"

declare user_request_def [api_simps] ann_api_def [api_simps]

subsection \<open>Properties of the loop\<close>

lemma profile_record_columns:
  "profile_record j = Inr r \<Longrightarrow> map fst r = profile_columns"
  by (cases j) (auto simp: profile_of_def profile_columns_def)

lemma profile_columns_distinct: "distinct profile_columns"
  by (simp add: profile_columns_def profile_fields_def)

lemma collect_step_columns:
  "collect_step srv ex u acc w = (Inr acc', w') \<Longrightarrow>
   \<exists>rs. acc' = acc @ rs \<and> (\<forall>r \<in> set rs. map fst r = profile_columns)"
  by (auto simp: collect_step_def dest: profile_record_columns split: sum.splits prod.splits if_splits)

lemma collect_loop_columns:
  "collect_loop srv ex users acc w = (Inr rs, w') \<Longrightarrow> \<forall>r \<in> set acc. map fst r = profile_columns \<Longrightarrow>
   \<forall>r \<in> set rs. map fst r = profile_columns"
proof (induction users arbitrary: acc w)
  case Nil
  then show ?case by simp
next
  case (Cons u us)
  obtain res w1 where step: "collect_step srv ex u acc w = (res, w1)" by fastforce
  show ?case
  proof (cases res)
    case (Inl e)
    with Cons.prems step show ?thesis by simp
  next
    case (Inr acc')
    with Cons.prems(1) step have "collect_loop srv ex us acc' w1 = (Inr rs, w')" by simp
    moreover from collect_step_columns [OF step [unfolded Inr]] Cons.prems(2)
    have "\<forall>r \<in> set acc'. map fst r = profile_columns" by auto
    ultimately show ?thesis by (rule Cons.IH)
  qed
qed


lemma collect_step_grows:
  assumes "collect_step srv ex u acc w = (Inr acc', w')"
  shows "(acc' = acc \<or> (\<exists>r. acc' = acc @ [r])) \<and> shown w' = shown w @ [length acc'] \<and>
         length (sent w') = Suc (length (sent w))"
proof -
  from assms obtain name where ex: "ex u = Inr name"
    by (auto simp: collect_step_def split: sum.splits)
  obtain res w1 where get: "get_user_info srv name w = (res, w1)" by fastforce
  from get_github_data_frame [OF get [unfolded get_user_info_def]]
  have frame: "shown w1 = shown w" "length (sent w1) = Suc (length (sent w))" by simp_all
  from assms ex get frame show ?thesis
    by (auto simp: collect_step_def show_count_def split: sum.splits if_splits)
qed

lemma collect_loop_bounds:
  "collect_loop srv ex us acc w = (Inr rs, w') \<Longrightarrow>
   length acc \<le> length rs \<and> length rs \<le> length acc + length us \<and>
   length (sent w') = length (sent w) + length us \<and>
   (\<exists>ns. shown w' = shown w @ ns \<and> length ns = length us \<and> sorted (length acc # ns) \<and>
         (\<forall>i < length ns. ns ! i \<le> length acc + Suc i) \<and> last (length acc # ns) = length rs)"
proof (induction us arbitrary: acc w)
  case Nil
  then show ?case by simp
next
  case (Cons u us)
  obtain res w1 where step: "collect_step srv ex u acc w = (res, w1)" by fastforce
  with Cons.prems obtain acc1 where res: "res = Inr acc1" and loop: "collect_loop srv ex us acc1 w1 = (Inr rs, w')"
    by (cases res) auto
  from collect_step_grows [OF step [unfolded res]]
  have g: "length acc \<le> length acc1" "length acc1 \<le> Suc (length acc)"
      and sh: "shown w1 = shown w @ [length acc1]" and se: "length (sent w1) = Suc (length (sent w))"
    by auto
  from Cons.IH [OF loop] obtain ns where
    ih: "length acc1 \<le> length rs" "length rs \<le> length acc1 + length us"
        "length (sent w') = length (sent w1) + length us"
        "shown w' = shown w1 @ ns" "length ns = length us" "sorted (length acc1 # ns)"
        "\<forall>i < length ns. ns ! i \<le> length acc1 + Suc i" "last (length acc1 # ns) = length rs"
    by blast
  have bound: "\<forall>i < length (length acc1 # ns). (length acc1 # ns) ! i \<le> length acc + Suc i"
  proof (intro allI impI)
    fix i assume "i < length (length acc1 # ns)"
    with ih(7) g show "(length acc1 # ns) ! i \<le> length acc + Suc i"
      by (cases i) fastforce+
  qed
  show ?case
  proof (intro conjI exI)
    show "shown w' = shown w @ (length acc1 # ns)" using ih(4) sh by simp
    show "sorted (length acc # length acc1 # ns)" using ih(6) g by (auto intro: order_trans)
    show "last (length acc # length acc1 # ns) = length rs" using ih(8) by simp
  qed (use g ih se bound in simp_all)
qed

text \<open>C31. UserEnricher, bounds, on any server (a stateful one included): when the loop
  finishes, it has sent exactly one profile request per user, returned at most one record
  per user, and shown one \<open>users_collected\<close> count per user; the counts never decrease,
  the \<open>i\<close>-th is at most \<open>i\<close> (counting from one), and the last is the number of records
  returned.\<close>

theorem collect_user_info_bounds:
  assumes "collect_user_info srv users ex w = (Inr rs, w')"
  shows "length rs \<le> length users \<and> length (sent w') = length (sent w) + length users \<and>
         (\<exists>ns. shown w' = shown w @ ns \<and> length ns = length users \<and> sorted ns \<and>
               (\<forall>i < length ns. ns ! i \<le> Suc i) \<and> (users \<noteq> [] \<longrightarrow> last ns = length rs))"
proof -
  from collect_loop_bounds [OF assms [unfolded collect_user_info_def]] obtain ns where
    "length rs \<le> length users" "length (sent w') = length (sent w) + length users"
    "shown w' = shown w @ ns" "length ns = length users" "sorted (0 # ns)"
    "\<forall>i < length ns. ns ! i \<le> Suc i" "last (0 # ns) = length rs"
    by auto
  then show ?thesis by (intro conjI exI [of _ ns]) (auto split: if_splits)
qed

lemma collect_step_reply:
  assumes "ex u = Inr name" and "reply_ok (srv (sent w) (user_request name))"
  shows "collect_step srv ex u acc w =
     (let acc' = acc @ (case reply_profile (srv (sent w) (user_request name)) of None \<Rightarrow> [] | Some r \<Rightarrow> [r])
      in (Inr acc', w\<lparr>sent := sent w @ [user_request name], shown := shown w @ [length acc']\<rparr>))"
  using assms
  by (cases "srv (sent w) (user_request name)" rule: reply_ok.cases)
     (auto simp: collect_step_def get_user_info_def get_github_data_def user_request_def show_count_def Let_def
           split: json.splits)

lemma reply_non200:
  "st \<noteq> 200 \<Longrightarrow> reply_ok (Reply st body) \<and> reply_profile (Reply st body) = None"
  by (cases "Reply st body" rule: reply_profile.cases) (auto split: json.split)

text \<open>C4. UserEnricher, error absorption: a user whose profile request is answered with a
  status other than 200 (a 404, say) contributes no record, and the running count shown
  for it is the unchanged number of records collected so far.\<close>

theorem collect_loop_skips_failed_fetch:
  assumes "ex u = Inr name"
    and "srv (sent w) (user_request name) = Reply st body" and "st \<noteq> 200"
  shows "collect_loop srv ex (u # us) acc w =
         collect_loop srv ex us acc (w\<lparr>sent := sent w @ [user_request name], shown := shown w @ [length acc]\<rparr>)"
proof -
  from assms(2,3) have "reply_ok (srv (sent w) (user_request name))" and "reply_profile (srv (sent w) (user_request name)) = None"
    using reply_non200 by simp_all
  with assms(1) show ?thesis by (simp add: collect_step_reply)
qed

lemma collect_loop_refines:
  assumes "\<forall>u \<in> set users. ex u = Inr (login u) \<and> reply_ok (api (user_request (login u)))"
  shows "collect_loop (\<lambda>_. api) ex users acc w =
     (Inr (acc @ List.map_filter (\<lambda>u. reply_profile (api (user_request (login u)))) users),
      w\<lparr>sent := sent w @ map (\<lambda>u. user_request (login u)) users,
        shown := shown w @ map (\<lambda>i. length acc + length (List.map_filter (\<lambda>u. reply_profile (api (user_request (login u))))
                                      (take (Suc i) users))) [0..<length users]\<rparr>)"
  using assms
proof (induction users arbitrary: acc w)
  case Nil
  then show ?case by simp
next
  case (Cons u us)
  then have ok: "ex u = Inr (login u)" "reply_ok ((\<lambda>_. api) (sent w) (user_request (login u)))"
    and rest: "\<forall>u \<in> set us. ex u = Inr (login u) \<and> reply_ok (api (user_request (login u)))"
    by auto
  note step = collect_step_reply [where ex = ex and u = u and srv = "\<lambda>_. api" and w = w and acc = acc, OF ok]
  show ?case
  proof (cases "reply_profile (api (user_request (login u)))")
    case None
    with step Cons.IH [OF rest] show ?thesis
      by (simp add: map_upt_Suc del: upt_Suc)
  next
    case (Some r)
    with step Cons.IH [OF rest] show ?thesis
      by (simp add: map_upt_Suc del: upt_Suc)
  qed
qed

text \<open>C5. UserEnricher, refinement: on a stateless API where no user raises, the loop
  computes the pure filter-map of the users through the reply to their profile request;
  it requests the profiles one by one in the order of the users, and the count shown after
  the \<open>i\<close>-th user is the number of records among the first \<open>i + 1\<close> users.\<close>

theorem collect_user_info_refines:
  assumes "\<forall>u \<in> set users. ex u = Inr (login u) \<and> reply_ok (api (user_request (login u)))"
  shows "collect_user_info (\<lambda>_. api) users ex w =
     (Inr (List.map_filter (\<lambda>u. reply_profile (api (user_request (login u)))) users),
      w\<lparr>sent := sent w @ map (\<lambda>u. user_request (login u)) users,
        shown := shown w @ map (\<lambda>i. length (List.map_filter (\<lambda>u. reply_profile (api (user_request (login u))))
                                      (take (Suc i) users))) [0..<length users]\<rparr>)"
  using collect_loop_refines [OF assms, of "[]" w] by (simp add: collect_user_info_def)

lemma collect_loop_error_step:
  "fst (collect_step srv ex u acc w) = Inl e \<Longrightarrow> fst (collect_loop srv ex (u # us) acc w) = Inl e"
  by (cases "collect_step srv ex u acc w") (simp split: sum.splits)

text \<open>C7. UserEnricher, error propagation: a user record without a \<open>login\<close> key, or a
  connection failure while fetching a profile, aborts the whole collection with the
  exception; the records collected before it are not returned.\<close>

theorem collect_loop_aborts:
  assumes "ex u = Inl e \<or> (ex u = Inr name \<and> srv (sent w) (user_request name) = NetworkError \<and> e = ConnectionError)"
  shows "fst (collect_loop srv ex (u # us) acc w) = Inl e"
  using assms
  by (intro collect_loop_error_step)
     (auto simp: collect_step_def get_user_info_def get_github_data_def user_request_def Let_def)

subsection \<open>Witnesses\<close>

theorem collect_loop_skips_failed_fetch_witness:
  "collect_loop (\<lambda>_ _. Reply 404 None) stargazer_login [JDict [(''login'', JStr ''ann'')]] [] empty_world =
   (Inr [], empty_world\<lparr>sent := [user_request (JStr ''ann'')], shown := [0]\<rparr>)"
proof -
  have "stargazer_login (JDict [(''login'', JStr ''ann'')]) = Inr (JStr ''ann'')"
    by (simp add: stargazer_login_def)
  from collect_loop_skips_failed_fetch [where srv = "\<lambda>_ _. Reply 404 None" and st = 404 and body = None
          and ex = stargazer_login and u = "JDict [(''login'', JStr ''ann'')]" and name = "JStr ''ann''"
          and w = empty_world and us = "[]" and acc = "[]", OF this]
  show ?thesis by (simp add: empty_world_def)
qed

theorem collect_user_info_refines_witness:
  "collect_user_info (\<lambda>_. ann_api) [JDict [(''login'', JStr ''ann'')], JDict [(''login'', JStr ''bob'')]]
      stargazer_login empty_world =
   (Inr [[(''person_name'', JStr ''Ann''), (''github_profile_link'', JStr ''https://github.com/ann''),
          (''email'', JStr ''''), (''company'', JStr ''''), (''interests'', JStr '''')]],
    empty_world\<lparr>sent := [user_request (JStr ''ann''), user_request (JStr ''bob'')], shown := [1, 1]\<rparr>)"
proof -
  have bob: "user_request (JStr ''bob'') \<noteq> user_request (JStr ''ann'')"
    by (simp add: api_simps)
  have ann_ann: "ann_api (user_request (JStr ''ann'')) =
      Reply 200 (Some (JDict [(''name'', JStr ''Ann''), (''html_url'', JStr ''https://github.com/ann'')]))"
    and ann_bob: "ann_api (user_request (JStr ''bob'')) = Reply 404 None"
    using bob by (simp_all add: ann_api_def)
  have "\<forall>u \<in> set [JDict [(''login'', JStr ''ann'')], JDict [(''login'', JStr ''bob'')]].
          stargazer_login u = Inr (login_of u) \<and> reply_ok (ann_api (user_request (login_of u)))"
    by (simp add: stargazer_login_def login_of_def ann_ann ann_bob)
  from collect_user_info_refines [OF this, of empty_world] show ?thesis
    by (simp add: ann_ann ann_bob login_of_def profile_of_def profile_fields_def dict_get_def
                  empty_world_def)
qed


theorem collect_loop_aborts_witness:
  "fst (collect_loop (\<lambda>_ _. Reply 404 None) stargazer_login [JDict [(''id'', JInt 7)], JDict [(''login'', JStr ''ann'')]]
     [] empty_world) = Inl (KeyError ''login'')"
proof -
  have "stargazer_login (JDict [(''id'', JInt 7)]) = Inl (KeyError ''login'')"
    by (simp add: stargazer_login_def)
  then show ?thesis by (intro collect_loop_aborts) simp
qed

theorem collect_user_info_bounds_witness:
  "\<exists>rs w'. collect_user_info once_api [JDict [(''login'', JStr ''ann'')], JDict [(''login'', JStr ''ann'')]]
       stargazer_login empty_world = (Inr rs, w') \<and>
     length rs \<le> 2 \<and> length (sent w') = 2 \<and> shown w' = [1, 1] \<and> last (shown w') = length rs"
proof -
  let ?rs = "[profile_of [(''name'', JStr ''Ann''), (''html_url'', JStr ''https://github.com/ann'')]]"
  let ?w = "empty_world\<lparr>sent := [user_request (JStr ''ann''), user_request (JStr ''ann'')], shown := [1, 1]\<rparr>"
  have eq: "collect_user_info once_api [JDict [(''login'', JStr ''ann'')], JDict [(''login'', JStr ''ann'')]]
       stargazer_login empty_world = (Inr ?rs, ?w)"
    by (simp add: collect_user_info_def collect_step_def stargazer_login_def get_user_info_def once_api_def
                  get_github_data_def user_request_def ann_api_def show_count_def empty_world_def)
  from collect_user_info_bounds [OF eq] have "length ?rs \<le> 2" "length (sent ?w) = 2" by simp_all
  with eq show ?thesis by (intro exI [of _ ?rs] exI [of _ ?w]) simp
qed

end
