(* ===== verification/CsvFormat.thy ===== *)
theory CsvFormat
  imports Prelude
begin

text \<open>
  The CSV format the program writes and reads back, as the libraries it calls
  implement it (they are not part of the repository): Python's \<open>csv\<close> writer in
  its default dialect (delimiter \<open>,\<close>, quote character \<open>"\<close>, doubled quotes,
  \<open>QUOTE_MINIMAL\<close>), used by \<open>csv.DictWriter\<close> in \<open>save_to_csv\<close> with line
  terminator CR LF and by \<open>DataFrame.to_csv\<close> with LF; and the reader's state
  machine (the states of CPython's \<open>_csv\<close> reader), which pandas' tokenizer
  follows on these files.  The reader turns text into rows of fields; a blank
  line is an empty row.
\<close>

section \<open>Writer\<close>

definition csv_special :: "char \<Rightarrow> bool" where
  "csv_special c \<longleftrightarrow> c = CHR '','' \<or> c = CHR 0x22 \<or> c = CHR 0x0D \<or> c = CHR 0x0A"

definition needs_quote :: "string \<Rightarrow> bool" where
  "needs_quote s \<longleftrightarrow> (\<exists>c \<in> set s. csv_special c)"

definition quote_body :: "string \<Rightarrow> string" where
  "quote_body s = concat (map (\<lambda>c. if c = CHR 0x22 then [CHR 0x22, CHR 0x22] else [c]) s)"

definition csv_field :: "string \<Rightarrow> string" where
  "csv_field s = (if needs_quote s then CHR 0x22 # quote_body s @ [CHR 0x22] else s)"

text \<open>A row that is a single empty field is written as \<open>""\<close>, so that it is not
  read back as a blank line.\<close>

definition csv_row :: "string \<Rightarrow> string list \<Rightarrow> string" where
  "csv_row lt fields =
     (if fields = [[]] then [CHR 0x22, CHR 0x22] else py_join '','' (map csv_field fields)) @ lt"

definition csv_text :: "string \<Rightarrow> string list list \<Rightarrow> string" where
  "csv_text lt rows = concat (map (csv_row lt) rows)"

definition CRLF :: string where "CRLF = [CHR 0x0D, CHR 0x0A]"
definition LF :: string where "LF = [CHR 0x0A]"

section \<open>Reader\<close>

datatype rstate = StartRecord | StartField | InField | InQuoted | QuoteInQuoted | EatCRNL

text \<open>Reader state: the machine state, the field being read, the fields of the
  current row, and the rows read so far.\<close>

type_synonym reader = "rstate \<times> string \<times> string list \<times> string list list"

definition end_field :: "reader \<Rightarrow> rstate \<Rightarrow> reader" where
  "end_field r st' = (case r of (st, f, fs, rs) \<Rightarrow> (st', [], fs @ [f], rs))"

definition end_row :: "reader \<Rightarrow> rstate \<Rightarrow> reader" where
  "end_row r st' = (case r of (st, f, fs, rs) \<Rightarrow> (st', [], [], rs @ [fs @ [f]]))"

definition add_char :: "reader \<Rightarrow> rstate \<Rightarrow> char \<Rightarrow> reader" where
  "add_char r st' c = (case r of (st, f, fs, rs) \<Rightarrow> (st', f @ [c], fs, rs))"

definition at_newline :: "char \<Rightarrow> rstate" where
  "at_newline c = (if c = CHR 0x0D then EatCRNL else StartRecord)"

definition is_newline :: "char \<Rightarrow> bool" where
  "is_newline c \<longleftrightarrow> c = CHR 0x0D \<or> c = CHR 0x0A"

text \<open>The first character of a field (CPython's \<open>START_FIELD\<close> state, which
  \<open>START_RECORD\<close> falls through to).\<close>

definition field_start :: "reader \<Rightarrow> char \<Rightarrow> reader" where
  "field_start r c =
     (if is_newline c then end_row r (at_newline c)
      else if c = CHR 0x22 then (case r of (st, f, fs, rs) \<Rightarrow> (InQuoted, f, fs, rs))
      else if c = CHR '','' then end_field r StartField
      else add_char r InField c)"

text \<open>At the start of a record a newline is a blank line, read as an empty row.\<close>

definition record_start :: "reader \<Rightarrow> char \<Rightarrow> reader" where
  "record_start r c =
     (if is_newline c then (case r of (st, f, fs, rs) \<Rightarrow> (at_newline c, [], [], rs @ [[]]))
      else field_start r c)"

fun csv_step :: "reader \<Rightarrow> char \<Rightarrow> reader" where
  "csv_step (StartRecord, f, fs, rs) c = record_start (StartRecord, f, fs, rs) c"
| "csv_step (StartField, f, fs, rs) c = field_start (StartField, f, fs, rs) c"
| "csv_step (InField, f, fs, rs) c =
     (if is_newline c then end_row (InField, f, fs, rs) (at_newline c)
      else if c = CHR '','' then end_field (InField, f, fs, rs) StartField
      else add_char (InField, f, fs, rs) InField c)"
| "csv_step (InQuoted, f, fs, rs) c =
     (if c = CHR 0x22 then (QuoteInQuoted, f, fs, rs)
      else add_char (InQuoted, f, fs, rs) InQuoted c)"
| "csv_step (QuoteInQuoted, f, fs, rs) c =
     (if c = CHR 0x22 then add_char (QuoteInQuoted, f, fs, rs) InQuoted c
      else if c = CHR '','' then end_field (QuoteInQuoted, f, fs, rs) StartField
      else if is_newline c then end_row (QuoteInQuoted, f, fs, rs) (at_newline c)
      else add_char (QuoteInQuoted, f, fs, rs) InField c)"
| "csv_step (EatCRNL, f, fs, rs) c =
     (if c = CHR 0x0A then (StartRecord, f, fs, rs) else record_start (StartRecord, f, fs, rs) c)"

text \<open>At the end of the text a pending row is completed.\<close>

fun csv_finish :: "reader \<Rightarrow> string list list" where
  "csv_finish (StartRecord, f, fs, rs) = rs"
| "csv_finish (EatCRNL, f, fs, rs) = rs"
| "csv_finish (st, f, fs, rs) = rs @ [fs @ [f]]"

definition csv_run :: "string \<Rightarrow> reader \<Rightarrow> reader" where
  "csv_run s r = fold (\<lambda>c r. csv_step r c) s r"

definition csv_parse :: "string \<Rightarrow> string list list" where
  "csv_parse s = csv_finish (csv_run s (StartRecord, [], [], []))"

text \<open>Where the reader is after the text of one field, from the start of a field.\<close>

definition field_kind :: "rstate \<Rightarrow> string \<Rightarrow> rstate" where
  "field_kind st0 s = (if needs_quote s then QuoteInQuoted else if s = [] then st0 else InField)"

section \<open>Reading back what the writer wrote\<close>

lemma csv_run_simps [simp]:
  "csv_run [] r = r" "csv_run (c # cs) r = csv_run cs (csv_step r c)"
  "csv_run (xs @ ys) r = csv_run ys (csv_run xs r)"
  by (simp_all add: csv_run_def)

lemma char_classes [simp]:
  "\<not> is_newline CHR 0x22" "\<not> is_newline CHR '',''" "is_newline CHR 0x0D" "is_newline CHR 0x0A"
  "csv_special CHR 0x22" "csv_special CHR '',''" "csv_special CHR 0x0D" "csv_special CHR 0x0A"
  "\<not> csv_special c \<Longrightarrow> \<not> is_newline c" "\<not> csv_special c \<Longrightarrow> c \<noteq> CHR 0x22" "\<not> csv_special c \<Longrightarrow> c \<noteq> CHR '',''"
  by (auto simp: is_newline_def csv_special_def)

lemma csv_run_plain:
  "\<forall>c \<in> set cs. \<not> csv_special c \<Longrightarrow> csv_run cs (InField, f, fs, rs) = (InField, f @ cs, fs, rs)"
  by (induction cs arbitrary: f) (simp_all add: add_char_def)

lemma csv_run_quoted:
  "csv_run (quote_body s) (InQuoted, f, fs, rs) = (InQuoted, f @ s, fs, rs)"
  by (induction s arbitrary: f) (simp_all add: quote_body_def add_char_def)

lemma csv_run_field:
  assumes "st0 = StartRecord \<or> st0 = StartField"
  shows "csv_run (csv_field s) (st0, [], fs, rs) = (field_kind st0 s, s, fs, rs)"
proof (cases "needs_quote s")
  case True
  with assms show ?thesis
    by (auto simp: csv_field_def field_kind_def csv_run_quoted record_start_def field_start_def)
next
  case False
  show ?thesis
  proof (cases s)
    case Nil
    then show ?thesis by (simp add: csv_field_def field_kind_def needs_quote_def)
  next
    case (Cons c cs)
    with False have "\<not> csv_special c" "\<forall>c \<in> set cs. \<not> csv_special c"
      by (auto simp: needs_quote_def)
    with False Cons assms show ?thesis
      by (auto simp: csv_field_def field_kind_def csv_run_plain record_start_def field_start_def add_char_def)
  qed
qed

lemma csv_step_comma:
  "st \<in> {QuoteInQuoted, InField, StartField, StartRecord} \<Longrightarrow>
   csv_step (st, f, fs, rs) CHR '','' = (StartField, [], fs @ [f], rs)"
  by (auto simp: end_field_def record_start_def field_start_def)

lemma csv_run_newline:
  "st \<in> {QuoteInQuoted, InField, StartField} \<Longrightarrow> lt = CRLF \<or> lt = LF \<Longrightarrow>
   csv_run lt (st, f, fs, rs) = (StartRecord, [], [], rs @ [fs @ [f]])"
  by (auto simp: CRLF_def LF_def end_row_def at_newline_def field_start_def)

lemma csv_run_join:
  assumes "st0 = StartRecord \<or> st0 = StartField"
  shows "csv_run (py_join '','' (map csv_field (s # ss))) (st0, [], fs, rs) =
         (field_kind (if ss = [] then st0 else StartField) (last (s # ss)), last (s # ss), fs @ butlast (s # ss), rs)"
  using assms
proof (induction ss arbitrary: s st0 fs)
  case Nil
  then show ?case by (simp add: csv_run_field)
next
  case (Cons s' ss)
  have "field_kind st0 s \<in> {QuoteInQuoted, InField, StartField, StartRecord}"
    using Cons.prems by (auto simp: field_kind_def)
  then have "csv_run (csv_field s @ '','') (st0, [], fs, rs) = (StartField, [], fs @ [s], rs)"
    using Cons.prems by (simp add: csv_run_field csv_step_comma)
  then show ?case
    using Cons.IH [of StartField s' "fs @ [s]"] by simp
qed

lemma csv_run_row:
  assumes "lt = CRLF \<or> lt = LF"
  shows "csv_run (csv_row lt fields) (StartRecord, [], [], rs) = (StartRecord, [], [], rs @ [fields])"
proof (cases fields)
  case Nil
  with assms show ?thesis
    by (auto simp: csv_row_def CRLF_def LF_def record_start_def at_newline_def)
next
  case (Cons s ss)
  show ?thesis
  proof (cases "fields = [[]]")
    case True
    with assms show ?thesis
      by (simp add: csv_row_def record_start_def field_start_def csv_run_newline)
  next
    case False
    with Cons have kind: "field_kind (if ss = [] then StartRecord else StartField) (last (s # ss))
                     \<in> {QuoteInQuoted, InField, StartField}"
      by (auto simp: field_kind_def)
    from False Cons have "csv_row lt fields = py_join '','' (map csv_field (s # ss)) @ lt"
      by (auto simp: csv_row_def)
    with Cons csv_run_join [of StartRecord s ss "[]" rs] csv_run_newline [OF kind assms]
    show ?thesis by simp
  qed
qed

lemma csv_run_text:
  "lt = CRLF \<or> lt = LF \<Longrightarrow> csv_run (csv_text lt rows) (StartRecord, [], [], rs) = (StartRecord, [], [], rs @ rows)"
  by (induction rows arbitrary: rs) (simp_all add: csv_text_def csv_run_row)

lemma csv_parse_csv_text:
  "lt = CRLF \<or> lt = LF \<Longrightarrow> csv_parse (csv_text lt rows) = rows"
  by (simp add: csv_parse_def csv_run_text)

end
