(* ===== verification/CsvWriter.thy ===== *)
theory CsvWriter
  imports World CsvFormat
begin

text \<open>
  The CsvWriter, \<open>save_to_csv\<close> of \<open>src/scrapper/scrapper/github_data_collector.py\<close>
  (lines 29--39).  An empty list prints a message and writes nothing.  Otherwise
  the field names are the keys of the first record; \<open>csv.DictWriter\<close> writes
  them as the header and then each record, a missing key as the empty string
  and \<open>None\<close> as the empty string, every other value by \<open>str()\<close>; a record
  with a key that is not a field name raises ValueError, after the rows before
  it have been written (the file was opened, and is closed by the \<open>with\<close>).
\<close>

definition csv_cell :: "json \<Rightarrow> string" where
  "csv_cell v = (if v = JNull then [] else py_str v)"

definition row_cells :: "string list \<Rightarrow> py_dict \<Rightarrow> string list" where
  "row_cells fieldnames rowdict =
     map (\<lambda>k. case map_of rowdict k of None \<Rightarrow> [] | Some v \<Rightarrow> csv_cell v) fieldnames"

definition dict_to_list :: "string list \<Rightarrow> py_dict \<Rightarrow> py_error + string list" where
  "dict_to_list fieldnames rowdict =
     (if list_ex (\<lambda>k. k \<notin> set fieldnames) (map fst rowdict) then Inl ValueError
      else Inr (row_cells fieldnames rowdict))"

text \<open>\<open>writerows\<close>: the rows written before the first failing record, and the failure.\<close>

fun dict_rows :: "string list \<Rightarrow> py_dict list \<Rightarrow> string list list \<times> py_error option" where
  "dict_rows keys [] = ([], None)"
| "dict_rows keys (d # ds) =
     (case dict_to_list keys d of
        Inl e \<Rightarrow> ([], Some e)
      | Inr r \<Rightarrow> (case dict_rows keys ds of (rs, err) \<Rightarrow> (r # rs, err)))"

definition save_to_csv :: "py_dict list \<Rightarrow> string \<Rightarrow> world \<Rightarrow> unit res" where
  "save_to_csv data filename w =
     (case data of
        [] \<Rightarrow> (Inr (), py_print ''No data to save.'' w)
      | d0 # _ \<Rightarrow>
          (let keys = map fst d0;
               written = dict_rows keys data;
               w' = write_file filename (csv_text CRLF (keys # fst written)) w
           in case snd written of None \<Rightarrow> (Inr (), w') | Some e \<Rightarrow> (Inl e, w')))"

subsection \<open>Properties\<close>

lemma dict_to_list_ok:
  "set (map fst d) \<subseteq> set keys \<Longrightarrow> dict_to_list keys d = Inr (row_cells keys d)"
  by (auto simp: dict_to_list_def list_ex_iff)

lemma dict_rows_ok:
  "\<forall>d \<in> set ds. set (map fst d) \<subseteq> set keys \<Longrightarrow> dict_rows keys ds = (map (row_cells keys) ds, None)"
  by (induction ds) (simp_all add: dict_to_list_ok)

lemma dict_rows_prefix:
  "\<forall>p \<in> set pre. set (map fst p) \<subseteq> set keys \<Longrightarrow> \<not> set (map fst d) \<subseteq> set keys \<Longrightarrow>
   dict_rows keys (pre @ d # post) = (map (row_cells keys) pre, Some ValueError)"
  by (induction pre) (auto simp: dict_to_list_ok dict_to_list_def list_ex_iff)

lemma row_cells_own_keys:
  "distinct (map fst d) \<Longrightarrow> row_cells (map fst d) d = map (\<lambda>kv. csv_cell (snd kv)) d"
  by (auto simp: row_cells_def intro!: map_cong dest: map_of_is_SomeI)


lemma save_to_csv_written:
  assumes "\<forall>d \<in> set (d0 # ds). map fst d = map fst d0" and "distinct (map fst d0)"
  shows "save_to_csv (d0 # ds) fn w =
     (Inr (), write_file fn (csv_text CRLF (map fst d0 # map (map (\<lambda>kv. csv_cell (snd kv))) (d0 # ds))) w)"
proof -
  have rows: "dict_rows (map fst d0) (d0 # ds) = (map (row_cells (map fst d0)) (d0 # ds), None)"
  proof (intro dict_rows_ok ballI)
    fix d assume "d \<in> set (d0 # ds)"
    with assms(1) have "map fst d = map fst d0" by blast
    then show "set (map fst d) \<subseteq> set (map fst d0)" by simp
  qed
  have cells: "map (row_cells (map fst d0)) (d0 # ds) = map (map (\<lambda>kv. csv_cell (snd kv))) (d0 # ds)"
    using assms by (auto intro!: map_cong simp: row_cells_own_keys [symmetric])
  show ?thesis
    by (simp only: save_to_csv_def Let_def rows cells list.case fst_conv snd_conv option.case)
qed

lemma save_to_csv_uniform:
  assumes "\<forall>d \<in> set (d0 # ds). map fst d = map fst d0" and "distinct (map fst d0)"
  shows "\<exists>w'. save_to_csv (d0 # ds) fn w = (Inr (), w') \<and>
     map_option csv_parse (read_file fn w') =
       Some (map fst d0 # map (map (\<lambda>kv. csv_cell (snd kv))) (d0 # ds))"
  by (simp add: save_to_csv_written [OF assms] csv_parse_csv_text)

text \<open>C9. CsvWriter, roundtrip: for uniform records with distinct keys, \<open>save_to_csv\<close>
  succeeds, and reading the file back gives the header of the keys followed by one row per
  record holding its values field for field, converted by \<open>str()\<close> (\<open>None\<close> as the
  empty string).\<close>

theorem save_to_csv_roundtrip:
  assumes "\<forall>d \<in> set (d0 # ds). map fst d = map fst d0" and "distinct (map fst d0)"
  shows "\<exists>w'. save_to_csv (d0 # ds) fn w = (Inr (), w') \<and>
     map_option csv_parse (read_file fn w') =
       Some (map fst d0 # map (map (\<lambda>kv. csv_cell (snd kv))) (d0 # ds))"
  using save_to_csv_uniform [OF assms] .

text \<open>C10. CsvWriter, heterogeneous records: a record with a key the first record lacks
  raises ValueError, and the file is left holding the header and the rows before it.\<close>

theorem save_to_csv_extra_key:
  assumes "\<forall>p \<in> set pre. set (map fst p) \<subseteq> set (map fst d0)" and "\<not> set (map fst d) \<subseteq> set (map fst d0)"
  shows "save_to_csv (d0 # pre @ d # post) fn w =
     (Inl ValueError, write_file fn (csv_text CRLF (map fst d0 # map (row_cells (map fst d0)) (d0 # pre))) w)"
proof -
  have "dict_rows (map fst d0) ((d0 # pre) @ d # post) = (map (row_cells (map fst d0)) (d0 # pre), Some ValueError)"
    using assms by (intro dict_rows_prefix) auto
  then show ?thesis by (simp add: save_to_csv_def Let_def)
qed

subsection \<open>Witnesses\<close>

theorem save_to_csv_roundtrip_witness:
  "\<exists>w'. save_to_csv [[(''a'', JStr ''x,y''), (''b'', JNull)], [(''a'', JStr [CHR ''q'', CHR 0x22]), (''b'', JStr ''z'')]]
          ''out.csv'' empty_world = (Inr (), w') \<and>
     map_option csv_parse (read_file ''out.csv'' w') = Some [[''a'', ''b''], [''x,y'', ''''], [[CHR ''q'', CHR 0x22], ''z'']]"
  using save_to_csv_roundtrip [of "[(''a'', JStr ''x,y''), (''b'', JNull)]" "[[(''a'', JStr [CHR ''q'', CHR 0x22]), (''b'', JStr ''z'')]]"
          "''out.csv''" empty_world]
  by (simp add: csv_cell_def)

theorem save_to_csv_extra_key_witness:
  "save_to_csv [[(''a'', JStr ''1'')], [(''a'', JStr ''2''), (''z'', JNull)]] ''out.csv'' empty_world =
   (Inl ValueError, write_file ''out.csv'' (csv_text CRLF [[''a''], [''1'']]) empty_world)"
  using save_to_csv_extra_key [of "[]" "[(''a'', JStr ''1'')]" "[(''a'', JStr ''2''), (''z'', JNull)]" "[]"
          "''out.csv''" empty_world]
  by (simp add: row_cells_def csv_cell_def)

end
