(* ===== verification/Collector.thy ===== *)
theory Collector
  imports Paginator Enricher CsvWriter
begin

text \<open>
  The collector's \<open>main\<close> (\<open>src/scrapper/scrapper/github_data_collector.py\<close>,
  lines 114--131): two independent pipelines, stargazers then forkers, each
  fetching the identities with the Paginator, enriching them when there are any,
  saving the records and printing a message.  A pipeline that never returns
  (an endless page sequence) makes \<open>main\<close> never return; an exception of the
  first pipeline ends the program before the second starts.
\<close>

definition run_pipeline ::
  "server \<Rightarrow> (server \<Rightarrow> world \<Rightarrow> json list res option) \<Rightarrow> (json \<Rightarrow> py_error + json) \<Rightarrow>
   string \<Rightarrow> string \<Rightarrow> string \<Rightarrow> world \<Rightarrow> unit res option" where
  "run_pipeline srv fetch extractor csv_name saved_msg none_msg w =
     (case fetch srv w of
        None \<Rightarrow> None
      | Some (Inl e, w1) \<Rightarrow> Some (Inl e, w1)
      | Some (Inr users, w1) \<Rightarrow>
          (if users \<noteq> [] then
             (case collect_user_info srv users extractor w1 of
                (Inl e, w2) \<Rightarrow> Some (Inl e, w2)
              | (Inr info, w2) \<Rightarrow>
                  (case save_to_csv info csv_name w2 of
                     (Inl e, w3) \<Rightarrow> Some (Inl e, w3)
                   | (Inr _, w3) \<Rightarrow> Some (Inr (), py_print saved_msg w3)))
           else Some (Inr (), py_print none_msg w1)))"

definition collector_main :: "server \<Rightarrow> world \<Rightarrow> unit res option" where
  "collector_main srv w =
     (case run_pipeline srv get_stargazers stargazer_login STARGAZERS_CSV
             (''Stargazer data saved to '' @ STARGAZERS_CSV) ''No stargazers found or failed to fetch data.'' w of
        None \<Rightarrow> None
      | Some (Inl e, w1) \<Rightarrow> Some (Inl e, w1)
      | Some (Inr _, w1) \<Rightarrow>
          run_pipeline srv get_forks forker_login FORKERS_CSV
            (''Forker data saved to '' @ FORKERS_CSV) ''No forkers found or failed to fetch data.'' w1)"

text \<open>Lines 134--135: the script's entry point.\<close>

definition collector_script :: "server \<Rightarrow> world \<Rightarrow> unit res option" where
  "collector_script srv w = collector_main srv w"

text \<open>A stub GitHub with one stargazer whose profile request fails.\<close>

definition ghost_server :: server where
  "ghost_server h rq =
     (if rq = github_request repo_url [] then Reply 200 (Some (JDict [(''stargazers_count'', JInt 1)]))
      else if rq = github_request (repo_url @ ''/stargazers'') (page_params 1)
        then Reply 200 (Some (JList [JDict [(''login'', JStr ''ghost'')]]))
      else if req_url rq = repo_url @ ''/stargazers'' then Reply 200 (Some (JList []))
      else Reply 404 None)"

text \<open>Specification-side vocabulary for \<open>main\<close>: an endpoint of a stateless API
  serving the given non-empty pages and then an empty page (or a failure status); and what
  one pipeline does to the files and the printed lines, given the identities it fetched and
  the records it collected.\<close>

definition serves_pages :: "(request \<Rightarrow> http_reply) \<Rightarrow> string \<Rightarrow> json list list \<Rightarrow> bool" where
  "serves_pages api ep ps \<longleftrightarrow>
     (\<forall>i < length ps. api (page_request ep (Suc i)) = Reply 200 (Some (JList (ps ! i))) \<and> ps ! i \<noteq> []) \<and>
     stop_reply (api (page_request ep (Suc (length ps))))"

definition pipeline_output ::
  "json list \<Rightarrow> py_dict list \<Rightarrow> string \<Rightarrow> string \<Rightarrow> string \<Rightarrow>
   (string \<times> string) list \<times> string list \<Rightarrow> (string \<times> string) list \<times> string list" where
  "pipeline_output users recs fn saved_msg none_msg fo =
     (if users = [] then (fst fo, snd fo @ [none_msg])
      else if recs = [] then (fst fo, snd fo @ [''No data to save.'', saved_msg])
      else (dict_set fn (csv_text CRLF (profile_columns # map (map (\<lambda>kv. csv_cell (snd kv))) recs)) (fst fo),
            snd fo @ [saved_msg]))"

text \<open>A stub GitHub with one stargazer, whose profile is found, and one fork, whose
  owner's profile is not.\<close>

definition demo_api :: "request \<Rightarrow> http_reply" where
  "demo_api rq =
     (if rq = github_request repo_url []
        then Reply 200 (Some (JDict [(''stargazers_count'', JInt 1), (''forks_count'', JInt 1)]))
      else if rq = page_request (repo_url @ ''/stargazers'') 1
        then Reply 200 (Some (JList [JDict [(''login'', JStr ''ann'')]]))
      else if rq = page_request (repo_url @ ''/forks'') 1
        then Reply 200 (Some (JList [JDict [(''owner'', JDict [(''login'', JStr ''bob'')])]]))
      else ann_api rq)"

declare ghost_server_def [api_simps]

subsection \<open>Properties\<close>

lemma get_user_info_frame:
  "get_user_info srv name w = (r, w') \<Longrightarrow> files w' = files w \<and> out w' = out w"
  unfolding get_user_info_def using get_github_data_frame(2,3) by blast

lemma collect_step_frame:
  "collect_step srv ex u acc w = (r, w') \<Longrightarrow> files w' = files w \<and> out w' = out w"
  by (auto simp: collect_step_def show_count_def dest!: get_user_info_frame split: sum.splits prod.splits if_splits)

lemma collect_loop_frame:
  "collect_loop srv ex us acc w = (r, w') \<Longrightarrow> files w' = files w \<and> out w' = out w"
proof (induction us arbitrary: acc w)
  case Nil
  then show ?case by simp
next
  case (Cons u us)
  obtain r1 w1 where s: "collect_step srv ex u acc w = (r1, w1)" by fastforce
  show ?case
  proof (cases r1)
    case (Inl e)
    with Cons.prems s collect_step_frame [OF s] show ?thesis by simp
  next
    case (Inr acc')
    with Cons.prems s have "collect_loop srv ex us acc' w1 = (r, w')" by simp
    with Cons.IH collect_step_frame [OF s] show ?thesis by simp
  qed
qed

lemma get_paginated_data_not_None:
  assumes "1 \<le> k" and "stop_reply (api (page_request ep k))"
  shows "get_paginated_data (\<lambda>_. api) ep desc cf w \<noteq> None"
proof (cases "start_pbar (\<lambda>_. api) desc cf w")
  case (Pair r w1)
  show ?thesis
  proof (cases r)
    case (Inr pb)
    have "paginate_loop (\<lambda>_. api) ep 1 [] pb w1 \<noteq> None"
      using assms by (rule paginate_loop_not_None)
    with Pair Inr show ?thesis
      by (auto simp: get_paginated_data_def split: option.split sum.split)
  qed (simp add: Pair get_paginated_data_def)
qed

lemma run_pipeline_not_None:
  "fetch srv w \<noteq> None \<Longrightarrow> run_pipeline srv fetch ex fn msg nmsg w \<noteq> None"
  by (auto simp: run_pipeline_def split: option.split sum.split prod.split)

text \<open>C19. Collector, termination: on a stateless API on which the stargazer pages and
  the fork pages each reach an empty page (or a failure status), \<open>main\<close> returns, with
  or without an exception.\<close>

theorem collector_main_returns:
  assumes "1 \<le> k1" and "stop_reply (api (page_request (repo_url @ ''/stargazers'') k1))"
    and "1 \<le> k2" and "stop_reply (api (page_request (repo_url @ ''/forks'') k2))"
  shows "\<exists>r. collector_main (\<lambda>_. api) w = Some r"
proof -
  have s: "\<And>w. get_stargazers (\<lambda>_. api) w \<noteq> None"
    unfolding get_stargazers_def using assms(1,2) by (rule get_paginated_data_not_None)
  have f: "\<And>w. get_forks (\<lambda>_. api) w \<noteq> None"
    unfolding get_forks_def using assms(3,4) by (rule get_paginated_data_not_None)
  show ?thesis
    using run_pipeline_not_None [of get_stargazers, OF s] run_pipeline_not_None [of get_forks, OF f]
    by (auto simp: collector_main_def split: option.split sum.split)
qed

lemma reply_profile_columns: "reply_profile r = Some d \<Longrightarrow> map fst d = profile_columns"
  by (cases r rule: reply_profile.cases) (auto simp: profile_of_def profile_columns_def split: if_splits)

lemma run_pipeline_output:
  assumes fetch: "fetch (\<lambda>_. api) w = Some (Inr users, w1)" and "files w1 = files w" and "out w1 = out w"
    and ok: "\<forall>u \<in> set users. ex u = Inr (login u) \<and> reply_ok (api (user_request (login u)))"
  shows "\<exists>w'. run_pipeline (\<lambda>_. api) fetch ex fn saved_msg none_msg w = Some (Inr (), w') \<and>
     (files w', out w') = pipeline_output users (List.map_filter (\<lambda>u. reply_profile (api (user_request (login u)))) users)
                            fn saved_msg none_msg (files w, out w)"
proof (cases "users = []")
  case True
  with fetch assms(2,3) show ?thesis by (simp add: run_pipeline_def pipeline_output_def py_print_def)
next
  case False
  let ?S = "List.map_filter (\<lambda>u. reply_profile (api (user_request (login u)))) users"
  obtain w2 where coll: "collect_user_info (\<lambda>_. api) users ex w1 = (Inr ?S, w2)"
    and f2: "files w2 = files w1" "out w2 = out w1"
    using collect_loop_refines [OF ok, of "[]" w1] by (simp add: collect_user_info_def)
  show ?thesis
  proof (cases ?S)
    case Nil
    with False fetch coll f2 assms(2,3) show ?thesis
      by (simp add: run_pipeline_def pipeline_output_def save_to_csv_def py_print_def)
  next
    case (Cons d0 ds)
    have cols: "\<forall>d \<in> set ?S. map fst d = profile_columns"
      by (auto simp: mem_map_filter dest: reply_profile_columns)
    with Cons have "\<forall>d \<in> set (d0 # ds). map fst d = map fst d0" and "distinct (map fst d0)"
      using profile_columns_distinct by (metis list.set_intros(1))+
    note save = save_to_csv_written [OF this, of fn w2]
    from False fetch coll f2 assms(2,3) Cons cols show ?thesis
      by (simp add: run_pipeline_def pipeline_output_def save py_print_def write_file_def)
  qed
qed

lemma fetch_pages:
  assumes "serves_pages api ep ps" and "cf \<noteq> []" and "count_reply_ok cf (api (github_request repo_url []))"
  shows "\<exists>w1. get_paginated_data (\<lambda>_. api) ep desc (Some cf) w = Some (Inr (concat ps), w1) \<and>
           files w1 = files w \<and> out w1 = out w"
  using get_paginated_data_result [of ps api ep cf desc w] assms by (simp add: serves_pages_def)

lemma collector_main_result:
  assumes "serves_pages api (repo_url @ ''/stargazers'') ps" and "serves_pages api (repo_url @ ''/forks'') qs"
    and "count_reply_ok ''stargazers_count'' (api (github_request repo_url []))"
    and "count_reply_ok ''forks_count'' (api (github_request repo_url []))"
    and "\<forall>u \<in> set (concat ps). stargazer_login u = Inr (ls u) \<and> reply_ok (api (user_request (ls u)))"
    and "\<forall>u \<in> set (concat qs). forker_login u = Inr (lf u) \<and> reply_ok (api (user_request (lf u)))"
  shows "\<exists>w'. collector_main (\<lambda>_. api) w = Some (Inr (), w') \<and>
     (files w', out w') =
       pipeline_output (concat qs) (List.map_filter (\<lambda>u. reply_profile (api (user_request (lf u)))) (concat qs))
         FORKERS_CSV (''Forker data saved to '' @ FORKERS_CSV) ''No forkers found or failed to fetch data.''
        (pipeline_output (concat ps) (List.map_filter (\<lambda>u. reply_profile (api (user_request (ls u)))) (concat ps))
          STARGAZERS_CSV (''Stargazer data saved to '' @ STARGAZERS_CSV) ''No stargazers found or failed to fetch data.''
          (files w, out w))"
proof -
  obtain w1 where "get_stargazers (\<lambda>_. api) w = Some (Inr (concat ps), w1)" "files w1 = files w" "out w1 = out w"
    using fetch_pages [OF assms(1) _ assms(3)] by (auto simp: get_stargazers_def)
  from run_pipeline_output [where api = api and login = ls and fetch = get_stargazers and ex = stargazer_login, OF this assms(5)] obtain w2
    where p1: "run_pipeline (\<lambda>_. api) get_stargazers stargazer_login STARGAZERS_CSV
                 (''Stargazer data saved to '' @ STARGAZERS_CSV) ''No stargazers found or failed to fetch data.'' w =
               Some (Inr (), w2)"
      and o1: "(files w2, out w2) =
               pipeline_output (concat ps) (List.map_filter (\<lambda>u. reply_profile (api (user_request (ls u)))) (concat ps))
                 STARGAZERS_CSV (''Stargazer data saved to '' @ STARGAZERS_CSV)
                 ''No stargazers found or failed to fetch data.'' (files w, out w)"
    by blast
  obtain w3 where "get_forks (\<lambda>_. api) w2 = Some (Inr (concat qs), w3)" "files w3 = files w2" "out w3 = out w2"
    using fetch_pages [OF assms(2) _ assms(4)] by (auto simp: get_forks_def)
  from run_pipeline_output [where api = api and login = lf and fetch = get_forks and ex = forker_login, OF this assms(6)] obtain w4
    where p2: "run_pipeline (\<lambda>_. api) get_forks forker_login FORKERS_CSV
                 (''Forker data saved to '' @ FORKERS_CSV) ''No forkers found or failed to fetch data.'' w2 =
               Some (Inr (), w4)"
      and o2: "(files w4, out w4) =
               pipeline_output (concat qs) (List.map_filter (\<lambda>u. reply_profile (api (user_request (lf u)))) (concat qs))
                 FORKERS_CSV (''Forker data saved to '' @ FORKERS_CSV)
                 ''No forkers found or failed to fetch data.'' (files w2, out w2)"
    by blast
  from p1 p2 o1 o2 show ?thesis by (simp add: collector_main_def)
qed

text \<open>C22. Collector, functional: on a stateless API on which both page sequences end,
  both counts can be read, and no identity or profile reply raises, \<open>main\<close> returns
  normally; the files and the printed lines are those of the stargazer pipeline followed by
  the forker pipeline: each prints "No ... found" when it fetched no identity, otherwise
  writes its CSV file of the profiles found (five columns) if there is any and prints its
  "data saved to" message in every case.\<close>

theorem collector_main_output:
  assumes "serves_pages api (repo_url @ ''/stargazers'') ps" and "serves_pages api (repo_url @ ''/forks'') qs"
    and "count_reply_ok ''stargazers_count'' (api (github_request repo_url []))"
    and "count_reply_ok ''forks_count'' (api (github_request repo_url []))"
    and "\<forall>u \<in> set (concat ps). stargazer_login u = Inr (ls u) \<and> reply_ok (api (user_request (ls u)))"
    and "\<forall>u \<in> set (concat qs). forker_login u = Inr (lf u) \<and> reply_ok (api (user_request (lf u)))"
  shows "\<exists>w'. collector_main (\<lambda>_. api) w = Some (Inr (), w') \<and>
     (files w', out w') =
       pipeline_output (concat qs) (List.map_filter (\<lambda>u. reply_profile (api (user_request (lf u)))) (concat qs))
         FORKERS_CSV (''Forker data saved to '' @ FORKERS_CSV) ''No forkers found or failed to fetch data.''
        (pipeline_output (concat ps) (List.map_filter (\<lambda>u. reply_profile (api (user_request (ls u)))) (concat ps))
          STARGAZERS_CSV (''Stargazer data saved to '' @ STARGAZERS_CSV) ''No stargazers found or failed to fetch data.''
          (files w, out w))"
  using collector_main_result [OF assms] .

text \<open>C15. Collector, misleading report: when identities were fetched but no profile
  could be collected, \<open>save_to_csv\<close> prints "No data to save." and writes nothing, and the
  pipeline then prints its "data saved to" message all the same.\<close>

theorem run_pipeline_nothing_saved:
  assumes "fetch srv w = Some (Inr users, w1)" and "users \<noteq> []"
    and "collect_user_info srv users ex w1 = (Inr [], w2)"
  shows "run_pipeline srv fetch ex fn msg nmsg w = Some (Inr (), w2\<lparr>out := out w2 @ [''No data to save.'', msg]\<rparr>)
         \<and> files w2 = files w1"
  using assms collect_loop_frame [of srv ex users "[]" w1 "Inr []" w2]
  by (simp add: run_pipeline_def save_to_csv_def py_print_def collect_user_info_def)

subsection \<open>Witnesses\<close>

lemma ghost_stargazers:
  "\<exists>w1. get_stargazers ghost_server empty_world = Some (Inr [JDict [(''login'', JStr ''ghost'')]], w1)
        \<and> files w1 = [] \<and> out w1 = []"
  by (simp add: get_stargazers_def get_paginated_data_def start_pbar_def get_github_data_def ghost_server_def
                paginate_loop.simps api_simps
                empty_world_def dict_get_def tqdm_new_def)

theorem run_pipeline_nothing_saved_witness:
  "\<exists>w2. run_pipeline ghost_server get_stargazers stargazer_login STARGAZERS_CSV
           (''Stargazer data saved to '' @ STARGAZERS_CSV) ''No stargazers found or failed to fetch data.''
           empty_world = Some (Inr (), w2) \<and>
        out w2 = [''No data to save.'', ''Stargazer data saved to '' @ STARGAZERS_CSV] \<and> files w2 = []"
proof -
  obtain w1 where g: "get_stargazers ghost_server empty_world = Some (Inr [JDict [(''login'', JStr ''ghost'')]], w1)"
    and f1: "files w1 = []" "out w1 = []"
    using ghost_stargazers by blast
  obtain w2 where c: "collect_user_info ghost_server [JDict [(''login'', JStr ''ghost'')]] stargazer_login w1 = (Inr [], w2)"
    by (simp add: collect_user_info_def collect_step_def stargazer_login_def get_user_info_def get_github_data_def
                  api_simps)
  have f2: "out w2 = []" "files w2 = []"
    using collect_loop_frame [of ghost_server stargazer_login "[JDict [(''login'', JStr ''ghost'')]]" "[]" w1 "Inr []" w2]
          c f1 by (simp_all add: collect_user_info_def)
  from run_pipeline_nothing_saved [where fetch = get_stargazers and srv = ghost_server and w = empty_world,
         OF g _ c] f2
  show ?thesis by auto
qed

theorem collector_main_returns_witness:
  "\<exists>r. collector_main (\<lambda>_ _. Reply 404 None) empty_world = Some r"
  using collector_main_returns [of 1 "\<lambda>_. Reply 404 None" 1 empty_world] by simp

theorem collector_main_output_witness:
  "\<exists>w'. collector_main (\<lambda>_. demo_api) empty_world = Some (Inr (), w') \<and>
     (files w', out w') =
       ([(STARGAZERS_CSV, csv_text CRLF [profile_columns, [''Ann'', ''https://github.com/ann'', [], [], []]])],
        [''Stargazer data saved to '' @ STARGAZERS_CSV, ''No data to save.'', ''Forker data saved to '' @ FORKERS_CSV])"
proof -
  have ann: "demo_api (user_request (JStr ''ann'')) =
      Reply 200 (Some (JDict [(''name'', JStr ''Ann''), (''html_url'', JStr ''https://github.com/ann'')]))"
    and bob: "demo_api (user_request (JStr ''bob'')) = Reply 404 None"
    by (simp_all add: demo_api_def api_simps)
  have "serves_pages demo_api (repo_url @ ''/stargazers'') [[JDict [(''login'', JStr ''ann'')]]]"
    and "serves_pages demo_api (repo_url @ ''/forks'') [[JDict [(''owner'', JDict [(''login'', JStr ''bob'')])]]]"
    and "count_reply_ok ''stargazers_count'' (demo_api (github_request repo_url []))"
    and "count_reply_ok ''forks_count'' (demo_api (github_request repo_url []))"
    and "\<forall>u \<in> set (concat [[JDict [(''login'', JStr ''ann'')]]]).
           stargazer_login u = Inr (JStr ''ann'') \<and> reply_ok (demo_api (user_request (JStr ''ann'')))"
    and "\<forall>u \<in> set (concat [[JDict [(''owner'', JDict [(''login'', JStr ''bob'')])]]]).
           forker_login u = Inr (JStr ''bob'') \<and> reply_ok (demo_api (user_request (JStr ''bob'')))"
    by (simp_all add: serves_pages_def demo_api_def api_simps stargazer_login_def forker_login_def py_simps)
  from collector_main_output [OF this, of empty_world] show ?thesis
    by (simp add: pipeline_output_def ann bob map_filter_simps empty_world_def profile_of_def
                  profile_fields_def py_simps csv_cell_def)
qed

end
