(* ===== verification/Effects.thy ===== *)
theory Effects
  imports Fetcher "HOL-Library.Sublist"
begin

text \<open>
  The effect of a run of either script on the world, stated so that it composes:
  \<open>world_effect names w w'\<close> holds when, from \<open>w\<close> to \<open>w'\<close>, the requests sent were
  only extended, each new one addressed to the GitHub API (\<open>https://api.github.com/\<close>)
  with the headers of \<open>github_headers\<close>; no file outside \<open>names\<close> was created,
  changed or removed; and the printed lines and the counts shown were only extended.
  The relation is reflexive and composes by transitivity, the names accumulating.
\<close>

definition github_api_root :: string where
  "github_api_root = ''https://api.github.com/''"

definition github_call :: "request \<Rightarrow> bool" where
  "github_call rq \<longleftrightarrow> prefix github_api_root (req_url rq) \<and> req_headers rq = github_headers"

definition world_effect :: "string list \<Rightarrow> world \<Rightarrow> world \<Rightarrow> bool" where
  "world_effect names w w' \<longleftrightarrow>
     prefix (sent w) (sent w') \<and> list_all github_call (drop (length (sent w)) (sent w')) \<and>
     (\<forall>f \<in> set (map fst (files w) @ map fst (files w')). f \<notin> set names \<longrightarrow> read_file f w' = read_file f w) \<and>
     prefix (out w) (out w') \<and> prefix (shown w) (shown w')"

subsection \<open>The effect relation\<close>

lemma world_effect_files:
  assumes "world_effect ns w w'" and "f \<notin> set ns"
  shows "read_file f w' = read_file f w"
proof (cases "f \<in> set (map fst (files w) @ map fst (files w'))")
  case True
  with assms show ?thesis by (simp add: world_effect_def)
next
  case False
  then have "map_of (files w) f = None" and "map_of (files w') f = None"
    by (simp_all add: map_of_eq_None_iff)
  then show ?thesis by (simp add: read_file_def)
qed

lemma world_effect_refl [intro]: "world_effect ns w w"
  by (simp add: world_effect_def)

lemma world_effect_trans:
  assumes "world_effect ns w1 w2" and "world_effect ns' w2 w3"
  shows "world_effect (ns @ ns') w1 w3"
proof -
  from assms obtain s2 s3 where s2: "sent w2 = sent w1 @ s2" and s3: "sent w3 = sent w2 @ s3"
    and c2: "list_all github_call s2" and c3: "list_all github_call s3"
    by (auto simp: world_effect_def prefix_def)
  have "read_file f w3 = read_file f w1" if "f \<notin> set (ns @ ns')" for f
    using that world_effect_files [OF assms(1)] world_effect_files [OF assms(2)] by simp
  with assms s2 s3 c2 c3 show ?thesis
    by (auto simp: world_effect_def intro: prefix_order.order_trans)
qed

lemma world_effect_mono:
  "world_effect ns w w' \<Longrightarrow> set ns \<subseteq> set ns' \<Longrightarrow> world_effect ns' w w'"
  by (auto simp: world_effect_def)

lemma world_effect_step:
  assumes "sent w' = sent w @ rs" and "list_all github_call rs" and "files w' = files w"
    and "prefix (out w) (out w')" and "prefix (shown w) (shown w')"
  shows "world_effect ns w w'"
  using assms by (simp add: world_effect_def read_file_def)

lemma py_print_effect: "world_effect ns w (py_print s w)"
  by (simp add: world_effect_def)

lemma github_call_request: "prefix github_api_root ep \<Longrightarrow> github_call (github_request ep ps)"
  by (simp add: github_call_def github_request_def)

lemma api_endpoints:
  "prefix github_api_root repo_url" "prefix github_api_root (repo_url @ s)" "prefix github_api_root (user_url u)"
  by (simp_all add: github_api_root_def repo_url_def user_url_def prefix_def)

lemma world_effect_trans_same:
  "world_effect ns w1 w2 \<Longrightarrow> world_effect ns w2 w3 \<Longrightarrow> world_effect ns w1 w3"
  by (rule world_effect_mono [OF world_effect_trans]) auto

lemma write_file_effect:
  assumes "fn \<in> set ns"
  shows "world_effect ns w (write_file fn t w)"
proof -
  have "read_file f (write_file fn t w) = read_file f w" if "f \<notin> set ns" for f
    using that assms by (metis write_file_other)
  then show ?thesis by (simp add: world_effect_def)
qed

end
