(* ===== verification/CollectorEffects.thy ===== *)
theory CollectorEffects
  imports Collector Effects
begin

text \<open>
  What the collector may do to the world, on any server: each operation of
  \<open>github_data_collector.py\<close> has an effect \<open>world_effect\<close> (theory \<open>Effects\<close>),
  whatever it returns, an exception included, and the effects compose along the code
  up to \<open>main\<close>.
\<close>

text \<open>A directory holding one unrelated file, and a GitHub that answers every request 404.\<close>

definition notes_world :: world where
  "notes_world = empty_world\<lparr>files := [(''notes.txt'', ''x'')]\<rparr>"

lemma show_count_effect: "world_effect ns w (show_count n w)"
  by (simp add: world_effect_def show_count_def read_file_def)

lemma github_call_pages:
  "prefix github_api_root ep \<Longrightarrow> list_all github_call (map (\<lambda>i. page_request ep (f i)) xs)"
  by (induction xs) (simp_all add: github_call_request)

subsection \<open>The effect of each operation\<close>

lemma get_github_data_effect:
  assumes "get_github_data srv ep ps w = (r, w')" and "prefix github_api_root ep"
  shows "world_effect ns w w'"
  using get_github_data_frame [OF assms(1)]
  by (intro world_effect_step [where rs = "[github_request ep ps]"]) (simp_all add: github_call_request assms(2))

lemma start_pbar_effect:
  assumes "start_pbar srv desc cf w = (r, w')"
  shows "world_effect ns w w'"
proof -
  obtain res w1 where get: "get_github_data srv repo_url [] w = (res, w1)" by fastforce
  have e: "world_effect ns w w1" by (rule get_github_data_effect [OF get api_endpoints(1)])
  from assms get have "w' = w \<or> w' = w1"
    by (auto simp: start_pbar_def split: option.splits if_splits sum.splits)
  with e show ?thesis by auto
qed

lemma paginate_loop_effect:
  assumes "paginate_loop srv ep p items pb w = Some (r, w')" and "prefix github_api_root ep"
  shows "world_effect ns w w'"
proof -
  from paginate_loop_trace [OF assms(1)] obtain n where
    "sent w' = sent w @ map (\<lambda>i. page_request ep (p + i)) [0..<Suc n]"
    "files w' = files w" "out w' = out w" "shown w' = shown w"
    by auto
  moreover have "list_all github_call (map (\<lambda>i. page_request ep (p + i)) [0..<Suc n])"
    using assms(2) by (rule github_call_pages)
  ultimately show ?thesis by (intro world_effect_step) (simp_all del: upt_Suc)
qed

lemma get_paginated_data_effect:
  assumes "get_paginated_data srv ep desc cf w = Some (r, w')" and "prefix github_api_root ep"
  shows "world_effect ns w w'"
proof -
  obtain res w1 where sp: "start_pbar srv desc cf w = (res, w1)" by fastforce
  have e1: "world_effect ns w w1" by (rule start_pbar_effect [OF sp])
  show ?thesis
  proof (cases res)
    case (Inl e)
    with assms(1) sp e1 show ?thesis by (simp add: get_paginated_data_def)
  next
    case (Inr pb)
    with assms(1) sp obtain r2 where loop: "paginate_loop srv ep 1 [] pb w1 = Some (r2, w')"
      by (auto simp: get_paginated_data_def split: option.splits sum.splits prod.splits)
    from e1 paginate_loop_effect [OF loop assms(2)] show ?thesis by (rule world_effect_trans_same)
  qed
qed

lemma collect_step_effect:
  assumes "collect_step srv ex u acc w = (r, w')"
  shows "world_effect ns w w'"
proof (cases "ex u")
  case (Inl e)
  with assms show ?thesis by (auto simp: collect_step_def)
next
  case (Inr name)
  obtain res w1 where get: "get_user_info srv name w = (res, w1)" by fastforce
  have e1: "world_effect ns w w1"
    using get_github_data_effect [OF get [unfolded get_user_info_def] api_endpoints(3)] .
  from assms Inr get have "w' = w1 \<or> (\<exists>n. w' = show_count n w1)"
    by (auto simp: collect_step_def split: sum.splits if_splits)
  with e1 show ?thesis by (auto intro: world_effect_trans_same show_count_effect)
qed

lemma collect_loop_effect:
  "collect_loop srv ex us acc w = (r, w') \<Longrightarrow> world_effect ns w w'"
proof (induction us arbitrary: acc w)
  case Nil
  then show ?case by auto
next
  case (Cons u us)
  obtain r1 w1 where s: "collect_step srv ex u acc w = (r1, w1)" by fastforce
  have e1: "world_effect ns w w1" by (rule collect_step_effect [OF s])
  show ?case
  proof (cases r1)
    case (Inl e)
    with Cons.prems s e1 show ?thesis by simp
  next
    case (Inr acc')
    with Cons.prems s have "collect_loop srv ex us acc' w1 = (r, w')" by simp
    from e1 Cons.IH [OF this] show ?thesis by (rule world_effect_trans_same)
  qed
qed

lemma save_to_csv_effect:
  assumes "save_to_csv data fn w = (r, w')" and "fn \<in> set ns"
  shows "world_effect ns w w'"
  using assms
  by (auto simp: save_to_csv_def Let_def py_print_effect write_file_effect split: list.splits option.splits)

lemma run_pipeline_effect:
  assumes "run_pipeline srv fetch ex fn smsg nmsg w = Some (r, w')"
    and "\<And>w r w'. fetch srv w = Some (r, w') \<Longrightarrow> world_effect ns w w'"
    and "fn \<in> set ns"
  shows "world_effect ns w w'"
proof -
  from assms(1) obtain res1 w1 where f: "fetch srv w = Some (res1, w1)"
    by (cases "fetch srv w") (auto simp: run_pipeline_def)
  have e1: "world_effect ns w w1" by (rule assms(2) [OF f])
  show ?thesis
  proof (cases res1)
    case (Inl e)
    with assms(1) f e1 show ?thesis by (simp add: run_pipeline_def)
  next
    case (Inr users)
    show ?thesis
    proof (cases "users = []")
      case True
      with assms(1) f Inr e1 show ?thesis
        by (auto simp: run_pipeline_def intro: world_effect_trans_same py_print_effect)
    next
      case False
      obtain res2 w2 where c: "collect_user_info srv users ex w1 = (res2, w2)" by fastforce
      have e2: "world_effect ns w w2"
        using e1 collect_loop_effect [OF c [unfolded collect_user_info_def]] by (rule world_effect_trans_same)
      show ?thesis
      proof (cases res2)
        case (Inl e)
        with assms(1) f Inr False c e2 show ?thesis by (simp add: run_pipeline_def)
      next
        case (Inr info)
        obtain res3 w3 where sv: "save_to_csv info fn w2 = (res3, w3)" by fastforce
        have e3: "world_effect ns w w3"
          using e2 save_to_csv_effect [OF sv assms(3)] by (rule world_effect_trans_same)
        from assms(1) f \<open>res1 = Inr users\<close> False c Inr sv have "w' = w3 \<or> w' = py_print smsg w3"
          by (auto simp: run_pipeline_def split: sum.splits)
        with e3 show ?thesis by (auto intro: world_effect_trans_same py_print_effect)
      qed
    qed
  qed
qed

lemma fetch_effects:
  "get_stargazers srv w = Some (r, w') \<Longrightarrow> world_effect ns w w'"
  "get_forks srv w = Some (r, w') \<Longrightarrow> world_effect ns w w'"
  by (auto simp: get_stargazers_def get_forks_def intro: get_paginated_data_effect api_endpoints(2))

lemma collector_main_world_effect:
  assumes "collector_main srv w = Some (r, w')"
  shows "world_effect [STARGAZERS_CSV, FORKERS_CSV] w w'"
proof -
  let ?ns = "[STARGAZERS_CSV, FORKERS_CSV]"
  from assms obtain res1 w1 where p1: "run_pipeline srv get_stargazers stargazer_login STARGAZERS_CSV
      (''Stargazer data saved to '' @ STARGAZERS_CSV) ''No stargazers found or failed to fetch data.'' w = Some (res1, w1)"
    by (auto simp: collector_main_def split: option.splits)
  have fs: "\<And>w r w'. get_stargazers srv w = Some (r, w') \<Longrightarrow> world_effect ?ns w w'"
    and ff: "\<And>w r w'. get_forks srv w = Some (r, w') \<Longrightarrow> world_effect ?ns w w'"
    by (rule fetch_effects(1), assumption) (rule fetch_effects(2), assumption)
  have m: "STARGAZERS_CSV \<in> set ?ns" "FORKERS_CSV \<in> set ?ns" by simp_all
  have e1: "world_effect ?ns w w1"
    by (rule run_pipeline_effect [OF p1 fs m(1)])
  show ?thesis
  proof (cases res1)
    case (Inl e)
    with assms p1 e1 show ?thesis by (simp add: collector_main_def)
  next
    case (Inr u)
    with assms p1 have p2: "run_pipeline srv get_forks forker_login FORKERS_CSV
      (''Forker data saved to '' @ FORKERS_CSV) ''No forkers found or failed to fetch data.'' w1 = Some (r, w')"
      by (simp add: collector_main_def)
    have "world_effect ?ns w1 w'"
      by (rule run_pipeline_effect [OF p2 ff m(2)])
    with e1 show ?thesis by (rule world_effect_trans_same)
  qed
qed

text \<open>C33. Collector, safety, on any server (one whose replies depend on the requests
  already sent, or that fails, included): however \<open>main\<close> ends, normally or by an exception,
  every request it sent went to \<open>https://api.github.com/\<close> with the token and the v3
  media type headers, the only files it may have created or changed are
  \<open>ai-town_stargazers.csv\<close> and \<open>ai-town_forkers.csv\<close>, and it only appended to the
  printed lines and to the counts shown.\<close>

theorem collector_main_effect:
  assumes "collector_main srv w = Some (r, w')"
  shows "world_effect [STARGAZERS_CSV, FORKERS_CSV] w w'"
  using assms by (rule collector_main_world_effect)

subsection \<open>Witness\<close>

lemma notes_world_main:
  "collector_main (\<lambda>_ _. Reply 404 None) notes_world =
     Some (Inr (), notes_world\<lparr>sent := [github_request repo_url [], page_request (repo_url @ ''/stargazers'') 1,
                                       github_request repo_url [], page_request (repo_url @ ''/forks'') 1],
                             out := [''No stargazers found or failed to fetch data.'',
                                     ''No forkers found or failed to fetch data.'']\<rparr>)"
  by (simp add: collector_main_def run_pipeline_def get_stargazers_def get_forks_def get_paginated_data_def
                start_pbar_def get_github_data_def paginate_loop.simps tqdm_new_def py_print_def notes_world_def
                empty_world_def)

theorem collector_main_effect_witness:
  "\<exists>r w'. collector_main (\<lambda>_ _. Reply 404 None) notes_world = Some (r, w') \<and>
     length (sent w') = 4 \<and> list_all github_call (sent w') \<and> read_file ''notes.txt'' w' = Some ''x''"
proof -
  let ?w' = "notes_world\<lparr>sent := [github_request repo_url [], page_request (repo_url @ ''/stargazers'') 1,
                                 github_request repo_url [], page_request (repo_url @ ''/forks'') 1],
                       out := [''No stargazers found or failed to fetch data.'',
                               ''No forkers found or failed to fetch data.'']\<rparr>"
  have e: "world_effect [STARGAZERS_CSV, FORKERS_CSV] notes_world ?w'"
    by (rule collector_main_effect [OF notes_world_main])
  have "read_file ''notes.txt'' ?w' = read_file ''notes.txt'' notes_world"
    using world_effect_files [OF e] by (simp add: STARGAZERS_CSV_def FORKERS_CSV_def)
  moreover from e have "list_all github_call (sent ?w')"
    by (simp add: world_effect_def notes_world_def empty_world_def)
  ultimately show ?thesis using notes_world_main
    by (intro exI [of _ "Inr ()"] exI [of _ ?w'] conjI) (simp_all add: notes_world_def empty_world_def read_file_def)
qed

end
