(* ===== verification/CollectorOrder.thy ===== *)
theory CollectorOrder
  imports CollectorEffects
begin

text \<open>
  The order of the collector's requests, on any server: \<open>main\<close> first sends the requests
  of the stargazer pipeline (the repository, the stargazer pages, the profiles of the
  stargazers) and only then those of the fork pipeline (the repository, the fork pages,
  the profiles of the forkers).  \<open>requests_within P w w'\<close> states that from \<open>w\<close> to
  \<open>w'\<close> the requests were only extended, each new one to a URL satisfying \<open>P\<close>.
\<close>

definition requests_within :: "(string \<Rightarrow> bool) \<Rightarrow> world \<Rightarrow> world \<Rightarrow> bool" where
  "requests_within P w w' \<longleftrightarrow>
     prefix (sent w) (sent w') \<and> list_all (\<lambda>rq. P (req_url rq)) (drop (length (sent w)) (sent w'))"

text \<open>The URLs one pipeline requests, given its endpoint.\<close>

definition pipeline_url :: "string \<Rightarrow> string \<Rightarrow> bool" where
  "pipeline_url ep u \<longleftrightarrow> u = repo_url \<or> u = ep \<or> prefix ''https://api.github.com/users/'' u"

subsection \<open>The relation\<close>

lemma requests_within_refl [intro]: "requests_within P w w"
  by (simp add: requests_within_def)

lemma requests_within_trans:
  assumes "requests_within P w1 w2" and "requests_within P w2 w3"
  shows "requests_within P w1 w3"
proof -
  from assms obtain s2 s3 where "sent w2 = sent w1 @ s2" "sent w3 = sent w2 @ s3"
    and "list_all (\<lambda>rq. P (req_url rq)) s2" "list_all (\<lambda>rq. P (req_url rq)) s3"
    by (auto simp: requests_within_def prefix_def)
  then show ?thesis by (simp add: requests_within_def)
qed

lemma requests_within_same: "sent w' = sent w \<Longrightarrow> requests_within P w w'"
  by (simp add: requests_within_def)

lemma requests_within_step:
  "sent w' = sent w @ rs \<Longrightarrow> list_all (\<lambda>rq. P (req_url rq)) rs \<Longrightarrow> requests_within P w w'"
  by (simp add: requests_within_def)

subsection \<open>The requests of each operation\<close>

lemma get_github_data_within:
  "get_github_data srv ep ps w = (r, w') \<Longrightarrow> P ep \<Longrightarrow> requests_within P w w'"
  by (drule get_github_data_frame(1)) (simp add: requests_within_def github_request_def)

lemma start_pbar_within:
  assumes "start_pbar srv desc cf w = (r, w')" and "P repo_url"
  shows "requests_within P w w'"
proof -
  obtain res w1 where get: "get_github_data srv repo_url [] w = (res, w1)" by fastforce
  from get_github_data_within [where P = P, OF get assms(2)] have e: "requests_within P w w1" .
  from assms(1) get have "w' = w \<or> w' = w1"
    by (auto simp: start_pbar_def split: option.splits if_splits sum.splits)
  with e show ?thesis by auto
qed

lemma paginate_loop_within:
  assumes "paginate_loop srv ep p items pb w = Some (r, w')" and "P ep"
  shows "requests_within P w w'"
proof -
  from paginate_loop_trace [OF assms(1)] obtain n where
    "sent w' = sent w @ map (\<lambda>i. page_request ep (p + i)) [0..<Suc n]" by auto
  moreover have "list_all (\<lambda>rq. P (req_url rq)) (map (\<lambda>i. page_request ep (p + i)) [0..<Suc n])"
    using assms(2) by (simp add: list_all_iff github_request_def)
  ultimately show ?thesis by (rule requests_within_step)
qed

lemma get_paginated_data_within:
  assumes "get_paginated_data srv ep desc cf w = Some (r, w')" and "P repo_url" and "P ep"
  shows "requests_within P w w'"
proof -
  obtain res w1 where sp: "start_pbar srv desc cf w = (res, w1)" by fastforce
  have e1: "requests_within P w w1" by (rule start_pbar_within [where P = P, OF sp assms(2)])
  show ?thesis
  proof (cases res)
    case (Inl e)
    with assms(1) sp e1 show ?thesis by (simp add: get_paginated_data_def)
  next
    case (Inr pb)
    with assms(1) sp obtain r2 where loop: "paginate_loop srv ep 1 [] pb w1 = Some (r2, w')"
      by (auto simp: get_paginated_data_def split: option.splits sum.splits prod.splits)
    from e1 paginate_loop_within [where P = P, OF loop assms(3)] show ?thesis by (rule requests_within_trans)
  qed
qed

lemma collect_step_within:
  assumes "collect_step srv ex u acc w = (r, w')" and "\<And>x. P (user_url x)"
  shows "requests_within P w w'"
proof (cases "ex u")
  case (Inl e)
  with assms(1) show ?thesis by (auto simp: collect_step_def)
next
  case (Inr name)
  obtain res w1 where get: "get_user_info srv name w = (res, w1)" by fastforce
  have e1: "requests_within P w w1"
    using get_github_data_within [where P = P, OF get [unfolded get_user_info_def] assms(2)] .
  from assms(1) Inr get have "w' = w1 \<or> (\<exists>n. w' = show_count n w1)"
    by (auto simp: collect_step_def split: sum.splits if_splits)
  with e1 show ?thesis by (auto simp: show_count_def requests_within_def)
qed

lemma collect_loop_within:
  "collect_loop srv ex us acc w = (r, w') \<Longrightarrow> (\<And>x. P (user_url x)) \<Longrightarrow> requests_within P w w'"
proof (induction us arbitrary: acc w)
  case Nil
  then show ?case by auto
next
  case (Cons u us)
  obtain r1 w1 where s: "collect_step srv ex u acc w = (r1, w1)" by fastforce
  have e1: "requests_within P w w1" by (rule collect_step_within [where P = P, OF s Cons.prems(2)])
  show ?case
  proof (cases r1)
    case (Inl e)
    with Cons.prems(1) s e1 show ?thesis by simp
  next
    case (Inr acc')
    with Cons.prems(1) s have "collect_loop srv ex us acc' w1 = (r, w')" by simp
    from e1 Cons.IH [OF this Cons.prems(2)] show ?thesis by (rule requests_within_trans)
  qed
qed

lemma save_to_csv_sent: "save_to_csv data fn w = (r, w') \<Longrightarrow> sent w' = sent w"
  by (auto simp: save_to_csv_def Let_def write_file_def py_print_def split: list.splits option.splits)

lemma run_pipeline_within:
  assumes "run_pipeline srv fetch ex fn smsg nmsg w = Some (r, w')"
    and "\<And>w r w'. fetch srv w = Some (r, w') \<Longrightarrow> requests_within P w w'"
    and "\<And>x. P (user_url x)"
  shows "requests_within P w w'"
proof -
  from assms(1) obtain res1 w1 where f: "fetch srv w = Some (res1, w1)"
    by (cases "fetch srv w") (auto simp: run_pipeline_def)
  have e1: "requests_within P w w1" by (rule assms(2) [OF f])
  show ?thesis
  proof (cases res1)
    case (Inl e)
    with assms(1) f e1 show ?thesis by (simp add: run_pipeline_def)
  next
    case (Inr users)
    show ?thesis
    proof (cases "users = []")
      case True
      with assms(1) f Inr e1 show ?thesis
        by (auto simp: run_pipeline_def py_print_def requests_within_def)
    next
      case False
      obtain res2 w2 where c: "collect_user_info srv users ex w1 = (res2, w2)" by fastforce
      have e2: "requests_within P w w2"
        using e1 collect_loop_within [where P = P, OF c [unfolded collect_user_info_def] assms(3)] by (rule requests_within_trans)
      show ?thesis
      proof (cases res2)
        case (Inl e)
        with assms(1) f Inr False c e2 show ?thesis by (simp add: run_pipeline_def)
      next
        case (Inr info)
        obtain res3 w3 where sv: "save_to_csv info fn w2 = (res3, w3)" by fastforce
        have e3: "requests_within P w w3"
          using e2 requests_within_same [OF save_to_csv_sent [OF sv]] by (rule requests_within_trans)
        from assms(1) f \<open>res1 = Inr users\<close> False c Inr sv have "w' = w3 \<or> w' = py_print smsg w3"
          by (auto simp: run_pipeline_def split: sum.splits)
        with e3 show ?thesis by (auto simp: py_print_def requests_within_def)
      qed
    qed
  qed
qed

lemma pipeline_user_url: "pipeline_url ep (user_url x)"
  by (simp add: pipeline_url_def user_url_def prefix_def)

lemma pipeline_fetch_within:
  "get_stargazers srv w = Some (r, w') \<Longrightarrow> requests_within (pipeline_url (repo_url @ ''/stargazers'')) w w'"
  "get_forks srv w = Some (r, w') \<Longrightarrow> requests_within (pipeline_url (repo_url @ ''/forks'')) w w'"
  by (auto simp: get_stargazers_def get_forks_def pipeline_url_def intro: get_paginated_data_within)

lemma requests_within_split:
  "requests_within P w w' \<Longrightarrow> \<exists>s. sent w' = sent w @ s \<and> list_all (\<lambda>rq. P (req_url rq)) s"
  by (auto simp: requests_within_def prefix_def)

lemma collector_main_requests:
  assumes "collector_main srv w = Some (r, w')"
  shows "\<exists>s1 s2. sent w' = sent w @ s1 @ s2 \<and>
           list_all (\<lambda>rq. pipeline_url (repo_url @ ''/stargazers'') (req_url rq)) s1 \<and>
           list_all (\<lambda>rq. pipeline_url (repo_url @ ''/forks'') (req_url rq)) s2"
proof -
  from assms obtain res1 w1 where p1: "run_pipeline srv get_stargazers stargazer_login STARGAZERS_CSV
      (''Stargazer data saved to '' @ STARGAZERS_CSV) ''No stargazers found or failed to fetch data.'' w = Some (res1, w1)"
    by (auto simp: collector_main_def split: option.splits)
  have "requests_within (pipeline_url (repo_url @ ''/stargazers'')) w w1"
    using p1 pipeline_fetch_within(1) pipeline_user_url by (rule run_pipeline_within)
  then obtain s1 where s1: "sent w1 = sent w @ s1"
    and a1: "list_all (\<lambda>rq. pipeline_url (repo_url @ ''/stargazers'') (req_url rq)) s1"
    by (blast dest: requests_within_split)
  show ?thesis
  proof (cases res1)
    case (Inl e)
    with assms p1 s1 a1 show ?thesis by (intro exI [of _ s1] exI [of _ "[]"]) (simp add: collector_main_def)
  next
    case (Inr u)
    with assms p1 have p2: "run_pipeline srv get_forks forker_login FORKERS_CSV
      (''Forker data saved to '' @ FORKERS_CSV) ''No forkers found or failed to fetch data.'' w1 = Some (r, w')"
      by (simp add: collector_main_def)
    have "requests_within (pipeline_url (repo_url @ ''/forks'')) w1 w'"
      using p2 pipeline_fetch_within(2) pipeline_user_url by (rule run_pipeline_within)
    then obtain s2 where "sent w' = sent w1 @ s2"
      and "list_all (\<lambda>rq. pipeline_url (repo_url @ ''/forks'') (req_url rq)) s2"
      by (blast dest: requests_within_split)
    with s1 a1 show ?thesis by auto
  qed
qed

text \<open>C36. Collector, ordering, on any server: however \<open>main\<close> ends, the requests it sent
  are those of the stargazer pipeline (the repository, the \<open>/stargazers\<close> pages, user
  profiles) followed by those of the fork pipeline (the repository, the \<open>/forks\<close> pages,
  user profiles): no fork page is requested before the stargazer pipeline is over, and no
  stargazer page after it.\<close>

theorem collector_main_order:
  assumes "collector_main srv w = Some (r, w')"
  shows "\<exists>s1 s2. sent w' = sent w @ s1 @ s2 \<and>
           list_all (\<lambda>rq. pipeline_url (repo_url @ ''/stargazers'') (req_url rq)) s1 \<and>
           list_all (\<lambda>rq. pipeline_url (repo_url @ ''/forks'') (req_url rq)) s2"
  using assms by (rule collector_main_requests)

theorem collector_main_order_witness:
  "\<exists>r w' s1 s2. collector_main (\<lambda>_ _. Reply 404 None) notes_world = Some (r, w') \<and>
     sent w' = s1 @ s2 \<and> list_all (\<lambda>rq. pipeline_url (repo_url @ ''/stargazers'') (req_url rq)) s1 \<and>
     list_all (\<lambda>rq. pipeline_url (repo_url @ ''/forks'') (req_url rq)) s2 \<and>
     \<not> pipeline_url (repo_url @ ''/stargazers'') (repo_url @ ''/forks'')"
proof -
  obtain w' where m: "collector_main (\<lambda>_ _. Reply 404 None) notes_world = Some (Inr (), w')"
    and "sent notes_world = []"
    using notes_world_main by (simp add: notes_world_def empty_world_def)
  moreover from collector_main_order [OF m] obtain s1 s2 where "sent w' = sent notes_world @ s1 @ s2"
    and "list_all (\<lambda>rq. pipeline_url (repo_url @ ''/stargazers'') (req_url rq)) s1"
    and "list_all (\<lambda>rq. pipeline_url (repo_url @ ''/forks'') (req_url rq)) s2" by blast
  moreover have "\<not> pipeline_url (repo_url @ ''/stargazers'') (repo_url @ ''/forks'')"
    by (simp add: pipeline_url_def repo_url_def REPO_OWNER_def REPO_NAME_def prefix_def)
  ultimately show ?thesis by auto
qed

end
