(* ===== verification/CollectorErrors.thy ===== *)
theory CollectorErrors
  imports Collector
begin

text \<open>
  The exceptions \<open>main\<close> can end with, on any server: those \<open>requests\<close> raises
  (a failed connection, a body that is not JSON), TypeError (a page or a count of the wrong
  type, an identity that is not a dict), AttributeError (\<open>.get\<close> on a truthy non-dict),
  ValueError (\<open>csv.DictWriter\<close> on a record with an extra key), and the KeyError of the
  two extractors (\<open>login\<close>, \<open>owner\<close>).  Nothing else: no other key is looked up with
  \<open>[]\<close>, and no file is read.
\<close>

fun collector_error :: "py_error \<Rightarrow> bool" where
  "collector_error ConnectionError = True"
| "collector_error JSONDecodeError = True"
| "collector_error TypeError = True"
| "collector_error AttributeError = True"
| "collector_error ValueError = True"
| "collector_error (KeyError k) = (k = ''login'' \<or> k = ''owner'')"
| "collector_error _ = False"

subsection \<open>The exceptions of each operation\<close>

lemma get_github_data_error:
  "get_github_data srv ep ps w = (Inl e, w') \<Longrightarrow> e = ConnectionError \<or> e = JSONDecodeError"
  by (auto simp: get_github_data_def Let_def split: http_reply.splits if_splits option.splits)

lemma start_pbar_error:
  "start_pbar srv desc cf w = (Inl e, w') \<Longrightarrow> collector_error e"
  by (auto simp: start_pbar_def split: option.splits if_splits sum.splits prod.splits
           dest!: get_github_data_error elim!: py_get.elims)

lemma pbar_bool_error: "pbar_bool pb = Inl e \<Longrightarrow> e = TypeError"
  by (cases pb rule: pbar_bool.cases) (auto split: json.splits)

lemma py_iter_error: "py_iter d = Inl e \<Longrightarrow> e = TypeError"
  by (cases d) auto

lemma paginate_loop_error:
  assumes "paginate_loop srv ep p items pb w = Some r"
  shows "\<forall>e. fst r = Inl e \<longrightarrow> collector_error e"
  using assms
proof (induction srv ep p items pb w r rule: paginate_loop.raw_induct [rotated, consumes 1])
  case (1 loop srv ep p items pb w r)
  obtain res1 w1 where get: "get_github_data srv ep (page_params p) w = (res1, w1)" by fastforce
  show ?case
  proof (cases res1)
    case (Inl e)
    with "1"(2) get get_github_data_error [of srv ep "page_params p" w e w1] show ?thesis by auto
  next
    case (Inr data)
    with "1"(1) "1"(2) get show ?thesis
      by (auto split: if_splits sum.splits dest: py_iter_error pbar_bool_error)
  qed
qed

lemma get_paginated_data_error:
  assumes "get_paginated_data srv ep desc cf w = Some (Inl e, w')"
  shows "collector_error e"
proof -
  obtain res w1 where sp: "start_pbar srv desc cf w = (res, w1)" by fastforce
  show ?thesis
  proof (cases res)
    case (Inl e')
    with assms sp start_pbar_error [of srv desc cf w e' w1] show ?thesis
      by (simp add: get_paginated_data_def)
  next
    case (Inr pb)
    with assms sp obtain r2 where loop: "paginate_loop srv ep 1 [] pb w1 = Some r2"
      and "fst r2 = Inl e \<or> (\<exists>items pb' w2. r2 = (Inr (items, pb'), w2) \<and> pbar_bool pb' = Inl e)"
      by (auto simp: get_paginated_data_def split: option.splits sum.splits prod.splits)
    with paginate_loop_error [OF loop] show ?thesis by (auto dest: pbar_bool_error)
  qed
qed

lemma extractor_errors:
  "stargazer_login u = Inl e \<Longrightarrow> collector_error e"
  "forker_login u = Inl e \<Longrightarrow> collector_error e"
  by (auto simp: stargazer_login_def forker_login_def split: sum.splits option.splits elim!: py_getitem.elims)

lemma collect_step_error:
  assumes "collect_step srv ex u acc w = (Inl e, w')" and "\<And>e. ex u = Inl e \<Longrightarrow> collector_error e"
  shows "collector_error e"
  using assms
  by (auto simp: collect_step_def get_user_info_def split: sum.splits prod.splits if_splits
           dest: get_github_data_error elim!: profile_record.elims)

lemma collect_loop_error:
  "collect_loop srv ex us acc w = (Inl e, w') \<Longrightarrow> (\<And>u e. ex u = Inl e \<Longrightarrow> collector_error e) \<Longrightarrow>
   collector_error e"
proof (induction us arbitrary: acc w)
  case (Cons u us)
  obtain r1 w1 where s: "collect_step srv ex u acc w = (r1, w1)" by fastforce
  show ?case
  proof (cases r1)
    case (Inl e')
    with Cons.prems s collect_step_error [of srv ex u acc w e' w1] show ?thesis by simp
  next
    case (Inr acc')
    with Cons.prems s show ?thesis by (intro Cons.IH [of acc' w1]) simp_all
  qed
qed simp

lemma dict_rows_error: "snd (dict_rows keys ds) = Some e \<Longrightarrow> e = ValueError"
  by (induction ds) (auto simp: dict_to_list_def split: sum.splits if_splits prod.splits)

lemma save_to_csv_error: "save_to_csv data fn w = (Inl e, w') \<Longrightarrow> e = ValueError"
  by (auto simp: save_to_csv_def Let_def simp del: dict_rows.simps split: list.splits option.splits dest: dict_rows_error)

lemma run_pipeline_error:
  assumes "run_pipeline srv fetch ex fn smsg nmsg w = Some (Inl e, w')"
    and "\<And>w e w'. fetch srv w = Some (Inl e, w') \<Longrightarrow> collector_error e"
    and "\<And>u e. ex u = Inl e \<Longrightarrow> collector_error e"
  shows "collector_error e"
proof -
  from assms(1) obtain res1 w1 where f: "fetch srv w = Some (res1, w1)"
    by (cases "fetch srv w") (auto simp: run_pipeline_def)
  show ?thesis
  proof (cases res1)
    case (Inl e')
    with assms(1,2) f show ?thesis by (auto simp: run_pipeline_def)
  next
    case (Inr users)
    obtain res2 w2 where c: "collect_user_info srv users ex w1 = (res2, w2)" by fastforce
    obtain res3 w3 where "save_to_csv (case res2 of Inr info \<Rightarrow> info | Inl _ \<Rightarrow> []) fn w2 = (res3, w3)"
      by fastforce
    from assms(1) f Inr c show ?thesis
      by (auto simp: run_pipeline_def collect_user_info_def split: if_splits sum.splits prod.splits
               dest: collect_loop_error [OF _ assms(3)] save_to_csv_error)
  qed
qed

lemma fetch_errors:
  "get_stargazers srv w = Some (Inl e, w') \<Longrightarrow> collector_error e"
  "get_forks srv w = Some (Inl e, w') \<Longrightarrow> collector_error e"
  by (auto simp: get_stargazers_def get_forks_def dest: get_paginated_data_error)

lemma collector_main_error:
  assumes "collector_main srv w = Some (Inl e, w')"
  shows "collector_error e"
proof -
  from assms obtain res1 w1 where p1: "run_pipeline srv get_stargazers stargazer_login STARGAZERS_CSV
      (''Stargazer data saved to '' @ STARGAZERS_CSV) ''No stargazers found or failed to fetch data.'' w = Some (res1, w1)"
    by (auto simp: collector_main_def split: option.splits)
  show ?thesis
  proof (cases res1)
    case (Inl e')
    with assms p1 have "e' = e" by (simp add: collector_main_def)
    with Inl p1 show ?thesis using fetch_errors(1) extractor_errors(1) by (blast intro: run_pipeline_error)
  next
    case (Inr u)
    with assms p1 have "run_pipeline srv get_forks forker_login FORKERS_CSV
      (''Forker data saved to '' @ FORKERS_CSV) ''No forkers found or failed to fetch data.'' w1 = Some (Inl e, w')"
      by (simp add: collector_main_def)
    then show ?thesis using fetch_errors(2) extractor_errors(2) by (blast intro: run_pipeline_error)
  qed
qed

text \<open>C38. Collector, error behaviour, on any server: when \<open>main\<close> ends with an exception,
  it is a ConnectionError or JSONDecodeError from \<open>requests\<close>, a TypeError, an
  AttributeError, the ValueError of \<open>csv.DictWriter\<close>, or the KeyError of the extractors
  for \<open>login\<close> or \<open>owner\<close>; no other exception can escape it.\<close>

theorem collector_main_errors:
  assumes "collector_main srv w = Some (Inl e, w')"
  shows "collector_error e"
  using assms by (rule collector_main_error)

lemma offline_main:
  "collector_main (\<lambda>_ _. NetworkError) empty_world =
     Some (Inl ConnectionError, empty_world\<lparr>sent := [github_request repo_url []]\<rparr>)"
  by (simp add: collector_main_def run_pipeline_def get_stargazers_def get_paginated_data_def start_pbar_def
                get_github_data_def empty_world_def)

theorem collector_main_errors_witness:
  "collector_main (\<lambda>_ _. NetworkError) empty_world =
     Some (Inl ConnectionError, empty_world\<lparr>sent := [github_request repo_url []]\<rparr>) \<and> collector_error ConnectionError"
  using collector_main_errors [OF offline_main] offline_main by simp

end
