(* ===== verification/Merger.thy ===== *)
theory Merger
  imports World CsvFormat
begin

text \<open>
  The Merger, \<open>combine_csv_files\<close> of \<open>src/scrapper/scrapper/merge_csv.py\<close>
  (lines 6--32).  Files matching the pattern are read with \<open>pd.read_csv\<close>; each
  row is keyed by its \<open>github_profile_link\<close> in an insertion-ordered dict: a new
  key stores the row with \<open>source_files\<close> set to the one-element list of the
  file, a known key only appends the file to that list.  The dict becomes a
  DataFrame (\<open>from_dict\<close>, orient index), \<open>source_files\<close> is joined with
  \<open>", "\<close>, and the frame is written with \<open>to_csv\<close> (no index column, LF line
  ends, NaN as the empty string).
\<close>

section \<open>Values read by pandas\<close>

text \<open>A cell of a frame read from CSV: text, or NaN for an empty field and for
  the strings pandas reads as missing by default.\<close>

datatype cell = CStr string | CNaN

text \<open>A value of a row dict in \<open>combined_data\<close>: a cell, or the Python list
  stored under \<open>source_files\<close>.\<close>

datatype rowval = VCell cell | VFiles "string list"

type_synonym frame_row = "(string \<times> cell) list"
type_synonym entry = "(string \<times> rowval) list"
type_synonym combined = "(cell \<times> entry) list"

definition na_strings :: "string list" where
  "na_strings =
     [[], ''#N/A'', ''#N/A N/A'', ''#NA'', ''-1.#IND'', ''-1.#QNAN'', ''-NaN'', ''-nan'',
      ''1.#IND'', ''1.#QNAN'', ''<NA>'', ''N/A'', ''NA'', ''NULL'', ''NaN'', ''None'',
      ''n/a'', ''nan'', ''null'']"

definition to_cell :: "string \<Rightarrow> cell" where
  "to_cell s = (if s \<in> set na_strings then CNaN else CStr s)"

section \<open>glob\<close>

text \<open>\<open>fnmatch\<close> with \<open>*\<close> and \<open>?\<close>; \<open>glob\<close> lists the matching names of the
  directory in directory order, skipping names that start with a dot unless the
  pattern does.\<close>

fun fnmatch :: "string \<Rightarrow> string \<Rightarrow> bool" where
  "fnmatch [] s = (s = [])"
| "fnmatch (c # p) s =
     (if c = CHR ''*'' then fnmatch p s \<or> (case s of [] \<Rightarrow> False | x # s' \<Rightarrow> fnmatch (c # p) s')
      else (case s of [] \<Rightarrow> False | x # s' \<Rightarrow> (c = CHR ''?'' \<or> c = x) \<and> fnmatch p s'))"

definition glob_files :: "string \<Rightarrow> world \<Rightarrow> string list" where
  "glob_files pattern w =
     filter (\<lambda>n. fnmatch pattern n \<and> (take 1 n = ''.'' \<longrightarrow> take 1 pattern = ''.'')) (map fst (files w))"

section \<open>pd.read_csv and iterrows\<close>

text \<open>Blank lines are skipped; the first row is the header; a row with more fields
  than the header is a ParserError, a shorter one is padded with NaN; a file
  without any line raises EmptyDataError.\<close>

definition read_csv :: "string \<Rightarrow> py_error + (string list \<times> cell list list)" where
  "read_csv text =
     (case filter (\<lambda>r. r \<noteq> []) (csv_parse text) of
        [] \<Rightarrow> Inl EmptyDataError
      | header # rows \<Rightarrow>
          (if list_ex (\<lambda>r. length header < length r) rows then Inl ParserError
           else Inr (header, map (\<lambda>r. map to_cell r @ replicate (length header - length r) CNaN) rows)))"

definition frame_rows :: "string list \<times> cell list list \<Rightarrow> frame_row list" where
  "frame_rows frame = map (zip (fst frame)) (snd frame)"

definition read_frame :: "world \<Rightarrow> string \<Rightarrow> py_error + frame_row list" where
  "read_frame w file =
     (case read_file file w of
        None \<Rightarrow> Inl FileNotFoundError
      | Some text \<Rightarrow> (case read_csv text of Inl e \<Rightarrow> Inl e | Inr frame \<Rightarrow> Inr (frame_rows frame)))"

section \<open>The merge loop\<close>

text \<open>\<open>combined_data[link]["source_files"].append(file)\<close>.\<close>

definition add_source :: "string \<Rightarrow> entry \<Rightarrow> py_error + entry" where
  "add_source file e =
     (case map_of e ''source_files'' of
        Some (VFiles fs) \<Rightarrow> Inr (dict_set ''source_files'' (VFiles (fs @ [file])) e)
      | Some (VCell _) \<Rightarrow> Inl AttributeError
      | None \<Rightarrow> Inl (KeyError ''source_files''))"

definition new_entry :: "string \<Rightarrow> frame_row \<Rightarrow> entry" where
  "new_entry file row = dict_set ''source_files'' (VFiles [file]) (map (\<lambda>kv. (fst kv, VCell (snd kv))) row)"

text \<open>Lines 15--22, one row.\<close>

definition merge_row :: "string \<Rightarrow> frame_row \<Rightarrow> combined \<Rightarrow> py_error + combined" where
  "merge_row file row cd =
     (case map_of row ''github_profile_link'' of
        None \<Rightarrow> Inl (KeyError ''github_profile_link'')
      | Some link \<Rightarrow>
          (case map_of cd link of
             None \<Rightarrow> Inr (dict_set link (new_entry file row) cd)
           | Some e \<Rightarrow> (case add_source file e of Inl err \<Rightarrow> Inl err | Inr e' \<Rightarrow> Inr (dict_set link e' cd))))"

fun merge_rows :: "string \<Rightarrow> frame_row list \<Rightarrow> combined \<Rightarrow> py_error + combined" where
  "merge_rows file [] cd = Inr cd"
| "merge_rows file (row # rows) cd =
     (case merge_row file row cd of Inl e \<Rightarrow> Inl e | Inr cd' \<Rightarrow> merge_rows file rows cd')"

text \<open>Lines 12--22: the files in the order \<open>glob\<close> gives them.\<close>

fun merge_files :: "world \<Rightarrow> string list \<Rightarrow> combined \<Rightarrow> py_error + combined" where
  "merge_files w [] cd = Inr cd"
| "merge_files w (file # fs) cd =
     (case read_frame w file of
        Inl e \<Rightarrow> Inl e
      | Inr rows \<Rightarrow> (case merge_rows file rows cd of Inl e \<Rightarrow> Inl e | Inr cd' \<Rightarrow> merge_files w fs cd'))"

section \<open>DataFrame.from_dict, the join of source_files, to_csv\<close>

text \<open>The columns of \<open>from_dict(orient="index")\<close> are the keys of the row dicts in
  order of first appearance.  The rows are indexed as pandas indexes a dict of dicts
  (\<open>_from_nested_dict\<close>, then the union of the columns' row keys without sorting): for
  each column in order, the links of the rows holding it that are not yet in the index.  A
  row lacking a column holds NaN there.  \<open>add_columns\<close> is that union.\<close>

fun add_columns :: "'a list \<Rightarrow> 'a list \<Rightarrow> 'a list" where
  "add_columns cols [] = cols"
| "add_columns cols (k # ks) = add_columns (if k \<in> set cols then cols else cols @ [k]) ks"

definition from_dict :: "combined \<Rightarrow> string list \<times> rowval list list" where
  "from_dict cd =
     (let cols = fold (\<lambda>e cols. add_columns cols (map fst e)) (map snd cd) [];
          idx = fold (\<lambda>c idx. add_columns idx (map fst (filter (\<lambda>p. c \<in> set (map fst (snd p))) cd))) cols []
      in (cols, map (\<lambda>k. let e = (case map_of cd k of None \<Rightarrow> [] | Some e \<Rightarrow> e)
                         in map (\<lambda>c. case map_of e c of None \<Rightarrow> VCell CNaN | Some v \<Rightarrow> v) cols) idx))"

text \<open>\<open>", ".join(x)\<close> on the column: a list joins its strings; a string joins its
  characters; NaN (a float) is not iterable.\<close>

fun join_value :: "rowval \<Rightarrow> py_error + rowval" where
  "join_value (VFiles fs) = Inr (VCell (CStr (py_join '', '' fs)))"
| "join_value (VCell (CStr s)) = Inr (VCell (CStr (py_join '', '' (map (\<lambda>c. [c]) s))))"
| "join_value (VCell CNaN) = Inl TypeError"

fun map_sum_list :: "('a \<Rightarrow> py_error + 'b) \<Rightarrow> 'a list \<Rightarrow> py_error + 'b list" where
  "map_sum_list f [] = Inr []"
| "map_sum_list f (x # xs) =
     (case f x of Inl e \<Rightarrow> Inl e | Inr y \<Rightarrow> (case map_sum_list f xs of Inl e \<Rightarrow> Inl e | Inr ys \<Rightarrow> Inr (y # ys)))"

definition join_sources :: "string list \<times> rowval list list \<Rightarrow> py_error + string list \<times> rowval list list" where
  "join_sources df =
     (if ''source_files'' \<notin> set (fst df) then Inl (KeyError ''source_files'')
      else (case map_sum_list
                   (\<lambda>r. map_sum_list (\<lambda>cv. if fst cv = ''source_files'' then join_value (snd cv) else Inr (snd cv))
                          (zip (fst df) r))
                   (snd df) of
              Inl e \<Rightarrow> Inl e
            | Inr rows \<Rightarrow> Inr (fst df, rows)))"

fun df_text :: "rowval \<Rightarrow> string" where
  "df_text (VCell (CStr s)) = s"
| "df_text (VCell CNaN) = []"
| "df_text (VFiles fs) = py_repr (JList (map JStr fs))"

definition to_csv :: "string list \<times> rowval list list \<Rightarrow> string" where
  "to_csv df = csv_text LF (fst df # map (map df_text) (snd df))"

definition combine_csv_files :: "string \<Rightarrow> string \<Rightarrow> world \<Rightarrow> unit res" where
  "combine_csv_files file_pattern output_file w =
     (case merge_files w (glob_files file_pattern w) [] of
        Inl e \<Rightarrow> (Inl e, w)
      | Inr cd \<Rightarrow>
          (case join_sources (from_dict cd) of
             Inl e \<Rightarrow> (Inl e, w)
           | Inr df \<Rightarrow>
               (Inr (), py_print (''Combined data saved to '' @ output_file)
                          (write_file output_file (to_csv df) w))))"

text \<open>Lines 35--38: the script's entry point, with its two constants.\<close>

definition merge_script :: "world \<Rightarrow> unit res" where
  "merge_script w =
     (let file_pattern = ''*.csv''; output_file = ''combined_data.csv''
      in combine_csv_files file_pattern output_file w)"


section \<open>The abstract merge\<close>

text \<open>
  What the merge loop computes, stated without the dict: for the sequence of
  (file, row) pairs read, one entry per distinct link in order of first
  appearance, holding the cells of the first row with that link and, under
  \<open>source_files\<close>, the files of all rows with that link in reading order.
\<close>

definition row_link :: "frame_row \<Rightarrow> cell" where
  "row_link row = (case map_of row ''github_profile_link'' of Some l \<Rightarrow> l | None \<Rightarrow> CNaN)"

definition has_link :: "frame_row \<Rightarrow> bool" where
  "has_link row \<longleftrightarrow> map_of row ''github_profile_link'' \<noteq> None"

definition cells_of :: "frame_row \<Rightarrow> entry" where
  "cells_of row = map (\<lambda>kv. (fst kv, VCell (snd kv))) row"

definition group_entry :: "(string \<times> frame_row) list \<Rightarrow> cell \<Rightarrow> entry" where
  "group_entry ps k =
     (let grp = filter (\<lambda>p. row_link (snd p) = k) ps
      in dict_set ''source_files'' (VFiles (map fst grp)) (cells_of (snd (hd grp))))"

definition first_seen :: "'a list \<Rightarrow> 'a list" where
  "first_seen xs = rev (remdups (rev xs))"

definition merge_spec :: "(string \<times> frame_row) list \<Rightarrow> combined" where
  "merge_spec ps = map (\<lambda>k. (k, group_entry ps k)) (first_seen (map (\<lambda>p. row_link (snd p)) ps))"

definition sources_of :: "(string \<times> frame_row) list \<Rightarrow> cell \<Rightarrow> string list" where
  "sources_of ps k = map fst (filter (\<lambda>p. row_link (snd p) = k) ps)"

text \<open>The frame the merged dict becomes, on rows under one header: its columns, and
  for each link the row of the first-seen values with the joined source files.\<close>

definition merged_columns :: "(string \<times> frame_row) list \<Rightarrow> string list" where
  "merged_columns ps = fold (\<lambda>e cols. add_columns cols (map fst e)) (map snd (merge_spec ps)) []"

definition merged_row :: "(string \<times> frame_row) list \<Rightarrow> cell \<Rightarrow> rowval list" where
  "merged_row ps k =
     map (\<lambda>c. if c = ''source_files'' then VCell (CStr (py_join '', '' (sources_of ps k)))
              else (case map_of (group_entry ps k) c of None \<Rightarrow> VCell CNaN | Some v \<Rightarrow> v))
         (merged_columns ps)"

text \<open>The spec's example: two files sharing one link, each with one link of its own.\<close>

definition example_rows_A :: "frame_row list" where
  "example_rows_A =
     [[(''github_profile_link'', CStr ''L1''), (''person_name'', CStr ''Ann'')],
      [(''github_profile_link'', CStr ''L2''), (''person_name'', CStr ''Bob'')]]"

definition example_rows_B :: "frame_row list" where
  "example_rows_B =
     [[(''github_profile_link'', CStr ''L1''), (''person_name'', CStr ''Ann B'')],
      [(''github_profile_link'', CStr ''L3''), (''person_name'', CStr ''Cy'')]]"

definition example_rows :: "string \<Rightarrow> frame_row list" where
  "example_rows f = (if f = ''A.csv'' then example_rows_A else example_rows_B)"

definition example_world :: world where
  "example_world = empty_world\<lparr>files :=
     [(''A.csv'', csv_text CRLF [[''github_profile_link'', ''person_name''], [''L1'', ''Ann''], [''L2'', ''Bob'']]),
      (''B.csv'', csv_text CRLF [[''github_profile_link'', ''person_name''], [''L1'', ''Ann B''], [''L3'', ''Cy'']]),
      (''notes.txt'', ''x'')]\<rparr>"

definition header_only_world :: world where
  "header_only_world = empty_world\<lparr>files :=
     [(''h.csv'', csv_text CRLF [[''github_profile_link'', ''person_name'']])]\<rparr>"

text \<open>Three files whose headers differ: the second lacks \<open>person_name\<close>.\<close>

definition mixed_world :: world where
  "mixed_world = empty_world\<lparr>files :=
     [(''A.csv'', csv_text CRLF [[''person_name'', ''github_profile_link''], [''Ann'', ''L1'']]),
      (''B.csv'', csv_text CRLF [[''github_profile_link''], [''L2'']]),
      (''C.csv'', csv_text CRLF [[''person_name'', ''github_profile_link''], [''Cy'', ''L3'']])]\<rparr>"

section \<open>Properties\<close>

lemma dict_set_keyed_absent:
  "k \<notin> set ks \<Longrightarrow> dict_set k v (map (\<lambda>k. (k, g k)) ks) = map (\<lambda>k. (k, g k)) ks @ [(k, v)]"
  by (induction ks) auto

lemma dict_set_keyed_present:
  "k \<in> set ks \<Longrightarrow> distinct ks \<Longrightarrow>
   dict_set k v (map (\<lambda>k. (k, g k)) ks) = map (\<lambda>k'. (k', if k' = k then v else g k')) ks"
  by (induction ks) auto

lemma first_seen_snoc:
  "first_seen (xs @ [x]) = (if x \<in> set xs then first_seen xs else first_seen xs @ [x])"
  by (simp add: first_seen_def)

lemma set_first_seen [simp]: "set (first_seen xs) = set xs"
  by (simp add: first_seen_def)

lemma distinct_first_seen [simp]: "distinct (first_seen xs)"
  by (simp add: first_seen_def)

lemma group_entry_other:
  "row_link (snd p) \<noteq> k \<Longrightarrow> group_entry (ps @ [p]) k = group_entry ps k"
  by (simp add: group_entry_def)

lemma group_entry_new:
  "row_link row \<notin> set (map (\<lambda>p. row_link (snd p)) ps) \<Longrightarrow>
   group_entry (ps @ [(f, row)]) (row_link row) = new_entry f row"
proof -
  assume "row_link row \<notin> set (map (\<lambda>p. row_link (snd p)) ps)"
  then have "filter (\<lambda>p. row_link (snd p) = row_link row) ps = []"
    by (force simp: filter_empty_conv)
  then show ?thesis by (simp add: group_entry_def new_entry_def cells_of_def)
qed

lemma group_entry_old:
  assumes "row_link row \<in> set (map (\<lambda>p. row_link (snd p)) ps)"
  shows "map_of (group_entry ps (row_link row)) ''source_files'' =
           Some (VFiles (map fst (filter (\<lambda>p. row_link (snd p) = row_link row) ps)))"
    and "group_entry (ps @ [(f, row)]) (row_link row) =
           dict_set ''source_files'' (VFiles (map fst (filter (\<lambda>p. row_link (snd p) = row_link row) ps) @ [f]))
             (group_entry ps (row_link row))"
proof -
  from assms have "filter (\<lambda>p. row_link (snd p) = row_link row) ps \<noteq> []"
    by (force simp: filter_empty_conv)
  then show "map_of (group_entry ps (row_link row)) ''source_files'' =
           Some (VFiles (map fst (filter (\<lambda>p. row_link (snd p) = row_link row) ps)))"
    and "group_entry (ps @ [(f, row)]) (row_link row) =
           dict_set ''source_files'' (VFiles (map fst (filter (\<lambda>p. row_link (snd p) = row_link row) ps) @ [f]))
             (group_entry ps (row_link row))"
    by (simp_all add: group_entry_def Let_def)
qed

lemma merge_row_spec:
  assumes "has_link row"
  shows "merge_row f row (merge_spec ps) = Inr (merge_spec (ps @ [(f, row)]))"
proof -
  obtain link where link: "map_of row ''github_profile_link'' = Some link" and rl: "row_link row = link"
    using assms by (auto simp: has_link_def row_link_def)
  let ?ks = "first_seen (map (\<lambda>p. row_link (snd p)) ps)"
  show ?thesis
  proof (cases "link \<in> set (map (\<lambda>p. row_link (snd p)) ps)")
    case False
    have r: "first_seen (map (\<lambda>p. row_link (snd p)) (ps @ [(f, row)])) = ?ks @ [link]"
      using False rl by (simp add: first_seen_snoc)
    have "map (\<lambda>k. (k, group_entry (ps @ [(f, row)]) k)) ?ks = map (\<lambda>k. (k, group_entry ps k)) ?ks"
    proof (rule map_cong [OF refl])
      fix k assume "k \<in> set ?ks"
      with False rl have "row_link (snd (f, row)) \<noteq> k" by auto
      then show "(k, group_entry (ps @ [(f, row)]) k) = (k, group_entry ps k)"
        by (simp add: group_entry_other)
    qed
    then have "merge_spec (ps @ [(f, row)]) = merge_spec ps @ [(link, new_entry f row)]"
      using r group_entry_new [of row ps f] False rl by (simp add: merge_spec_def)
    with False link rl show ?thesis
      by (simp add: merge_row_def merge_spec_def map_of_keyed dict_set_keyed_absent)
  next
    case True
    from True rl have T: "row_link row \<in> set (map (\<lambda>p. row_link (snd p)) ps)" by simp
    note old = group_entry_old(1) [OF T, unfolded rl] group_entry_old(2) [OF T, of f, unfolded rl]
    have "merge_spec (ps @ [(f, row)]) =
          map (\<lambda>k. (k, if k = link then dict_set ''source_files''
                   (VFiles (map fst (filter (\<lambda>p. row_link (snd p) = link) ps) @ [f])) (group_entry ps link)
                 else group_entry ps k)) ?ks"
      using True old(2) group_entry_other rl
      by (auto simp: merge_spec_def first_seen_snoc intro!: map_cong)
    with True link old(1) show ?thesis
      by (simp add: merge_row_def merge_spec_def map_of_keyed dict_set_keyed_present add_source_def)
  qed
qed

lemma merge_spec_Nil [simp]: "merge_spec [] = []"
  by (simp add: merge_spec_def first_seen_def)

lemma merge_rows_spec:
  "\<forall>r \<in> set rows. has_link r \<Longrightarrow> merge_rows f rows (merge_spec ps) = Inr (merge_spec (ps @ map (Pair f) rows))"
proof (induction rows arbitrary: ps)
  case Nil
  then show ?case by simp
next
  case (Cons r rows)
  then have "merge_rows f rows (merge_spec (ps @ [(f, r)])) = Inr (merge_spec ((ps @ [(f, r)]) @ map (Pair f) rows))"
    by simp
  with Cons.prems show ?case by (simp add: merge_row_spec)
qed

lemma merge_files_spec:
  assumes "\<forall>f \<in> set fs. read_frame w f = Inr (rows_of f) \<and> (\<forall>r \<in> set (rows_of f). has_link r)"
  shows "merge_files w fs (merge_spec ps) = Inr (merge_spec (ps @ concat (map (\<lambda>f. map (Pair f) (rows_of f)) fs)))"
  using assms
proof (induction fs arbitrary: ps)
  case Nil
  then show ?case by simp
next
  case (Cons f fs)
  then have "merge_files w fs (merge_spec (ps @ map (Pair f) (rows_of f))) =
             Inr (merge_spec ((ps @ map (Pair f) (rows_of f)) @ concat (map (\<lambda>f. map (Pair f) (rows_of f)) fs)))"
    by simp
  with Cons.prems show ?case by (simp add: merge_rows_spec)
qed

text \<open>C11. Merger, refinement: when every file the loop reads parses and every row has a
  \<open>github_profile_link\<close> column, the loop's dict is the abstract merge of the (file, row)
  pairs in reading order: one entry per distinct link, in order of first appearance, with
  the first row's values and the list of all files holding that link.\<close>

theorem merge_files_refines:
  assumes "\<forall>f \<in> set fs. read_frame w f = Inr (rows_of f) \<and> (\<forall>r \<in> set (rows_of f). has_link r)"
  shows "merge_files w fs [] = Inr (merge_spec (concat (map (\<lambda>f. map (Pair f) (rows_of f)) fs)))"
  using merge_files_spec [OF assms, of "[]"] by simp

lemma set_add_columns [simp]: "set (add_columns cols ks) = set cols \<union> set ks"
  by (induction ks arbitrary: cols) auto

lemma set_fold_add_columns:
  "set (fold (\<lambda>e cols. add_columns cols (map fst e)) es c0) = set c0 \<union> (\<Union>e \<in> set es. fst ` set e)"
  by (induction es arbitrary: c0) auto

lemma add_columns_distinct:
  "distinct xs \<Longrightarrow> set xs \<inter> set ys = {} \<Longrightarrow> add_columns ys xs = ys @ xs"
  by (induction xs arbitrary: ys) auto

lemma add_columns_subset: "set xs \<subseteq> set ys \<Longrightarrow> add_columns ys xs = ys"
  by (induction xs arbitrary: ys) auto

lemma add_columns_prefix: "\<exists>zs. add_columns ys xs = ys @ zs"
proof (induction xs arbitrary: ys)
  case (Cons x xs)
  from Cons.IH [of "if x \<in> set ys then ys else ys @ [x]"] show ?case
    by (cases "x \<in> set ys") auto
qed simp

lemma fold_add_columns_subset:
  "\<forall>c \<in> set cs. set (F c) \<subseteq> set idx \<Longrightarrow> fold (\<lambda>c idx. add_columns idx (F c)) cs idx = idx"
  by (induction cs) (simp_all add: add_columns_subset)

lemma fold_add_columns_same:
  "\<forall>e \<in> set es. map fst e = ks \<Longrightarrow> set ks \<subseteq> set c0 \<Longrightarrow>
   fold (\<lambda>e cols. add_columns cols (map fst e)) es c0 = c0"
  by (induction es) (simp_all add: add_columns_subset)

lemma from_dict_index:
  assumes "distinct (map fst cd)"
    and "fold (\<lambda>e cols. add_columns cols (map fst e)) (map snd cd) [] = c # cs"
    and "\<forall>p \<in> set cd. c \<in> set (map fst (snd p))"
  shows "from_dict cd =
     (c # cs, map (\<lambda>p. map (\<lambda>c'. case map_of (snd p) c' of None \<Rightarrow> VCell CNaN | Some v \<Rightarrow> v) (c # cs)) cd)"
proof -
  let ?F = "\<lambda>c. map fst (filter (\<lambda>p. c \<in> set (map fst (snd p))) cd)"
  have first: "?F c = map fst cd"
    using assms(3) by (simp add: filter_id_conv)
  have "add_columns [] (map fst cd) = map fst cd"
    using add_columns_distinct [OF assms(1), of "[]"] by simp
  moreover have "\<forall>c' \<in> set cs. set (?F c') \<subseteq> set (map fst cd)" by auto
  ultimately have idx: "fold (\<lambda>c idx. add_columns idx (?F c)) (c # cs) [] = map fst cd"
    using first fold_add_columns_subset [of cs ?F "map fst cd"] by simp
  have "map_of cd (fst p) = Some (snd p)" if "p \<in> set cd" for p
    using assms(1) that by (cases p) (simp add: map_of_is_SomeI)
  then show ?thesis
    unfolding from_dict_def Let_def assms(2) idx by (simp add: comp_def)
qed

lemma keys_group_entry:
  assumes "\<forall>p \<in> set ps. map fst (snd p) = hdr" and "k \<in> set (map (\<lambda>p. row_link (snd p)) ps)"
  shows "map fst (group_entry ps k) = (if ''source_files'' \<in> set hdr then hdr else hdr @ [''source_files''])"
proof -
  from assms(2) obtain p where "p \<in> set ps" "row_link (snd p) = k" by auto
  then have "filter (\<lambda>p. row_link (snd p) = k) ps \<noteq> []" by (auto simp: filter_empty_conv)
  then have "hd (filter (\<lambda>p. row_link (snd p) = k) ps) \<in> set ps"
    using list.set_sel(1) by fastforce
  with assms(1) show ?thesis
    by (simp add: group_entry_def Let_def keys_dict_set cells_of_def comp_def)
qed

lemma from_dict_merge_spec:
  assumes "\<forall>p \<in> set ps. map fst (snd p) = hdr" and "hdr \<noteq> []" and "ps \<noteq> []"
  shows "from_dict (merge_spec ps) =
     (fold (\<lambda>e cols. add_columns cols (map fst e)) (map snd (merge_spec ps)) [],
      map (\<lambda>k. map (\<lambda>c. case map_of (group_entry ps k) c of None \<Rightarrow> VCell CNaN | Some v \<Rightarrow> v)
                     (fold (\<lambda>e cols. add_columns cols (map fst e)) (map snd (merge_spec ps)) []))
          (first_seen (map (\<lambda>p. row_link (snd p)) ps)))"
proof -
  let ?K = "if ''source_files'' \<in> set hdr then hdr else hdr @ [''source_files'']"
  let ?ks = "first_seen (map (\<lambda>p. row_link (snd p)) ps)"
  have keys: "\<forall>e \<in> set (map snd (merge_spec ps)). map fst e = ?K"
    using keys_group_entry [OF assms(1)] by (auto simp: merge_spec_def)
  from assms(3) obtain k0 ks' where ks: "?ks = k0 # ks'"
    by (cases ?ks) (auto simp: first_seen_def neq_Nil_conv)
  define h where "h = hd hdr"
  define t where "t = tl ?K"
  have K: "?K = h # t" using assms(2) unfolding h_def t_def by (cases hdr) auto
  obtain zs where az: "add_columns [h] t = [h] @ zs" using add_columns_prefix by blast
  have e0: "map fst (group_entry ps k0) = h # t"
    using keys ks K by (auto simp: merge_spec_def)
  have "\<forall>e \<in> set (map (\<lambda>k. group_entry ps k) ks'). map fst e = h # t"
    using keys ks K by (auto simp: merge_spec_def)
  moreover have "set (h # t) \<subseteq> set (add_columns [h] t)" by simp
  ultimately have cols: "fold (\<lambda>e cols. add_columns cols (map fst e)) (map snd (merge_spec ps)) [] = h # zs"
    using fold_add_columns_same [of "map (\<lambda>k. group_entry ps k) ks'" "h # t" "add_columns [h] t"] e0 az ks
    by (simp add: merge_spec_def comp_def)
  have allh: "\<forall>p \<in> set (merge_spec ps). h \<in> set (map fst (snd p))"
    using keys K by (auto simp: merge_spec_def)
  have "distinct (map fst (merge_spec ps))" by (simp add: merge_spec_def comp_def)
  from from_dict_index [OF this cols allh] cols show ?thesis
    by (simp add: merge_spec_def comp_def)
qed

lemma map_sum_list_map_Inr:
  "\<forall>x \<in> set xs. f (u x) = Inr (v x) \<Longrightarrow> map_sum_list f (map u xs) = Inr (map v xs)"
  by (induction xs) auto

lemma group_entry_sources: "map_of (group_entry ps k) ''source_files'' = Some (VFiles (sources_of ps k))"
  by (simp add: group_entry_def sources_of_def Let_def)

lemma csv_parse_to_csv: "csv_parse (to_csv df) = fst df # map (map df_text) (snd df)"
  by (simp add: to_csv_def csv_parse_csv_text)

lemma join_sources_merge_spec:
  assumes "\<forall>p \<in> set ps. map fst (snd p) = hdr" and "hdr \<noteq> []" and "ps \<noteq> []"
  shows "''source_files'' \<in> set (merged_columns ps) \<and>
     join_sources (from_dict (merge_spec ps)) =
       Inr (merged_columns ps, map (merged_row ps) (first_seen (map (\<lambda>p. row_link (snd p)) ps)))"
proof -
  let ?ks = "first_seen (map (\<lambda>p. row_link (snd p)) ps)"
  let ?cols = "merged_columns ps"
  let ?g = "\<lambda>k c. case map_of (group_entry ps k) c of None \<Rightarrow> VCell CNaN | Some v \<Rightarrow> v"
  from assms(3) obtain k where k: "k \<in> set ?ks" by (cases ps) auto
  have "''source_files'' \<in> fst ` set (group_entry ps k)"
    using group_entry_sources [of ps k] by (force dest: map_of_SomeD)
  with k have sf: "''source_files'' \<in> set ?cols"
    by (auto simp: set_fold_add_columns merge_spec_def merged_columns_def)
  have fd: "from_dict (merge_spec ps) = (?cols, map (\<lambda>k. map (?g k) ?cols) ?ks)"
    unfolding merged_columns_def by (rule from_dict_merge_spec [OF assms])
  have inner: "map_sum_list (\<lambda>cv. if fst cv = ''source_files'' then join_value (snd cv) else Inr (snd cv))
          (zip ?cols (map (?g k) ?cols)) = Inr (merged_row ps k)" for k
    by (simp add: merged_row_def zip_map2 zip_same_conv_map comp_def group_entry_sources map_sum_list_map_Inr)
  have "map_sum_list (\<lambda>r. map_sum_list (\<lambda>cv. if fst cv = ''source_files'' then join_value (snd cv) else Inr (snd cv))
                            (zip ?cols r))
          (map (\<lambda>k. map (?g k) ?cols) ?ks) = Inr (map (merged_row ps) ?ks)"
    by (rule map_sum_list_map_Inr) (simp add: inner)
  with sf show ?thesis
    unfolding fd join_sources_def by simp
qed

lemma combine_csv_files_merge_spec:
  assumes "\<forall>f \<in> set (glob_files pat w). read_frame w f = Inr (rows_of f) \<and> (\<forall>r \<in> set (rows_of f). has_link r)"
    and "ps = concat (map (\<lambda>f. map (Pair f) (rows_of f)) (glob_files pat w))" and "ps \<noteq> []"
    and "\<forall>p \<in> set ps. map fst (snd p) = hdr"
  shows "''source_files'' \<in> set (merged_columns ps) \<and>
     combine_csv_files pat outf w =
       (Inr (), py_print (''Combined data saved to '' @ outf)
                  (write_file outf (to_csv (merged_columns ps,
                     map (merged_row ps) (first_seen (map (\<lambda>p. row_link (snd p)) ps)))) w))"
proof -
  from assms(3) obtain p where p: "p \<in> set ps" by (cases ps) auto
  with assms(1,2) have "has_link (snd p)" by auto
  with p assms(4) have hdr: "hdr \<noteq> []" by (auto simp: has_link_def)
  have "merge_files w (glob_files pat w) [] = Inr (merge_spec ps)"
    using merge_files_spec [OF assms(1), of "[]"] assms(2) by simp
  with join_sources_merge_spec [OF assms(4) hdr assms(3)] show ?thesis
    by (simp add: combine_csv_files_def)
qed

text \<open>C12. Merger, output: under the same conditions, with at least one row and with every
  row under the same header (as in the collector's files), the output file is written and
  read back it has one row per distinct link, in order of first appearance, whose \<open>source_files\<close> column is the files holding that link joined by
  \<open>", "\<close> in encounter order.\<close>

theorem combine_csv_files_sources:
  assumes "\<forall>f \<in> set (glob_files pat w). read_frame w f = Inr (rows_of f) \<and> (\<forall>r \<in> set (rows_of f). has_link r)"
    and "ps = concat (map (\<lambda>f. map (Pair f) (rows_of f)) (glob_files pat w))" and "ps \<noteq> []"
    and "\<forall>p \<in> set ps. map fst (snd p) = hdr"
  shows "\<exists>w' text. combine_csv_files pat outf w = (Inr (), w') \<and> read_file outf w' = Some text \<and>
     map (\<lambda>row. map_of (zip (hd (csv_parse text)) row) ''source_files'') (tl (csv_parse text)) =
     map (\<lambda>k. Some (py_join '', '' (sources_of ps k))) (first_seen (map (\<lambda>p. row_link (snd p)) ps))"
proof -
  from combine_csv_files_merge_spec [OF assms, of outf] show ?thesis
    by (simp add: csv_parse_to_csv merged_row_def zip_map2 zip_same_conv_map map_of_keyed comp_def)
qed

lemma merge_files_no_rows:
  "\<forall>f \<in> set fs. read_frame w f = Inr [] \<Longrightarrow> merge_files w fs [] = Inr []"
  by (induction fs) simp_all

text \<open>C13. Merger, empty input: when no file matches or every matching file has a header
  and no rows, the empty DataFrame has no \<open>source_files\<close> column, the code raises
  \<open>KeyError('source_files')\<close> and writes nothing.\<close>

theorem combine_csv_files_no_rows:
  assumes "\<forall>f \<in> set (glob_files pat w). read_frame w f = Inr []"
  shows "combine_csv_files pat outf w = (Inl (KeyError ''source_files''), w)"
  using merge_files_no_rows [OF assms]
  by (simp add: combine_csv_files_def join_sources_def from_dict_def)


subsection \<open>Witnesses\<close>

lemma example_frames:
  "read_frame example_world ''A.csv'' = Inr example_rows_A"
  "read_frame example_world ''B.csv'' = Inr example_rows_B"
  by (simp_all add: read_frame_def example_world_def read_file_def read_csv_def csv_parse_csv_text
                    frame_rows_def to_cell_def na_strings_def example_rows_A_def example_rows_B_def)

lemma example_glob: "glob_files ''*.csv'' example_world = [''A.csv'', ''B.csv'']"
  by (simp add: glob_files_def example_world_def)

lemma example_rows_have_link:
  "\<forall>f \<in> set [''A.csv'', ''B.csv'']. read_frame example_world f = Inr (example_rows f) \<and>
      (\<forall>r \<in> set (example_rows f). has_link r)"
  by (simp add: example_frames example_rows_def example_rows_A_def example_rows_B_def has_link_def)

theorem merge_files_refines_witness:
  "merge_files example_world [''A.csv'', ''B.csv''] [] =
   Inr (merge_spec (map (Pair ''A.csv'') example_rows_A @ map (Pair ''B.csv'') example_rows_B))"
  using merge_files_refines [OF example_rows_have_link]
  by (simp add: example_rows_def)

theorem combine_csv_files_sources_witness:
  "\<exists>w' text. combine_csv_files ''*.csv'' ''combined_data.csv'' example_world = (Inr (), w') \<and>
     read_file ''combined_data.csv'' w' = Some text \<and>
     map (\<lambda>row. map_of (zip (hd (csv_parse text)) row) ''source_files'') (tl (csv_parse text)) =
     [Some ''A.csv, B.csv'', Some ''A.csv'', Some ''B.csv'']"
proof -
  have ps: "map (Pair ''A.csv'') example_rows_A @ map (Pair ''B.csv'') example_rows_B \<noteq> []"
    by (simp add: example_rows_A_def)
  from combine_csv_files_sources [where outf = "''combined_data.csv''" and hdr = "[''github_profile_link'', ''person_name'']",
          OF example_rows_have_link [folded example_glob] _ ps]
  show ?thesis
    by (simp add: example_glob example_rows_def example_rows_A_def example_rows_B_def sources_of_def
                  row_link_def first_seen_def)
qed

theorem combine_csv_files_no_rows_witness:
  "combine_csv_files ''*.csv'' ''combined_data.csv'' header_only_world =
   (Inl (KeyError ''source_files''), header_only_world)"
proof -
  have "\<forall>f \<in> set (glob_files ''*.csv'' header_only_world). read_frame header_only_world f = Inr []"
    by (simp add: glob_files_def header_only_world_def read_frame_def read_file_def read_csv_def
                  csv_parse_csv_text frame_rows_def)
  then show ?thesis by (rule combine_csv_files_no_rows)
qed

end
