(* ===== verification/MergerOutput.thy ===== *)
theory MergerOutput
  imports Merger
begin

text \<open>
  The Merger on the common case of one input file whose rows share one header and
  have distinct links, as for each file the collector writes: the combined frame
  has the file's columns followed by \<open>source_files\<close>, one row per input row in
  file order, each holding the values pandas read followed by the file name.
\<close>

lemma map_of_cells_of: "map_of (cells_of r) c = map_option VCell (map_of r c)"
  by (induction r) (auto simp: cells_of_def)

lemma lookup_row_cells:
  assumes "distinct (map fst r)" and "sf \<notin> set (map fst r)"
  shows "map (\<lambda>c. if c = sf then X else case map_of (cells_of r @ [(sf, Y)]) c of None \<Rightarrow> VCell CNaN | Some v \<Rightarrow> v)
             (map fst r) = map (\<lambda>kv. VCell (snd kv)) r"
proof -
  have "(if fst kv = sf then X else case map_of (cells_of r @ [(sf, Y)]) (fst kv) of None \<Rightarrow> VCell CNaN | Some v \<Rightarrow> v)
        = VCell (snd kv)" if "kv \<in> set r" for kv
  proof -
    from that have "map_of r (fst kv) = Some (snd kv)" using map_of_is_SomeI [OF assms(1), of "fst kv" "snd kv"] by simp
    with that assms(2) show ?thesis by (auto simp: map_of_append map_of_cells_of)
  qed
  then show ?thesis by simp
qed

lemma first_seen_distinct: "distinct xs \<Longrightarrow> first_seen xs = xs"
  by (simp add: first_seen_def distinct_remdups_id)

lemma single_file_group:
  assumes "distinct (map row_link rows)" and "r \<in> set rows"
  shows "filter (\<lambda>p. row_link (snd p) = row_link r) (map (Pair fn) rows) = [(fn, r)]"
  using assms
proof (induction rows)
  case (Cons r' rows)
  show ?case
  proof (cases "r = r'")
    case True
    with Cons.prems have "filter (\<lambda>p. row_link (snd p) = row_link r) (map (Pair fn) rows) = []"
      by (auto simp: filter_empty_conv) (metis imageI)
    with True show ?thesis by simp
  next
    case False
    with Cons.prems have "r \<in> set rows" "row_link r' \<noteq> row_link r" by auto
    with Cons.IH Cons.prems show ?thesis by simp
  qed
qed simp

lemma merge_distinct_rows:
  assumes uni: "\<forall>r \<in> set rows. map fst r = hdr" and "distinct hdr" and "''source_files'' \<notin> set hdr"
    and dl: "distinct (map row_link rows)" and "rows \<noteq> []"
  shows "merged_columns (map (Pair fn) rows) = hdr @ [''source_files'']"
    and "map (merged_row (map (Pair fn) rows)) (first_seen (map (\<lambda>p. row_link (snd p)) (map (Pair fn) rows))) =
         map (\<lambda>r. map (\<lambda>kv. VCell (snd kv)) r @ [VCell (CStr fn)]) rows"
proof -
  let ?ps = "map (Pair fn) rows"
  have ge: "group_entry ?ps (row_link r) = cells_of r @ [(''source_files'', VFiles [fn])]" if "r \<in> set rows" for r
  proof -
    have "''source_files'' \<notin> set (map fst (cells_of r))"
      using that uni assms(3) by (simp add: cells_of_def comp_def)
    then show ?thesis
      using single_file_group [OF dl that, of fn] by (simp add: group_entry_def Let_def dict_set_absent)
  qed
  have ms: "map snd (merge_spec ?ps) = map (\<lambda>r. group_entry ?ps (row_link r)) rows"
    using dl by (simp add: merge_spec_def first_seen_distinct comp_def)
  have ek: "\<forall>e \<in> set (map (\<lambda>r. group_entry ?ps (row_link r)) rows). map fst e = hdr @ [''source_files'']"
    using ge uni by (auto simp: cells_of_def comp_def)
  from assms(5) obtain r0 rs where r0: "rows = r0 # rs" by (cases rows) auto
  have "add_columns [] (hdr @ [''source_files'']) = hdr @ [''source_files'']"
    using assms(2,3) add_columns_distinct [of "hdr @ [''source_files'']" "[]"] by simp
  with ek show cols: "merged_columns ?ps = hdr @ [''source_files'']"
    using fold_add_columns_same [of "map (\<lambda>r. group_entry ?ps (row_link r)) rs" "hdr @ [''source_files'']"
                                     "hdr @ [''source_files'']"]
    unfolding merged_columns_def ms unfolding r0 by simp
  show "map (merged_row ?ps) (first_seen (map (\<lambda>p. row_link (snd p)) ?ps)) =
         map (\<lambda>r. map (\<lambda>kv. VCell (snd kv)) r @ [VCell (CStr fn)]) rows"
  proof -
    have "merged_row ?ps (row_link r) = map (\<lambda>kv. VCell (snd kv)) r @ [VCell (CStr fn)]" if "r \<in> set rows" for r
    proof -
      have k: "hdr = map fst r" and d: "distinct (map fst r)" and sf: "''source_files'' \<notin> set (map fst r)"
        using that uni assms(2,3) by auto
      have src: "sources_of ?ps (row_link r) = [fn]"
        using single_file_group [OF dl that, of fn] by (simp add: sources_of_def)
      show ?thesis
        unfolding merged_row_def cols ge [OF that] src k map_append lookup_row_cells [OF d sf] by simp
    qed
    then show ?thesis
      using dl by (simp add: first_seen_distinct comp_def)
  qed
qed

lemma read_csv_uniform:
  assumes "csv_parse text = hdr # rows" and "hdr \<noteq> []" and "\<forall>r \<in> set rows. length r = length hdr"
  shows "read_csv text = Inr (hdr, map (map to_cell) rows)"
proof -
  have "filter (\<lambda>r. r \<noteq> []) rows = rows" and "\<not> list_ex (\<lambda>r. length hdr < length r) rows"
    using assms(2,3) by (auto simp: filter_id_conv list_ex_iff)
  with assms show ?thesis
    by (simp add: read_csv_def cong: map_cong)
qed

lemma df_text_to_cell: "(x \<in> set na_strings \<longrightarrow> x = []) \<Longrightarrow> df_text (VCell (to_cell x)) = x"
  by (auto simp: to_cell_def)

lemma to_cell_inj:
  "(x \<in> set na_strings \<longrightarrow> x = []) \<Longrightarrow> (y \<in> set na_strings \<longrightarrow> y = []) \<Longrightarrow> to_cell x = to_cell y \<Longrightarrow> x = y"
  by (auto simp: to_cell_def split: if_splits)

lemma combine_one_file:
  assumes glob: "glob_files pat w = [fn]" and rd: "read_file fn w = Some text" and parse: "csv_parse text = hdr # rows"
    and "distinct hdr" and "''source_files'' \<notin> set hdr" and "''github_profile_link'' \<in> set hdr"
    and len: "\<forall>r \<in> set rows. length r = length hdr" and "rows \<noteq> []"
    and dl: "distinct (map (\<lambda>r. row_link (zip hdr (map to_cell r))) rows)"
  shows "combine_csv_files pat outf w =
     (Inr (), py_print (''Combined data saved to '' @ outf)
        (write_file outf (to_csv (hdr @ [''source_files''],
            map (\<lambda>r. map (\<lambda>x. VCell (to_cell x)) r @ [VCell (CStr fn)]) rows)) w))"
proof -
  let ?rows = "map (\<lambda>r. zip hdr (map to_cell r)) rows"
  have hdr: "hdr \<noteq> []" using assms(6) by auto
  have frame: "read_frame w fn = Inr ?rows"
    using rd read_csv_uniform [OF parse hdr len] by (simp add: read_frame_def frame_rows_def comp_def)
  have keys: "\<forall>r \<in> set ?rows. map fst r = hdr" using len by auto
  have links: "\<forall>r \<in> set ?rows. has_link r"
  proof
    fix r assume "r \<in> set ?rows"
    with keys have "map fst r = hdr" by blast
    with assms(6) have "''github_profile_link'' \<in> set (map fst r)" by simp
    then show "has_link r" by (auto simp: has_link_def map_of_eq_None_iff)
  qed
  have "\<forall>p \<in> set (map (Pair fn) ?rows). map fst (snd p) = hdr" using keys by auto
  note out = combine_csv_files_merge_spec [where rows_of = "\<lambda>_. ?rows", OF _ _ _ this, of pat w outf]
  have dl': "distinct (map row_link ?rows)" using dl by (simp add: comp_def)
  note mr = merge_distinct_rows [OF keys assms(4,5) dl', of fn]
  have rows_eq: "map (\<lambda>r. map (\<lambda>kv. VCell (snd kv)) r @ [VCell (CStr fn)]) ?rows =
        map (\<lambda>r. map (\<lambda>x. VCell (to_cell x)) r @ [VCell (CStr fn)]) rows"
    using len by (simp add: map_snd_zip_apply)
  have "combine_csv_files pat outf w =
     (Inr (), py_print (''Combined data saved to '' @ outf)
        (write_file outf (to_csv (hdr @ [''source_files''],
            map (\<lambda>r. map (\<lambda>kv. VCell (snd kv)) r @ [VCell (CStr fn)]) ?rows)) w))"
    using out mr glob frame links assms(8) by simp
  then show ?thesis unfolding rows_eq .
qed

end
