(* ===== verification/Glob.thy ===== *)
theory Glob
  imports Merger "HOL-Library.Sublist"
begin

text \<open>
  A declarative reading of the shell patterns \<open>glob.glob\<close> accepts (the \<open>*\<close> and
  \<open>?\<close> wildcards of \<open>fnmatch\<close>): \<open>glob_match p s\<close> holds when \<open>s\<close> splits into
  pieces matching the pattern's characters one by one, \<open>*\<close> taking any string,
  \<open>?\<close> any one character and every other character itself.  The matcher of
  \<open>Merger\<close>, \<open>fnmatch\<close>, decides it; from that follow which names the merge script's
  pattern \<open>*.csv\<close> picks and the fact that the script's own output is among them.
\<close>

text \<open>The declarative pattern semantics.\<close>

inductive glob_match :: "string \<Rightarrow> string \<Rightarrow> bool" where
  gm_end: "glob_match [] []"
| gm_star: "glob_match p v \<Longrightarrow> glob_match (CHR ''*'' # p) (u @ v)"
| gm_any: "glob_match p v \<Longrightarrow> glob_match (CHR ''?'' # p) (x # v)"
| gm_char: "c \<noteq> CHR ''*'' \<Longrightarrow> c \<noteq> CHR ''?'' \<Longrightarrow> glob_match p v \<Longrightarrow> glob_match (c # p) (c # v)"

text \<open>A directory with one collector file.\<close>

definition one_file_world :: world where
  "one_file_world = empty_world\<lparr>files :=
     [(''a.csv'', csv_text CRLF [[''github_profile_link'', ''person_name''], [''L1'', ''Ann'']])]\<rparr>"

inductive_cases glob_match_NilE: "glob_match [] s"
inductive_cases glob_match_ConsE: "glob_match (c # p) s"

lemma fnmatch_Cons_Nil: "fnmatch (c # p) [] \<longleftrightarrow> c = CHR ''*'' \<and> fnmatch p []"
  by simp

lemma fnmatch_Cons_Cons:
  "fnmatch (c # p) (x # s) \<longleftrightarrow>
     (if c = CHR ''*'' then fnmatch p (x # s) \<or> fnmatch (c # p) s else (c = CHR ''?'' \<or> c = x) \<and> fnmatch p s)"
  by (subst fnmatch.simps(2)) (simp del: fnmatch.simps)

lemmas fnmatch_steps = fnmatch.simps(1) fnmatch_Cons_Nil fnmatch_Cons_Cons

lemma fnmatch_star_skip: "fnmatch p v \<Longrightarrow> fnmatch (CHR ''*'' # p) v"
  by (cases v) (simp_all del: fnmatch.simps add: fnmatch_steps)

lemma fnmatch_star_append: "fnmatch p v \<Longrightarrow> fnmatch (CHR ''*'' # p) (u @ v)"
  by (induction u) (simp_all del: fnmatch.simps add: fnmatch_steps fnmatch_star_skip)

lemma glob_match_starE:
  assumes "glob_match (CHR ''*'' # p) s"
  obtains u v where "s = u @ v" and "glob_match p v"
  using assms by (cases rule: glob_match_ConsE) auto

lemma glob_match_star_Cons:
  assumes "glob_match (CHR ''*'' # p) s"
  shows "glob_match (CHR ''*'' # p) (x # s)"
proof -
  from assms obtain u v where "s = u @ v" and "glob_match p v" by (rule glob_match_starE)
  then show ?thesis using gm_star [of p v "x # u"] by simp
qed

lemma fnmatch_glob_match: "fnmatch p s \<Longrightarrow> glob_match p s"
proof (induction p s rule: fnmatch.induct)
  case (1 s)
  then show ?case by (simp add: gm_end)
next
  case (2 c p s)
  show ?case
  proof (cases "c = CHR ''*''")
    case True
    show ?thesis
    proof (cases "fnmatch p s")
      case True
      with \<open>c = CHR ''*''\<close> show ?thesis using "2.IH"(1) gm_star [of p s "[]"] by simp
    next
      case False
      with "2.prems" \<open>c = CHR ''*''\<close> obtain x s' where "s = x # s'" and "fnmatch (c # p) s'"
        by (cases s) (simp_all del: fnmatch.simps add: fnmatch_steps)
      with "2.IH"(2) \<open>c = CHR ''*''\<close> have "s = x # s'" and "glob_match (c # p) s'" by simp_all
      with \<open>c = CHR ''*''\<close> show ?thesis by (simp add: glob_match_star_Cons)
    qed
  next
    case False
    with "2.prems" obtain x s' where s: "s = x # s'" and "c = CHR ''?'' \<or> c = x" and "fnmatch p s'"
      by (cases s) (simp_all del: fnmatch.simps add: fnmatch_steps)
    with "2.IH"(3) False have "glob_match p s'" by simp
    with s \<open>c = CHR ''?'' \<or> c = x\<close> False show ?thesis
      by (cases "c = CHR ''?''") (simp_all add: gm_any gm_char)
  qed
qed

lemma glob_match_fnmatch: "glob_match p s \<Longrightarrow> fnmatch p s"
  by (induction rule: glob_match.induct) (simp_all del: fnmatch.simps add: fnmatch_steps fnmatch_star_append)

lemma fnmatch_iff_glob_match: "fnmatch p s \<longleftrightarrow> glob_match p s"
  using fnmatch_glob_match glob_match_fnmatch by blast


lemma glob_match_literal:
  "CHR ''*'' \<notin> set p \<Longrightarrow> CHR ''?'' \<notin> set p \<Longrightarrow> glob_match p s \<longleftrightarrow> s = p"
proof (induction p arbitrary: s)
  case Nil
  then show ?case by (auto elim: glob_match_NilE intro: gm_end)
next
  case (Cons c p)
  then show ?case by (auto elim!: glob_match_ConsE intro: gm_char)
qed

lemma glob_match_star_literal:
  assumes "CHR ''*'' \<notin> set lit" and "CHR ''?'' \<notin> set lit"
  shows "glob_match (CHR ''*'' # lit) s \<longleftrightarrow> suffix lit s"
proof
  assume "glob_match (CHR ''*'' # lit) s"
  then obtain u v where "s = u @ v" and "glob_match lit v" by (rule glob_match_starE)
  with assms show "suffix lit s" by (simp add: glob_match_literal suffix_def)
next
  assume "suffix lit s"
  then obtain u where "s = u @ lit" by (auto simp: suffix_def)
  moreover from assms have "glob_match lit lit" by (simp add: glob_match_literal)
  ultimately show "glob_match (CHR ''*'' # lit) s" by (simp add: gm_star)
qed

lemma glob_files_csv:
  "glob_files ''*.csv'' w = filter (\<lambda>n. suffix ''.csv'' n \<and> take 1 n \<noteq> ''.'') (map fst (files w))"
  using glob_match_star_literal [of "''.csv''"]
  by (simp add: glob_files_def fnmatch_iff_glob_match del: fnmatch.simps)


lemma combine_csv_files_written:
  assumes "combine_csv_files pat outf w = (Inr (), w')"
  shows "\<exists>text. files w' = dict_set outf text (files w)"
  using assms
  by (auto simp: combine_csv_files_def write_file_def py_print_def split: sum.splits)

lemma merge_script_glob:
  assumes "merge_script w = (Inr (), w')"
  shows "glob_files ''*.csv'' w' =
           (if ''combined_data.csv'' \<in> set (map fst (files w)) then glob_files ''*.csv'' w
            else glob_files ''*.csv'' w @ [''combined_data.csv''])"
proof -
  from assms obtain t where "files w' = dict_set ''combined_data.csv'' t (files w)"
    unfolding merge_script_def Let_def by (blast dest: combine_csv_files_written)
  then show ?thesis by (simp add: glob_files_csv keys_dict_set suffix_def)
qed


lemma one_file_merge:
  "merge_script one_file_world =
     (Inr (), py_print ''Combined data saved to combined_data.csv''
        (write_file ''combined_data.csv''
           (csv_text LF [[''github_profile_link'', ''person_name'', ''source_files''], [''L1'', ''Ann'', ''a.csv'']])
           one_file_world))"
  by (simp add: merge_script_def combine_csv_files_def glob_files_def one_file_world_def read_frame_def
                read_file_def read_csv_def csv_parse_csv_text frame_rows_def to_cell_def na_strings_def
                merge_row_def new_entry_def from_dict_def join_sources_def to_csv_def empty_world_def Let_def)

lemma one_file_rerun:
  "\<exists>w''. merge_script (py_print ''Combined data saved to combined_data.csv''
        (write_file ''combined_data.csv''
           (csv_text LF [[''github_profile_link'', ''person_name'', ''source_files''], [''L1'', ''Ann'', ''a.csv'']])
           one_file_world)) = (Inr (), w'') \<and>
   read_file ''combined_data.csv'' w'' =
     Some (csv_text LF [[''github_profile_link'', ''person_name'', ''source_files''],
                        [''L1'', ''Ann'', ''a.csv, combined_data.csv'']])"
  by (simp add: merge_script_def combine_csv_files_def glob_files_def one_file_world_def read_frame_def
                read_file_def read_csv_def csv_parse_csv_text frame_rows_def to_cell_def na_strings_def
                merge_row_def new_entry_def add_source_def from_dict_def join_sources_def to_csv_def
                empty_world_def Let_def write_file_def py_print_def split: if_splits)


end
