(* ===== verification/MergerRerun.thy ===== *)
theory MergerRerun
  imports Glob MergerInvariant Effects
begin

text \<open>
  Running \<open>merge_csv.py\<close> a second time.  After a successful run the directory holds
  \<open>combined_data.csv\<close>, which matches \<open>*.csv\<close> (theory \<open>Glob\<close>), so the next run
  reads the same input files and then, last, its own previous output.  Every row of that
  output carries a link the dict already holds, so the run only appends
  \<open>combined_data.csv\<close> to every entry's \<open>source_files\<close>, and the new output is the old
  one with \<open>, combined_data.csv\<close> added to each \<open>source_files\<close> field.
\<close>

text \<open>The entry after \<open>combined_data[link]["source_files"].append(file)\<close>; a cell
  \<open>pd.read_csv\<close> gives back unchanged when it is written; the \<open>source_files\<close> field of
  the output after the rerun.\<close>

definition add_file :: "string \<Rightarrow> entry \<Rightarrow> entry" where
  "add_file f e = dict_set ''source_files'' (VFiles (sources_entry e @ [f])) e"

fun readable_cell :: "cell \<Rightarrow> bool" where
  "readable_cell CNaN = True"
| "readable_cell (CStr s) = (s \<notin> set na_strings)"

fun rerun_cell :: "rowval \<Rightarrow> rowval" where
  "rerun_cell (VCell (CStr s)) = VCell (CStr (s @ '', combined_data.csv''))"
| "rerun_cell v = v"

text \<open>The parts of \<open>from_dict\<close>: its columns, its index, the value of a row at a column;
  and the value after the join of \<open>source_files\<close>.\<close>

definition frame_cols :: "combined \<Rightarrow> string list" where
  "frame_cols cd = fold (\<lambda>e cols. add_columns cols (map fst e)) (map snd cd) []"

definition frame_index :: "combined \<Rightarrow> cell list" where
  "frame_index cd =
     fold (\<lambda>c idx. add_columns idx (map fst (filter (\<lambda>p. c \<in> set (map fst (snd p))) cd))) (frame_cols cd) []"

definition frame_val :: "combined \<Rightarrow> cell \<Rightarrow> string \<Rightarrow> rowval" where
  "frame_val cd k c =
     (case map_of (case map_of cd k of None \<Rightarrow> [] | Some e \<Rightarrow> e) c of None \<Rightarrow> VCell CNaN | Some v \<Rightarrow> v)"

definition joined_val :: "combined \<Rightarrow> cell \<Rightarrow> string \<Rightarrow> rowval" where
  "joined_val cd k c =
     (if c = ''source_files''
      then VCell (CStr (py_join '', '' (sources_entry (case map_of cd k of None \<Rightarrow> [] | Some e \<Rightarrow> e))))
      else frame_val cd k c)"

definition rerun_row :: "string list \<Rightarrow> rowval list \<Rightarrow> rowval list" where
  "rerun_row cols row = map (\<lambda>cv. if fst cv = ''source_files'' then rerun_cell (snd cv) else snd cv) (zip cols row)"

subsection \<open>The loop over the files\<close>

lemma map_of_Some_key: "map_of ps k = Some v \<Longrightarrow> k \<in> set (map fst ps)"
  by (auto dest: map_of_SomeD intro: rev_image_eqI)

lemma merge_files_append:
  "merge_files w (xs @ ys) cd = (case merge_files w xs cd of Inl e \<Rightarrow> Inl e | Inr cd' \<Rightarrow> merge_files w ys cd')"
  by (induction xs arbitrary: cd) (auto split: sum.splits)

lemma merge_files_cong:
  "\<forall>f \<in> set fs. read_frame w' f = read_frame w f \<Longrightarrow> merge_files w' fs cd = merge_files w fs cd"
  by (induction fs arbitrary: cd) (auto split: sum.splits)

lemma map_of_new_entry_link:
  "map_of r ''github_profile_link'' = Some l \<Longrightarrow> map_of (new_entry f r) ''github_profile_link'' = Some (VCell l)"
  unfolding new_entry_def by (induction r) auto

lemma merge_run_links:
  "merge_run ps cd \<Longrightarrow> \<forall>p \<in> set cd. map_of (snd p) ''github_profile_link'' = Some (VCell (fst p))"
proof (induction rule: merge_run.induct)
  case start
  then show ?case by simp
next
  case (step ps cd f r cd')
  from step.hyps(2) show ?case
  proof (cases rule: merge_row_cases)
    case (1 link)
    then have "link \<notin> set (map fst cd)" by (auto simp: map_of_eq_None_iff)
    with 1 step.IH show ?thesis by (auto simp: dict_set_absent map_of_new_entry_link)
  next
    case (2 link e fs)
    from 2(2) have "(link, e) \<in> set cd" by (rule map_of_SomeD)
    with step.IH have "map_of e ''github_profile_link'' = Some (VCell link)" by fastforce
    with 2(4) step.IH set_dict_set_sub
      [of link "dict_set ''source_files'' (VFiles (fs @ [f])) e" cd] show ?thesis
      by auto
  qed
qed

lemma merge_run_has_link:
  "merge_run ps cd \<Longrightarrow> \<forall>p \<in> set ps. has_link (snd p)"
proof (induction rule: merge_run.induct)
  case (step ps cd f r cd')
  from step.hyps(2) have "has_link r" by (cases rule: merge_row_cases) (simp_all add: has_link_def)
  with step.IH show ?case by simp
qed simp

lemma map_update_absent:
  "k \<notin> fst ` set ps \<Longrightarrow> map (\<lambda>p. if fst p = k then (k, v) else p) ps = ps"
  by (induction ps) auto

lemma dict_set_present_map:
  "distinct (map fst ps) \<Longrightarrow> k \<in> set (map fst ps) \<Longrightarrow>
   dict_set k v ps = map (\<lambda>p. if fst p = k then (k, v) else p) ps"
  by (induction k v ps rule: dict_set.induct) (auto simp: map_update_absent)

lemma combined_inv_sources:
  assumes "combined_inv cd" and "map_of cd k = Some e"
  shows "\<exists>fs. map_of e ''source_files'' = Some (VFiles fs) \<and> fs \<noteq> [] \<and> sources_entry e = fs"
proof -
  from assms(2) have "(k, e) \<in> set cd" by (rule map_of_SomeD)
  with assms(1) show ?thesis unfolding combined_inv_def sources_entry_def by fastforce
qed

lemma merge_rows_all:
  assumes "combined_inv cd" and "distinct (map row_link R)" and "set (map row_link R) \<subseteq> set (map fst cd)"
    and "\<forall>r \<in> set R. has_link r"
  shows "merge_rows f R cd =
           Inr (map (\<lambda>p. if fst p \<in> set (map row_link R) then (fst p, add_file f (snd p)) else p) cd)"
  using assms
proof (induction R arbitrary: cd)
  case Nil
  then show ?case by simp
next
  case (Cons r R)
  let ?link = "row_link r"
  from Cons.prems(4) have l: "map_of r ''github_profile_link'' = Some ?link"
    by (auto simp: has_link_def row_link_def)
  from Cons.prems(3) obtain e where e: "map_of cd ?link = Some e"
    by (cases "map_of cd ?link") (auto simp: map_of_eq_None_iff)
  from combined_inv_sources [OF Cons.prems(1) e] obtain fs
    where fs: "map_of e ''source_files'' = Some (VFiles fs)" "sources_entry e = fs" by blast
  have dist: "distinct (map fst cd)" using Cons.prems(1) by (simp add: combined_inv_def)
  let ?cd1 = "map (\<lambda>p. if fst p = ?link then (?link, add_file f e) else p) cd"
  have row: "merge_row f r cd = Inr ?cd1"
    using l e fs Cons.prems(3) dist
    by (simp add: merge_row_def add_source_def add_file_def dict_set_present_map)
  have inv1: "combined_inv ?cd1" by (rule merge_row_inv [OF Cons.prems(1) row])
  have keys1: "map fst ?cd1 = map fst cd" by (induction cd) auto
  have rest: "merge_rows f R ?cd1 =
      Inr (map (\<lambda>p. if fst p \<in> set (map row_link R) then (fst p, add_file f (snd p)) else p) ?cd1)"
    using Cons.prems(2-4) keys1 by (intro Cons.IH [OF inv1]) simp_all
  have snd_e: "snd p = e" if "p \<in> set cd" and "fst p = ?link" for p
    using that e dist by (metis map_of_is_SomeI option.inject prod.collapse)
  have "map (\<lambda>p. if fst p \<in> set (map row_link R) then (fst p, add_file f (snd p)) else p) ?cd1 =
        map (\<lambda>p. if fst p \<in> set (map row_link (r # R)) then (fst p, add_file f (snd p)) else p) cd"
    using Cons.prems(2) snd_e by (auto simp: comp_def)
  with row rest show ?case by simp
qed

subsection \<open>The frame of a dict\<close>

lemma from_dict_parts:
  "from_dict cd = (frame_cols cd, map (\<lambda>k. map (frame_val cd k) (frame_cols cd)) (frame_index cd))"
  by (simp add: from_dict_def Let_def frame_cols_def frame_index_def frame_val_def)

lemma map_of_map_snd:
  "map_of (map (\<lambda>p. (fst p, g (snd p))) ps) k = map_option g (map_of ps k)"
  by (induction ps) auto

lemma zip_map_same: "zip xs (map g xs) = map (\<lambda>x. (x, g x)) xs"
  by (induction xs) auto

lemma add_columns_distinct_pres: "distinct cols \<Longrightarrow> distinct (add_columns cols ks)"
  by (induction ks arbitrary: cols) auto

lemma fold_add_columns_distinct:
  "distinct i0 \<Longrightarrow> distinct (fold (\<lambda>c idx. add_columns idx (F c)) cs i0)"
  by (induction cs arbitrary: i0) (simp_all add: add_columns_distinct_pres)

lemma combined_inv_key:
  assumes "combined_inv cd" and "k \<in> set (map fst cd)"
  obtains e where "map_of cd k = Some e" and "(k, e) \<in> set cd"
    and "map_of e ''source_files'' = Some (VFiles (sources_entry e))" and "sources_entry e \<noteq> []"
proof -
  from assms(2) obtain e where e: "map_of cd k = Some e" by (cases "map_of cd k") (auto simp: map_of_eq_None_iff)
  from combined_inv_sources [OF assms(1) e] e map_of_SomeD [OF e] show ?thesis by (auto intro: that)
qed

lemma sources_in_cols:
  "combined_inv cd \<Longrightarrow> p \<in> set cd \<Longrightarrow> ''source_files'' \<in> set (frame_cols cd)"
  unfolding combined_inv_def frame_cols_def by (force simp: set_fold_add_columns dest: map_of_SomeD)

lemma frame_index_keys:
  assumes "combined_inv cd"
  shows "distinct (frame_index cd)" and "set (frame_index cd) = set (map fst cd)"
proof -
  show "distinct (frame_index cd)"
    unfolding frame_index_def by (simp add: fold_add_columns_distinct)
  have "k \<in> set (frame_index cd)" if "k \<in> set (map fst cd)" for k
  proof -
    from assms that obtain e where "(k, e) \<in> set cd" and "map_of e ''source_files'' = Some (VFiles (sources_entry e))"
      by (rule combined_inv_key)
    moreover from this sources_in_cols [OF assms] have "''source_files'' \<in> set (frame_cols cd)" by blast
    ultimately show ?thesis
      unfolding frame_index_def by (force simp: set_fold_add_index dest: map_of_SomeD)
  qed
  moreover have "set (frame_index cd) \<subseteq> set (map fst cd)"
    unfolding frame_index_def by (auto simp: set_fold_add_index)
  ultimately show "set (frame_index cd) = set (map fst cd)" by blast
qed

lemma join_row:
  assumes "v ''source_files'' = VFiles fs"
  shows "map_sum_list (\<lambda>cv. if fst cv = ''source_files'' then join_value (snd cv) else Inr (snd cv))
           (zip cols (map v cols)) =
         Inr (map (\<lambda>c. if c = ''source_files'' then VCell (CStr (py_join '', '' fs)) else v c) cols)"
  unfolding zip_map_same using assms by (intro map_sum_list_map_Inr) simp

lemma join_sources_from_dict:
  assumes "combined_inv cd" and "cd \<noteq> []"
  shows "join_sources (from_dict cd) =
           Inr (frame_cols cd, map (\<lambda>k. map (joined_val cd k) (frame_cols cd)) (frame_index cd))"
proof -
  from assms(2) obtain p where "p \<in> set cd" by (cases cd) auto
  with assms(1) have sf: "''source_files'' \<in> set (frame_cols cd)" by (rule sources_in_cols)
  have "map_sum_list (\<lambda>cv. if fst cv = ''source_files'' then join_value (snd cv) else Inr (snd cv))
          (zip (frame_cols cd) (map (frame_val cd k) (frame_cols cd))) =
        Inr (map (joined_val cd k) (frame_cols cd))" if "k \<in> set (frame_index cd)" for k
  proof -
    from that frame_index_keys(2) [OF assms(1)] have "k \<in> set (map fst cd)" by simp
    with assms(1) obtain e where e: "map_of cd k = Some e"
      and "map_of e ''source_files'' = Some (VFiles (sources_entry e))" by (rule combined_inv_key)
    then have "frame_val cd k ''source_files'' = VFiles (sources_entry e)" by (simp add: frame_val_def)
    from join_row [where v = "frame_val cd k" and cols = "frame_cols cd", OF this] e
    show ?thesis by (simp add: joined_val_def)
  qed
  then have "map_sum_list (\<lambda>r. map_sum_list (\<lambda>cv. if fst cv = ''source_files'' then join_value (snd cv)
                                               else Inr (snd cv)) (zip (frame_cols cd) r))
               (map (\<lambda>k. map (frame_val cd k) (frame_cols cd)) (frame_index cd)) =
             Inr (map (\<lambda>k. map (joined_val cd k) (frame_cols cd)) (frame_index cd))"
    by (intro map_sum_list_map_Inr) simp
  then show ?thesis
    using sf by (simp add: from_dict_parts join_sources_def)
qed

subsection \<open>Appending a file to every entry\<close>

lemma py_join_snoc: "xs \<noteq> [] \<Longrightarrow> py_join sep (xs @ [x]) = py_join sep xs @ sep @ x"
  by (induction sep xs rule: py_join.induct) simp_all

lemma add_file_keys:
  assumes "map_of e ''source_files'' = Some (VFiles fs)"
  shows "map fst (add_file f e) = map fst e"
proof -
  from assms have "''source_files'' \<in> set (map fst e)"
    by (rule map_of_Some_key)
  then show ?thesis by (simp add: add_file_def keys_dict_set)
qed

lemma add_file_sources: "sources_entry (add_file f e) = sources_entry e @ [f]"
  by (simp add: add_file_def sources_entry_def)

lemma add_all_inv:
  assumes "combined_inv cd"
  shows "combined_inv (map (\<lambda>p. (fst p, add_file f (snd p))) cd)"
  using assms unfolding combined_inv_def by (auto simp: comp_def add_file_def)

lemma add_all_cols:
  assumes "combined_inv cd"
  shows "frame_cols (map (\<lambda>p. (fst p, add_file f (snd p))) cd) = frame_cols cd"
    and "frame_index (map (\<lambda>p. (fst p, add_file f (snd p))) cd) = frame_index cd"
proof -
  have keys_eq: "map fst (add_file f (snd p)) = map fst (snd p)" if "p \<in> set cd" for p
  proof -
    from that have "fst p \<in> set (map fst cd)" by simp
    with assms obtain e where "map_of cd (fst p) = Some e" "(fst p, e) \<in> set cd"
      and "map_of e ''source_files'' = Some (VFiles (sources_entry e))" by (rule combined_inv_key)
    moreover from assms this(1) that have "e = snd p"
      unfolding combined_inv_def by (metis map_of_is_SomeI option.inject prod.collapse)
    ultimately show ?thesis by (simp add: add_file_keys)
  qed
  have "fold (\<lambda>x cols. add_columns cols (map fst (add_file f (snd x)))) cd [] =
        fold (\<lambda>x cols. add_columns cols (map fst (snd x))) cd []"
    by (rule fold_cong) (simp_all add: keys_eq)
  then show cols: "frame_cols (map (\<lambda>p. (fst p, add_file f (snd p))) cd) = frame_cols cd"
    by (simp add: frame_cols_def fold_map comp_def)
  have "filter (\<lambda>x. c \<in> set (map fst (add_file f (snd x)))) cd = filter (\<lambda>x. c \<in> set (map fst (snd x))) cd" for c
    by (rule filter_cong) (simp_all only: keys_eq)
  then have "map fst (filter (\<lambda>p. c \<in> set (map fst (snd p))) (map (\<lambda>p. (fst p, add_file f (snd p))) cd)) =
             map fst (filter (\<lambda>p. c \<in> set (map fst (snd p))) cd)" for c
    by (simp add: filter_map comp_def)
  then show "frame_index (map (\<lambda>p. (fst p, add_file f (snd p))) cd) = frame_index cd"
    by (simp add: frame_index_def cols)
qed

lemma add_all_joined:
  assumes "combined_inv cd" and "k \<in> set (map fst cd)"
  shows "joined_val (map (\<lambda>p. (fst p, add_file ''combined_data.csv'' (snd p))) cd) k c =
           (if c = ''source_files'' then rerun_cell (joined_val cd k c) else joined_val cd k c)"
proof -
  from assms obtain e where e: "map_of cd k = Some e" and "sources_entry e \<noteq> []" by (rule combined_inv_key)
  moreover have "map_of (map (\<lambda>p. (fst p, add_file ''combined_data.csv'' (snd p))) cd) k =
                 Some (add_file ''combined_data.csv'' e)"
    using e by (simp add: map_of_map_snd)
  ultimately show ?thesis
    by (simp add: joined_val_def frame_val_def add_file_sources py_join_snoc)
       (simp add: add_file_def)
qed

lemma join_sources_add_all:
  assumes "combined_inv cd" and "cd \<noteq> []"
  shows "join_sources (from_dict (map (\<lambda>p. (fst p, add_file ''combined_data.csv'' (snd p))) cd)) =
           Inr (frame_cols cd,
                map (rerun_row (frame_cols cd)) (map (\<lambda>k. map (joined_val cd k) (frame_cols cd)) (frame_index cd)))"
proof -
  let ?cd2 = "map (\<lambda>p. (fst p, add_file ''combined_data.csv'' (snd p))) cd"
  have row: "map (joined_val ?cd2 k) (frame_cols cd) = rerun_row (frame_cols cd) (map (joined_val cd k) (frame_cols cd))"
    if "k \<in> set (frame_index cd)" for k
  proof -
    from that frame_index_keys(2) [OF assms(1)] have "k \<in> set (map fst cd)" by simp
    then show ?thesis
      using add_all_joined [OF assms(1)] by (simp add: rerun_row_def zip_map_same comp_def)
  qed
  have "?cd2 \<noteq> []" using assms(2) by simp
  from join_sources_from_dict [OF add_all_inv [OF assms(1)] this] row show ?thesis
    by (simp add: add_all_cols [OF assms(1)])
qed

subsection \<open>Reading the output back\<close>

lemma to_cell_readable: "readable_cell (to_cell s)"
  by (simp add: to_cell_def)

lemma readable_roundtrip: "readable_cell c \<Longrightarrow> to_cell (df_text (VCell c)) = c"
  by (cases c) (simp_all add: to_cell_def na_strings_def)

lemma read_csv_to_csv:
  assumes "fst df \<noteq> []" and "\<forall>r \<in> set (snd df). length r = length (fst df)"
  shows "read_csv (to_csv df) = Inr (fst df, map (map (\<lambda>v. to_cell (df_text v))) (snd df))"
proof -
  have "filter (\<lambda>r. r \<noteq> []) (fst df # map (map df_text) (snd df)) = fst df # map (map df_text) (snd df)"
    using assms by (auto simp: filter_id_conv)
  with assms show ?thesis
    by (simp add: read_csv_def csv_parse_to_csv list_ex_iff comp_def)
qed

lemma read_frame_readable:
  "read_frame w f = Inr rows \<Longrightarrow> \<forall>r \<in> set rows. \<forall>cv \<in> set r. readable_cell (snd cv)"
  by (auto simp: read_frame_def read_csv_def frame_rows_def to_cell_readable
           split: option.splits sum.splits list.splits if_splits dest!: set_zip_rightD)

lemma row_link_readable:
  assumes "\<forall>cv \<in> set r. readable_cell (snd cv)"
  shows "readable_cell (row_link r)"
proof (cases "map_of r ''github_profile_link''")
  case (Some l)
  then have "(''github_profile_link'', l) \<in> set r" by (rule map_of_SomeD)
  with assms Some show ?thesis by (force simp: row_link_def)
qed (simp add: row_link_def)

lemma merge_files_keys:
  assumes "merge_files w fs [] = Inr cd"
  shows "combined_inv cd" and "\<forall>p \<in> set cd. map_of (snd p) ''github_profile_link'' = Some (VCell (fst p))"
    and "\<forall>k \<in> set (map fst cd). readable_cell k"
proof -
  from merge_files_run [OF merge_run.start assms] obtain rows_of
    where rd: "\<forall>f \<in> set fs. read_frame w f = Inr (rows_of f)"
      and run: "merge_run (concat (map (\<lambda>f. map (Pair f) (rows_of f)) fs)) cd" by auto
  from merge_run_inv [OF run]
  show "combined_inv cd" by blast
  from merge_run_links [OF run]
  show "\<forall>p \<in> set cd. map_of (snd p) ''github_profile_link'' = Some (VCell (fst p))" .
  from merge_run_inv [OF run]
  have keys: "set (map fst cd) = set (map (\<lambda>p. row_link (snd p)) (concat (map (\<lambda>f. map (Pair f) (rows_of f)) fs)))"
    by blast
  have "readable_cell (row_link r)" if "f \<in> set fs" and "r \<in> set (rows_of f)" for f r
    using read_frame_readable [of w f "rows_of f"] rd that by (intro row_link_readable) blast
  with keys show "\<forall>k \<in> set (map fst cd). readable_cell k" by auto
qed

lemma key_in_cols: "p \<in> set cd \<Longrightarrow> c \<in> set (map fst (snd p)) \<Longrightarrow> c \<in> set (frame_cols cd)"
  by (auto simp: frame_cols_def set_fold_add_columns)

lemma reread_output:
  assumes "combined_inv cd" and "cd \<noteq> []"
    and links: "\<forall>p \<in> set cd. map_of (snd p) ''github_profile_link'' = Some (VCell (fst p))"
    and readable: "\<forall>k \<in> set (map fst cd). readable_cell k"
  shows "\<exists>frame. read_csv (to_csv (frame_cols cd, map (\<lambda>k. map (joined_val cd k) (frame_cols cd)) (frame_index cd))) =
            Inr frame \<and> map row_link (frame_rows frame) = frame_index cd \<and> (\<forall>r \<in> set (frame_rows frame). has_link r)"
proof -
  let ?cols = "frame_cols cd"
  let ?h = "\<lambda>k c. to_cell (df_text (joined_val cd k c))"
  from assms(2) obtain p where "p \<in> set cd" by (cases cd) auto
  with assms(1) have sf: "''source_files'' \<in> set ?cols" by (rule sources_in_cols)
  then have "?cols \<noteq> []" by auto
  then have rd: "read_csv (to_csv (?cols, map (\<lambda>k. map (joined_val cd k) ?cols) (frame_index cd))) =
      Inr (?cols, map (\<lambda>k. map (?h k) ?cols) (frame_index cd))"
    by (simp add: read_csv_to_csv comp_def)
  have link: "map_of (zip ?cols (map (?h k) ?cols)) ''github_profile_link'' = Some k"
    if "k \<in> set (frame_index cd)" for k
  proof -
    from that frame_index_keys(2) [OF assms(1)] have k: "k \<in> set (map fst cd)" by simp
    with assms(1) obtain e where e: "map_of cd k = Some e" and ke: "(k, e) \<in> set cd" by (rule combined_inv_key)
    from links ke have le: "map_of e ''github_profile_link'' = Some (VCell k)" by fastforce
    then have "''github_profile_link'' \<in> set (map fst e)"
      by (rule map_of_Some_key)
    with ke have "''github_profile_link'' \<in> set ?cols" by (intro key_in_cols [of "(k, e)"]) simp_all
    moreover have "joined_val cd k ''github_profile_link'' = VCell k"
      using e le by (simp add: joined_val_def frame_val_def)
    moreover from readable k have "readable_cell k" by blast
    ultimately show ?thesis by (simp add: map_of_zip_map readable_roundtrip)
  qed
  have "map row_link (map (\<lambda>k. zip ?cols (map (?h k) ?cols)) (frame_index cd)) = frame_index cd"
    using link by (simp add: row_link_def comp_def cong: map_cong)
  moreover have "\<forall>r \<in> set (map (\<lambda>k. zip ?cols (map (?h k) ?cols)) (frame_index cd)). has_link r"
    using link by (auto simp: has_link_def)
  ultimately show ?thesis
    using rd by (simp add: frame_rows_def comp_def)
qed

lemma merge_rows_reread:
  assumes "combined_inv cd" and "map row_link R = frame_index cd" and "\<forall>r \<in> set R. has_link r"
  shows "merge_rows f R cd = Inr (map (\<lambda>p. (fst p, add_file f (snd p))) cd)"
proof -
  have "distinct (map row_link R)" and "set (map row_link R) = set (map fst cd)"
    using frame_index_keys [OF assms(1)] assms(2) by simp_all
  with merge_rows_all [OF assms(1) _ _ assms(3), of f] show ?thesis
    by (simp cong: map_cong)
qed

subsection \<open>The effect of a run\<close>

lemma combine_csv_files_effect:
  assumes "combine_csv_files pat outf w = (r, w')"
  shows "world_effect [outf] w w' \<and> sent w' = sent w"
proof -
  from assms have "w' = w \<or> (\<exists>t. w' = py_print (''Combined data saved to '' @ outf) (write_file outf t w))"
    by (auto simp: combine_csv_files_def split: sum.splits)
  moreover have "world_effect [outf] w (py_print m (write_file outf t w))" for m t
    by (rule world_effect_trans_same [OF write_file_effect py_print_effect]) simp
  ultimately show ?thesis by (auto simp: py_print_def write_file_def)
qed

subsection \<open>The second run\<close>

lemma from_dict_Nil_error: "join_sources (from_dict []) = Inl (KeyError ''source_files'')"
  by (simp add: from_dict_def join_sources_def)

lemma merge_script_ok:
  assumes "merge_script w = (Inr (), w1)"
  obtains cd df where "merge_files w (glob_files ''*.csv'' w) [] = Inr cd" and "cd \<noteq> []"
    and "join_sources (from_dict cd) = Inr df"
    and "w1 = py_print ''Combined data saved to combined_data.csv'' (write_file ''combined_data.csv'' (to_csv df) w)"
proof -
  from assms obtain cd df where m: "merge_files w (glob_files ''*.csv'' w) [] = Inr cd"
    and j: "join_sources (from_dict cd) = Inr df"
    and w1: "w1 = py_print ''Combined data saved to combined_data.csv'' (write_file ''combined_data.csv'' (to_csv df) w)"
    by (auto simp: merge_script_def combine_csv_files_def Let_def split: sum.splits)
  moreover from j have "cd \<noteq> []" using from_dict_Nil_error by auto
  ultimately show ?thesis using that by blast
qed


subsection \<open>Witness\<close>


end
