(* ===== verification/Quota.thy ===== *)
theory Quota
  imports Collector
begin

text \<open>
  Termination of the collector on servers that depend on the request history.  The
  page loop has no bound of its own (C3); what ends it on the real GitHub is that, once the
  hourly quota of requests is used up, every request is answered with status 403, which
  the loop reads as the end of the data (C23).  \<open>stops_after n srv\<close> states that from the
  \<open>n\<close>-th request on every reply ends a page loop.
\<close>

definition stops_after :: "nat \<Rightarrow> server \<Rightarrow> bool" where
  "stops_after n srv \<longleftrightarrow> (\<forall>h rq. n \<le> length h \<longrightarrow> stop_reply (srv h rq))"

lemma paginate_loop_quota:
  assumes "stops_after n srv"
  shows "paginate_loop srv ep p items pb w \<noteq> None"
proof (induction "n - length (sent w)" arbitrary: p items pb w)
  case 0
  then have "stop_reply (srv (sent w) (page_request ep p))"
    using assms by (simp add: stops_after_def)
  then show ?case by (simp add: paginate_loop_stop)
next
  case (Suc k)
  then have IH: "\<And>q items pb rq. paginate_loop srv ep q items pb (w\<lparr>sent := sent w @ [rq]\<rparr>) \<noteq> None"
    by simp
  show ?case
    by (simp add: paginate_loop_unfold_page [of _ _ p] IH del: not_None_eq
             split: http_reply.split option.split sum.split)
qed

lemma get_paginated_data_quota:
  assumes "stops_after n srv"
  shows "get_paginated_data srv ep desc cf w \<noteq> None"
proof -
  obtain res w1 where sp: "start_pbar srv desc cf w = (res, w1)" by fastforce
  have "paginate_loop srv ep 1 [] pb w1 \<noteq> None" for pb by (rule paginate_loop_quota [OF assms])
  with sp show ?thesis
    by (cases res) (auto simp: get_paginated_data_def split: option.split sum.split)
qed

lemma collector_main_quota:
  assumes "stops_after n srv"
  shows "\<exists>r. collector_main srv w = Some r"
proof -
  have "\<And>w. get_stargazers srv w \<noteq> None" "\<And>w. get_forks srv w \<noteq> None"
    using get_paginated_data_quota [OF assms] by (simp_all add: get_stargazers_def get_forks_def)
  then show ?thesis
    using run_pipeline_not_None [of get_stargazers srv] run_pipeline_not_None [of get_forks srv]
    by (auto simp: collector_main_def split: option.split sum.split)
qed

lemma rate_limited_stops: "stops_after n (rate_limited n api)"
  by (simp add: stops_after_def rate_limited_def)

text \<open>C37. Collector, termination, on servers that depend on the request history: on any
  server that, from some request on, answers every request with a reply that ends a page
  loop (a status other than 200, or an empty page), as GitHub does once the hourly quota is
  used up, \<open>main\<close> returns, normally or with an exception; no bound in the code is needed
  for this, and none is there.\<close>

theorem collector_main_returns_on_quota:
  assumes "stops_after n srv"
  shows "\<exists>r. collector_main srv w = Some r"
  using assms by (rule collector_main_quota)

theorem collector_main_returns_on_quota_witness:
  "\<exists>r. collector_main (rate_limited 5 (\<lambda>_. Reply 200 (Some (JList [JDict [(''login'', JStr ''ann'')]])))) empty_world = Some r"
  by (rule collector_main_returns_on_quota [OF rate_limited_stops])

end
