(* ===== verification/PageShift.thy ===== *)
theory PageShift
  imports Paginator "HOL-Library.Sublist"
begin

text \<open>
  Pagination over a listing that changes while it is being read.  GitHub serves
  page \<open>n\<close> of a listing as the items at positions \<open>(n - 1) * per_page\<close> to
  \<open>n * per_page - 1\<close> of the listing as it is when the request arrives, with
  \<open>per_page\<close> capped at 100.  \<open>live_api\<close> is such a server: \<open>L t\<close> is the listing
  after \<open>t\<close> requests, so that stars, unstars and new forks between two page requests
  of \<open>get_paginated_data\<close> (\<open>src/scrapper/scrapper/github_data_collector.py\<close>,
  lines 84--91) are part of the model.  Forks are listed newest first, so a new fork
  enters at the front and pushes the others back; stargazers are listed oldest first,
  so an unstar pulls the later ones forward.  The loop reads page after page of
  whatever the listing is at the time, with no snapshot and no check for repeated
  items.
\<close>

definition list_page :: "nat \<Rightarrow> 'a list \<Rightarrow> nat \<Rightarrow> 'a list" where
  "list_page per xs n = take per (drop ((n - 1) * per) xs)"

text \<open>The repository request gets \<open>repo\<close>; a page request on the listing's endpoint
  gets the page of the current listing; anything else is not found.\<close>

definition live_api :: "http_reply \<Rightarrow> string \<Rightarrow> (nat \<Rightarrow> json list) \<Rightarrow> server" where
  "live_api repo ep L h rq =
     (if req_url rq = repo_url \<and> req_params rq = [] then repo
      else if req_url rq \<noteq> ep then Reply 404 None
      else case req_params rq of
        [(''page'', JInt n), (''per_page'', JInt per)] \<Rightarrow>
          (if 1 \<le> n \<and> 1 \<le> per then Reply 200 (Some (JList (list_page (min (nat per) 100) (L (length h)) (nat n))))
           else Reply 422 None)
      | _ \<Rightarrow> Reply 404 None)"

text \<open>A listing of 101 items, one more than a page holds.\<close>

definition sample_listing :: "json list" where "sample_listing = map (\<lambda>k. JInt (int k)) [0..<101]"

subsection \<open>Pages of a listing\<close>

lemma live_api_page [simp]:
  "1 \<le> n \<Longrightarrow> live_api repo ep L h (page_request ep n) = Reply 200 (Some (JList (list_page 100 (L (length h)) n)))"
  by (simp add: live_api_def github_request_def page_params_def)

lemma live_api_repo [simp]: "live_api repo ep L h (github_request repo_url []) = repo"
  by (simp add: live_api_def github_request_def)

lemma nth_in_list_page:
  assumes "(n - 1) * per \<le> k" and "k < n * per" and "k < length xs" and "1 \<le> n"
  shows "xs ! k \<in> set (list_page per xs n)"
proof -
  have lt: "k - (n - 1) * per < per"
    using assms(1,2,4) by (cases n) auto
  have "list_page per xs n ! (k - (n - 1) * per) = xs ! k"
    using assms(1,3) lt by (simp add: list_page_def)
  moreover have "k - (n - 1) * per < length (list_page per xs n)"
    using assms by (cases n) (auto simp: list_page_def)
  ultimately show ?thesis by (metis nth_mem)
qed

lemma list_page_empty: "list_page per xs n = [] \<Longrightarrow> 0 < per \<Longrightarrow> length xs \<le> (n - 1) * per"
  by (simp add: list_page_def)

lemma suffix_nth_shift:
  assumes "suffix ys xs" and "i < length ys"
  shows "xs ! (length xs - length ys + i) = ys ! i"
proof -
  from assms(1) obtain zs where "xs = zs @ ys" by (auto simp: suffix_def)
  with assms(2) show ?thesis by (simp add: nth_append)
qed

lemma suffix_chain:
  assumes "\<forall>t. suffix (L t) (L (Suc t))" and "t \<le> t'"
  shows "suffix (L t) (L t')"
  using assms(2)
proof (induction t' rule: dec_induct)
  case (step n)
  then show ?case using assms(1) suffix_order.trans by blast
qed simp

lemma suffix_Cons_self: "suffix xs (y # xs)"
  by (simp add: suffix_def)

subsection \<open>The page loop over a listing that grows at its front\<close>

text \<open>The invariant of the loop at page \<open>p\<close>: every item of the listing at time
  \<open>t0\<close> that now stands before page \<open>p\<close> has been collected.  An item's position
  only grows while the listing grows at its front, and the window moves by one page per
  request, so an item cannot jump over the window.\<close>

lemma live_api_step:
  assumes "1 \<le> p"
  shows "get_github_data (live_api repo ep L) ep (page_params p) w =
           (Inr (JList (list_page 100 (L (length (sent w))) p)), w\<lparr>sent := sent w @ [page_request ep p]\<rparr>)"
  using assms by (simp add: get_github_data_def)

lemma growing_window:
  assumes inv: "\<forall>i < length (L t0). length (L t) - length (L t0) + i < (p - 1) * 100 \<longrightarrow> L t0 ! i \<in> set items"
    and chain: "\<forall>t. suffix (L t) (L (Suc t))" and "t0 \<le> t" and "1 \<le> p"
  shows "\<forall>i < length (L t0). length (L (Suc t)) - length (L t0) + i < p * 100 \<longrightarrow>
           L t0 ! i \<in> set (items @ list_page 100 (L t) p)"
proof (intro allI impI)
  fix i assume i: "i < length (L t0)" and lt: "length (L (Suc t)) - length (L t0) + i < p * 100"
  have s0: "suffix (L t0) (L t)" using suffix_chain [OF chain \<open>t0 \<le> t\<close>] .
  have s1: "suffix (L t) (L (Suc t))" using chain by blast
  have le: "length (L t) - length (L t0) \<le> length (L (Suc t)) - length (L t0)"
    using suffix_length_le [OF s1] by simp
  have len: "length (L t0) \<le> length (L t)" using suffix_length_le [OF s0] .
  show "L t0 ! i \<in> set (items @ list_page 100 (L t) p)"
  proof (cases "length (L t) - length (L t0) + i < (p - 1) * 100")
    case True
    with inv i show ?thesis by simp
  next
    case False
    have "L t ! (length (L t) - length (L t0) + i) \<in> set (list_page 100 (L t) p)"
      using False lt le len i \<open>1 \<le> p\<close> by (intro nth_in_list_page) simp_all
    with suffix_nth_shift [OF s0 i] show ?thesis by simp
  qed
qed

lemma paginate_loop_growing:
  assumes "paginate_loop srv ep p items pb w = Some r"
  shows "srv = live_api repo ep L \<longrightarrow> (\<forall>t. suffix (L t) (L (Suc t))) \<longrightarrow> 1 \<le> p \<longrightarrow>
     t0 \<le> length (sent w) \<longrightarrow>
     (\<forall>i < length (L t0). length (L (length (sent w))) - length (L t0) + i < (p - 1) * 100 \<longrightarrow> L t0 ! i \<in> set items) \<longrightarrow>
     (\<forall>items' pb'. fst r = Inr (items', pb') \<longrightarrow> set (L t0) \<subseteq> set items')"
  using assms
proof (induction srv ep p items pb w r rule: paginate_loop.raw_induct [rotated, consumes 1])
  case (1 loop srv ep p items pb w r)
  show ?case
  proof (intro impI allI)
    fix items' pb'
    assume srv: "srv = live_api repo ep L" and chain: "\<forall>t. suffix (L t) (L (Suc t))" and p: "1 \<le> p"
      and t0: "t0 \<le> length (sent w)"
      and inv: "\<forall>i < length (L t0). length (L (length (sent w))) - length (L t0) + i < (p - 1) * 100 \<longrightarrow> L t0 ! i \<in> set items"
      and res: "fst r = Inr (items', pb')"
    let ?W = "list_page 100 (L (length (sent w))) p"
    let ?w1 = "w\<lparr>sent := sent w @ [page_request ep p]\<rparr>"
    note step = "1"(2) [unfolded srv live_api_step [OF p]]
    show "set (L t0) \<subseteq> set items'"
    proof (cases "?W = []")
      case True
      with step res have "items' = items" by auto
      have "length (L (length (sent w))) \<le> (p - 1) * 100"
        using list_page_empty [OF True] by simp
      moreover have "length (L t0) \<le> length (L (length (sent w)))"
        using suffix_length_le [OF suffix_chain [OF chain t0]] .
      ultimately show ?thesis using inv \<open>items' = items\<close>
        by (auto simp: in_set_conv_nth)
    next
      case False
      show ?thesis
      proof (cases "pbar_bool pb")
        case (Inl e)
        with step False res show ?thesis by auto
      next
        case (Inr b)
        with step False have rec: "loop (live_api repo ep L) ep (p + 1) (items @ ?W) (if b then pbar_update (length ?W) pb else pb) ?w1 = Some r"
          by simp
        have inv': "\<forall>i < length (L t0). length (L (length (sent ?w1))) - length (L t0) + i < (p + 1 - 1) * 100 \<longrightarrow>
                      L t0 ! i \<in> set (items @ ?W)"
          using growing_window [OF inv chain t0 p] by simp
        from "1"(1) [OF rec] srv chain t0 inv' res show ?thesis by simp
      qed
    qed
  qed
qed

lemma start_pbar_sent:
  assumes "start_pbar srv desc cf w = (r, w1)"
  shows "length (sent w) \<le> length (sent w1)"
  using assms
  by (auto simp: start_pbar_def get_github_data_def Let_def
           split: option.splits if_splits prod.splits sum.splits http_reply.splits)

lemma get_paginated_data_growing:
  assumes "get_paginated_data (live_api repo ep L) ep desc cf w = Some (Inr items, w')"
    and chain: "\<forall>t. suffix (L t) (L (Suc t))"
  shows "set (L (length (sent w))) \<subseteq> set items"
proof -
  obtain r1 w1 where st: "start_pbar (live_api repo ep L) desc cf w = (r1, w1)" by fastforce
  with assms(1) obtain pb r where pb: "r1 = Inr pb"
    and loop: "paginate_loop (live_api repo ep L) ep 1 [] pb w1 = Some r"
    and res: "\<exists>pb'. fst r = Inr (items, pb')"
    by (auto simp: get_paginated_data_def split: sum.splits option.splits prod.splits)
  have "length (sent w) \<le> length (sent w1)" using start_pbar_sent [OF st] .
  with paginate_loop_growing [OF loop, of repo L "length (sent w)"] chain res show ?thesis
    by auto
qed

subsection \<open>The page loop over a listing that changes once\<close>

lemma drop_list_page:
  "1 \<le> p \<Longrightarrow> drop ((p - 1) * per) ys = list_page per ys p @ drop (p * per) ys"
proof -
  assume "1 \<le> p"
  then have "p * per = (p - 1) * per + per" by (cases p) simp_all
  then show ?thesis by (simp add: list_page_def add.commute flip: drop_drop)
qed

lemma paginate_loop_live_fixed:
  assumes "\<forall>t \<ge> length (sent w). L t = ys" and "pbar_bool pb = Inr b" and "1 \<le> p"
  shows "\<exists>pb' w'. paginate_loop (live_api repo ep L) ep p items pb w = Some (Inr (items @ drop ((p - 1) * 100) ys, pb'), w')
           \<and> pbar_bool pb' = Inr b"
  using assms
proof (induction "length ys - (p - 1) * 100" arbitrary: p items pb b w rule: less_induct)
  case less
  let ?W = "list_page 100 ys p"
  let ?w1 = "w\<lparr>sent := sent w @ [page_request ep p]\<rparr>"
  have L: "L (length (sent w)) = ys" using less.prems(1) by simp
  show ?case
  proof (cases "?W = []")
    case True
    then have "drop ((p - 1) * 100) ys = []" using list_page_empty [OF True] by simp
    with True L less.prems(2,3) show ?thesis by (simp add: paginate_loop_unfold_page)
  next
    case False
    then have lt: "length ys - (Suc p - 1) * 100 < length ys - (p - 1) * 100"
      using less.prems(3) by (cases p) (auto simp: list_page_def)
    have fix1: "\<forall>t \<ge> length (sent ?w1). L t = ys" using less.prems(1) by simp
    have pb1: "pbar_bool (if b then pbar_update (length ?W) pb else pb) = Inr b" using less.prems(2) by simp
    obtain pb' w' where rec: "paginate_loop (live_api repo ep L) ep (Suc p) (items @ ?W)
        (if b then pbar_update (length ?W) pb else pb) ?w1 = Some (Inr ((items @ ?W) @ drop ((Suc p - 1) * 100) ys, pb'), w')"
      and "pbar_bool pb' = Inr b"
      using less.hyps [OF lt fix1 pb1, of "items @ ?W"] by auto
    show ?thesis
      using False L less.prems(2,3) rec \<open>pbar_bool pb' = Inr b\<close> drop_list_page [OF less.prems(3), of 100 ys]
      by (simp add: paginate_loop_unfold_page)
  qed
qed

lemma drop_del_at:
  "i < per \<Longrightarrow> drop per (take i xs @ drop (Suc i) xs) = drop (Suc per) xs"
  by (cases "i \<le> length xs") (simp_all add: min_def)

lemma get_paginated_data_changed:
  assumes "count_reply_ok cf repo" and "cf \<noteq> []"
    and L: "L = (\<lambda>t. if t \<le> Suc (length (sent w)) then xs else ys)"
  shows "\<exists>w'. get_paginated_data (live_api repo ep L) ep desc (Some cf) w =
           Some (Inr (if xs = [] then [] else take 100 xs @ drop 100 ys), w')"
proof -
  let ?w1 = "w\<lparr>sent := sent w @ [github_request repo_url []]\<rparr>"
  let ?w2 = "?w1\<lparr>sent := sent ?w1 @ [page_request ep 1]\<rparr>"
  obtain pb b where st0: "start_pbar (\<lambda>_ _. repo) desc (Some cf) w = (Inr pb, ?w1)" and b: "pbar_bool pb = Inr b"
    using start_pbar_ok [where api = "\<lambda>_. repo" and desc = desc and w = w, OF assms(2)] assms(1) by auto
  have st: "start_pbar (live_api repo ep L) desc (Some cf) w = (Inr pb, ?w1)"
    using start_pbar_cong [of "live_api repo ep L" w "\<lambda>_ _. repo"] st0 by simp
  have L1: "L (length (sent ?w1)) = xs" using L by simp
  show ?thesis
  proof (cases "xs = []")
    case True
    with st b L1 show ?thesis
      by (simp add: get_paginated_data_def paginate_loop_unfold_page list_page_def)
  next
    case False
    have fix2: "\<forall>t \<ge> length (sent ?w2). L t = ys" using L by simp
    have pbq: "pbar_bool (if b then pbar_update (length (take 100 xs)) pb else pb) = Inr b" using b by simp
    obtain pb' w' where loop2: "paginate_loop (live_api repo ep L) ep 2 (take 100 xs)
          (if b then pbar_update (length (take 100 xs)) pb else pb) ?w2 =
          Some (Inr (take 100 xs @ drop 100 ys, pb'), w')" and b': "pbar_bool pb' = Inr b"
      using paginate_loop_live_fixed [where repo = repo and ep = ep and items = "take 100 xs" and p = 2, OF fix2 pbq one_le_numeral]
      by simp blast
    have "paginate_loop (live_api repo ep L) ep 1 [] pb ?w1 =
          paginate_loop (live_api repo ep L) ep (Suc 1) ([] @ take 100 xs)
            (if b then pbar_update (length (take 100 xs)) pb else pb) ?w2"
      using False L1 b by (intro paginate_loop_page [where d = "JList (take 100 xs)"]) (simp_all add: list_page_def)
    also have "\<dots> = Some (Inr (take 100 xs @ drop 100 ys, pb'), w')"
      using loop2 by (simp only: append_Nil Suc_1)
    finally have "paginate_loop (live_api repo ep L) ep 1 [] pb ?w1 = Some (Inr (take 100 xs @ drop 100 ys, pb'), w')" .
    with st b' False show ?thesis
      by (simp add: get_paginated_data_def)
  qed
qed

subsection \<open>Properties\<close>

text \<open>C39. Paginator, safety, on a changing listing: when the forks listing only grows
  at its front between requests (new forks, listed newest first), a \<open>get_forks\<close>
  that returns normally has every fork that existed when it was called in its result:
  new forks push items onto later pages, where they are read again, so no fork is lost
  (items can be returned twice instead, as the witness shows).\<close>

theorem get_forks_keeps_all:
  assumes "get_forks (live_api repo (repo_url @ ''/forks'') L) w = Some (Inr forks, w')"
    and "\<forall>t. suffix (L t) (L (Suc t))"
  shows "set (L (length (sent w))) \<subseteq> set forks"
  using assms(1) [unfolded get_forks_def] assms(2) by (rule get_paginated_data_growing)

theorem get_forks_keeps_all_witness:
  "\<exists>forks w'. get_forks (live_api (Reply 200 (Some (JDict [(''forks_count'', JInt 101)]))) (repo_url @ ''/forks'')
       (\<lambda>t. if t \<le> 1 then sample_listing else JInt (-1) # sample_listing)) empty_world = Some (Inr forks, w') \<and>
     set sample_listing \<subseteq> set forks \<and> forks = take 100 sample_listing @ drop 99 sample_listing"
proof -
  let ?L = "\<lambda>t. if t \<le> 1 then sample_listing else JInt (-1) # sample_listing"
  let ?repo = "Reply 200 (Some (JDict [(''forks_count'', JInt 101)]))"
  obtain w' where run: "get_forks (live_api ?repo (repo_url @ ''/forks'') ?L) empty_world =
      Some (Inr (take 100 sample_listing @ drop 99 sample_listing), w')"
  proof -
    have cr: "count_reply_ok ''forks_count'' ?repo" by (simp add: py_simps)
    have ne: "sample_listing \<noteq> []" by (simp add: sample_listing_def)
    have L: "?L = (\<lambda>t. if t \<le> Suc (length (sent empty_world)) then sample_listing else JInt (-1) # sample_listing)"
      by (simp add: empty_world_def)
    from get_paginated_data_changed [OF cr _ L, of "repo_url @ ''/forks''" "Some ''Fetching forks''"] ne
    show ?thesis using that by (simp add: get_forks_def) blast
  qed
  have chain: "\<forall>t. suffix (?L t) (?L (Suc t))"
    by (simp add: suffix_Cons_self)
  show ?thesis
    using get_forks_keeps_all [OF run chain] run by (auto simp: empty_world_def)
qed

text \<open>C40. Paginator, functional, on a changing listing: when one of the first 100
  stargazers unstars after page 1 has been read, \<open>get_stargazers\<close> (with a count
  reply it can read) returns the first 100 stargazers followed by those after the 101st:
  the 101st stargazer moves onto page 1, which was already read, and is never
  collected.\<close>

theorem get_stargazers_unstar_skips:
  assumes "count_reply_ok ''stargazers_count'' repo" and "i < 100"
  shows "\<exists>w'. get_stargazers (live_api repo (repo_url @ ''/stargazers'')
            (\<lambda>t. if t \<le> Suc (length (sent w)) then xs else take i xs @ drop (Suc i) xs)) w =
          Some (Inr (take 100 xs @ drop 101 xs), w')"
proof -
  let ?L = "\<lambda>t. if t \<le> Suc (length (sent w)) then xs else take i xs @ drop (Suc i) xs"
  have eq: "drop 100 (take i xs @ drop (Suc i) xs) = drop 101 xs"
    using drop_del_at [OF assms(2)] by simp
  from get_paginated_data_changed [where w = w and xs = xs and ys = "take i xs @ drop (Suc i) xs"
      and ep = "repo_url @ ''/stargazers''" and desc = "Some ''Fetching stargazers''", OF assms(1) _ refl]
  have "\<exists>w'. get_paginated_data (live_api repo (repo_url @ ''/stargazers'') ?L) (repo_url @ ''/stargazers'')
          (Some ''Fetching stargazers'') (Some ''stargazers_count'') w =
          Some (Inr (if xs = [] then [] else take 100 xs @ drop 101 xs), w')"
    by (simp only: eq) simp
  then show ?thesis by (cases "xs = []") (simp_all add: get_stargazers_def)
qed

theorem get_stargazers_unstar_skips_witness:
  "\<exists>w'. get_stargazers (live_api (Reply 200 (Some (JDict [(''stargazers_count'', JInt 101)])))
       (repo_url @ ''/stargazers'') (\<lambda>t. if t \<le> Suc 0 then sample_listing else drop 1 sample_listing)) empty_world =
     Some (Inr (take 100 sample_listing), w') \<and> JInt 100 \<in> set sample_listing \<and> JInt 100 \<notin> set (take 100 sample_listing)"
proof -
  have cr: "count_reply_ok ''stargazers_count'' (Reply 200 (Some (JDict [(''stargazers_count'', JInt 101)])))"
    by (simp add: py_simps)
  have d: "drop 101 sample_listing = []"
    by (simp add: sample_listing_def)
  have "JInt 100 \<in> set sample_listing" "JInt 100 \<notin> set (take 100 sample_listing)"
    by (auto simp: sample_listing_def take_map)
  with get_stargazers_unstar_skips [OF cr, of 0 empty_world sample_listing] d show ?thesis
    by (simp add: empty_world_def cong: if_cong)
qed

end
