(* ===== verification/Spec2Isabelle.thy ===== *)
theory Spec2Isabelle
  imports CollectorOrder CollectorErrors MergerOutput MergerRerun Quota PageShift
begin

text \<open>
  \<^bold>\<open>A verification development for simtownai/simtown's GitHub scraper.\<close>


  The program (\<open>src/scrapper/scrapper/\<close>) has two scripts.
  \<open>github_data_collector.py\<close> fetches the stargazers and the forks of one
  repository from the GitHub REST API page by page (the Paginator,
  \<open>get_paginated_data\<close>), fetches the profile of every identity (the
  UserEnricher, \<open>collect_user_info\<close>, over the Fetcher \<open>get_github_data\<close>),
  and writes the profiles to CSV (the CsvWriter, \<open>save_to_csv\<close>); \<open>main\<close>
  runs this pipeline for stargazers and then for forkers.  \<open>merge_csv.py\<close>
  (the Merger, \<open>combine_csv_files\<close>) later reads every CSV file matching a
  pattern, merges the rows keyed by \<open>github_profile_link\<close> and writes one
  combined CSV with a \<open>source_files\<close> column.  The scripts share nothing but
  the files.

  \<^bold>\<open>Model.\<close>  Everything is a shallow embedding with explicit state passing.
  \<^item> \<open>Prelude\<close>: Python values as parsed JSON (\<open>json\<close>; \<open>None\<close> is
    \<open>JNull\<close>), the exceptions the code can raise (\<open>py_error\<close>), truthiness
    (\<open>py_bool\<close>), iteration (\<open>py_iter\<close>), \<open>x[k]\<close> and \<open>.get\<close>, \<open>str\<close> and
    \<open>repr\<close>, \<open>str.join\<close>, \<open>d[k] = v\<close> on an insertion-ordered dict
    (\<open>dict_set\<close>).  Python integers are unbounded \<open>int\<close>; nothing in the
    program depends on a machine width.
  \<^item> \<open>World\<close>: the state every operation passes along: the HTTP requests
    sent, in order; the files of the working directory, in directory order; the
    lines printed; the running counts shown on the progress bar.  The GitHub API
    is a \<open>server\<close>, a function of the requests already sent and the new one
    to a reply (status and body, \<open>None\<close> for a body that is not JSON) or a
    connection failure.  Every operation returns \<open>(py_error + 'a) \<times> world\<close>:
    an exception is a value, and the world shows what happened before it.
  \<^item> \<open>Fetcher\<close>: the constants of lines 6--10, \<open>get_github_data\<close>,
    \<open>get_user_info\<close>.
  \<^item> \<open>Paginator\<close>: the \<open>while True\<close> loop of \<open>get_paginated_data\<close> is the
    \<open>partial_function (option)\<close> \<open>paginate_loop\<close>, \<open>None\<close> meaning that it
    never returns: nothing bounds the number of pages, so no fuel is chosen and
    termination is a theorem about the server instead.  The progress bar is
    its total and counter, with tqdm's \<open>__bool__\<close> (\<open>total > 0\<close>), since
    the code branches on \<open>if pbar:\<close>.
  \<^item> \<open>Enricher\<close>: the loop body \<open>collect_step\<close> and the loop
    \<open>collect_loop\<close>, with the two login extractors of \<open>main\<close>.
  \<^item> \<open>CsvFormat\<close>: the library side of CSV, not part of the repository: the
    \<open>csv\<close> writer's \<open>QUOTE_MINIMAL\<close> encoding (\<open>csv_text\<close>) and the reader
    state machine (\<open>csv_step\<close>, \<open>csv_parse\<close>) with the states of CPython's
    reader.
  \<^item> \<open>CsvWriter\<close>: \<open>save_to_csv\<close> with \<open>csv.DictWriter\<close>'s row conversion.
  \<^item> \<open>Collector\<close>: one pipeline (\<open>run_pipeline\<close>) and \<open>collector_main\<close>;
    on the specification side, the stateless endpoints serving a list of pages
    (\<open>serves_pages\<close>) and the effect of one pipeline on the files and the
    printed lines (\<open>pipeline_output\<close>).
  \<^item> \<open>Merger\<close>: \<open>glob\<close>, \<open>pd.read_csv\<close> (blank lines skipped, the default
    NA strings read as NaN), the merge loop (\<open>merge_row\<close>, \<open>merge_rows\<close>,
    \<open>merge_files\<close>), \<open>from_dict\<close> (columns in order of first appearance,
    rows indexed column by column as pandas indexes a dict of dicts), the join of
    \<open>source_files\<close>, \<open>to_csv\<close>; and the abstract merge \<open>merge_spec\<close> the
    loop refines, with the frame it becomes (\<open>merged_columns\<close>, \<open>merged_row\<close>).
  \<^item> \<open>MergerOutput\<close>: the Merger on one file whose rows share a header and have
    distinct links, the case of each file the collector writes.
  \<^item> \<open>MergerInvariant\<close>: the merge loop as an inductive step relation
    (\<open>merge_run\<close>: the (file, row) pairs read so far and the dict built from them),
    the invariant of \<open>combined_data\<close> (\<open>combined_inv\<close>: distinct links, every
    entry a non-empty list of source files) and the multiset of all source files
    recorded (\<open>sources_mset\<close>).
  \<^item> \<open>MergerRerun\<close>: a second run of the merge script, with the parts of
    \<open>from_dict\<close> named (\<open>frame_cols\<close>, \<open>frame_index\<close>, \<open>frame_val\<close>) and the
    value of a row after the join (\<open>joined_val\<close>).
  \<^item> \<open>Effects\<close> and \<open>CollectorEffects\<close>: \<open>world_effect names w w'\<close>, what a run
    may have done between two worlds (requests only appended, each to the GitHub API with
    the headers of \<open>github_headers\<close>; no file outside \<open>names\<close> touched; printed lines
    and counts only appended), shown for every operation of the collector;
    \<open>CollectorOrder\<close>: the same for the URLs the requests go to.
  \<^item> \<open>CollectorErrors\<close>: the exceptions of each operation of the collector.
  \<^item> \<open>Quota\<close>: servers that end every page loop from their \<open>n\<close>-th request on
    (\<open>stops_after\<close>), such as \<open>rate_limited\<close>.
  \<^item> \<open>PageShift\<close>: a server whose listing changes between requests
    (\<open>live_api\<close>, serving page \<open>n\<close> of the listing \<open>L t\<close> after \<open>t\<close> requests,
    \<open>list_page\<close>), against which \<open>get_paginated_data\<close> runs unchanged.
  \<^item> \<open>Glob\<close>: a declarative semantics of the patterns \<open>glob\<close> accepts
    (\<open>glob_match\<close>, an inductive relation in which \<open>*\<close> takes any string) against
    which \<open>fnmatch\<close> is checked.
  \<^item> The two \<open>__main__\<close> blocks: \<open>collector_script\<close> (\<open>Collector\<close>) calls
    \<open>main\<close>, \<open>merge_script\<close> (\<open>Merger\<close>) calls \<open>combine_csv_files\<close> with
    the pattern \<open>*.csv\<close> and the output \<open>combined_data.csv\<close>.

  The prelude declares two collections, \<open>py_simps\<close> and \<open>api_simps\<close>, of the
  rules that evaluate the Python layer and the stub servers on concrete inputs; the
  witnesses use them.

  \<^bold>\<open>Properties.\<close>  Each theory ends with its lemmas and the claims (C1--C40)
  with witnesses at concrete inputs.
  \<^item> Paginator (C1--C3): on a stateless endpoint the loop returns the
    concatenation of the non-empty pages and requests exactly pages \<open>p, p+1, \<dots>\<close>
    up to the empty one; it returns whenever a later page is empty; it never
    returns when every page is non-empty.  With the count request (C17, C18):
    \<open>get_paginated_data\<close> returns the concatenation after one repository request
    whenever the count can be read; a failed count request leaves a bar of total 0
    that is never advanced or closed; a rate-limit reply (403) in the middle of the
    pages ends the loop as if the data were complete (C23).
    On any server, by fixpoint induction on the loop: a loop that returns has
    requested consecutive pages once each, extended its items and advanced a
    truthy bar by exactly the number of new items (C32).
  \<^item> Enricher (C4--C7, C31): a profile answered with a non-200 status is skipped and
    the shown count does not move; on a stateless API the loop refines a pure
    filter-map with the exact request and count traces; every record has the
    five columns; a missing \<open>login\<close> or a connection failure aborts the loop.
    On any server, stateful ones included, a finished loop sent one request and
    showed one count per user, the counts never decrease, the \<open>i\<close>-th is at most
    \<open>i\<close> and the last is the number of records (C31).
  \<^item> CsvWriter (C8--C10): empty input writes nothing; uniform records
    round-trip through the file; an extra key raises ValueError after the
    preceding rows were written.
  \<^item> Merger (C11--C13): the loop refines \<open>merge_spec\<close> (one entry per distinct
    link, first-seen order, first row's values, all source files in encounter
    order); the output file has one row per link with its joined
    \<open>source_files\<close> when all rows share one header; no rows at all raise
    \<open>KeyError('source_files')\<close>; with differing headers the rows lose first-seen
    order (C20).
  \<^item> MergerInvariant (C24--C26): by rule induction on \<open>merge_run\<close>, whatever the
    files hold, the dict the loop builds satisfies \<open>combined_inv\<close>; on success the
    multiset of recorded source files is exactly one file name per row read (no row
    lost or counted twice); \<open>combine_csv_files\<close> raises only the reader's
    EmptyDataError or ParserError, \<open>KeyError('github_profile_link')\<close> for a file
    without the link column, or \<open>KeyError('source_files')\<close> only when no row
    was read, and leaves the directory unchanged when it raises.
  \<^item> Glob (C28--C30): \<open>fnmatch\<close> decides \<open>glob_match\<close>; \<open>*.csv\<close> lists the
    names ending in \<open>.csv\<close> that do not start with a dot; after a successful
    merge the output file is among those names, so running \<open>merge_csv.py\<close> again
    merges its previous output back in (every link gains \<open>combined_data.csv\<close>
    as a source).
  \<^item> MergerRerun (C34): after a successful run in a directory without
    \<open>combined_data.csv\<close>, a second run succeeds and rewrites the file with the same
    columns and rows in the same order, every \<open>source_files\<close> field extended by
    \<open>, combined_data.csv\<close>.
  \<^item> PageShift (C39, C40): on a forks listing that only grows at its front (newest
    first), a returning \<open>get_forks\<close> has every fork that existed when it was
    called, possibly some twice (a loop invariant: an item's position only grows and the
    window moves one page per request, so no item jumps over it); when one of the first
    100 stargazers unstars after page 1 has been read, \<open>get_stargazers\<close> returns the
    others but the 101st, which moved onto the page already read.
  \<^item> CollectorEffects (C33): on any server, however \<open>main\<close> ends, it sent only
    authenticated GitHub API requests and touched no file but its two CSV files.
  \<^item> CollectorErrors (C38): on any server, the exceptions \<open>main\<close> can end with are
    ConnectionError, JSONDecodeError, TypeError, AttributeError, ValueError and
    KeyError for \<open>login\<close> or \<open>owner\<close> (\<open>collector_error\<close>).
  \<^item> Quota (C37): on any server that, from some request on, answers every request
    with a reply ending a page loop (GitHub's 403 once the quota is used up), \<open>main\<close>
    returns: the rate limit, not the code, bounds the loops.
  \<^item> CollectorOrder (C36): on any server, the requests of \<open>main\<close> are those of the
    stargazer pipeline followed by those of the fork pipeline (\<open>requests_within\<close>,
    \<open>pipeline_url\<close>).
  \<^item> The scripts one after the other (C27, C35, below): in a clean directory, on a
    stateless API on which both pipelines collect profiles, the collector script
    followed by the merge script writes \<open>combined_data.csv\<close> as the abstract merge
    of the stargazer and forker rows as pandas reads them back; on any server the two
    scripts together touch no file but their three outputs (C35).
  \<^item> Collector and across components (C14--C16, C19, C21, C22, below and in
    \<open>Collector\<close>): records collected by the Enricher always save without error
    and read back under the header of the five columns; a pipeline that collects
    nothing still reports its file as saved; a profile whose name is \<open>NA\<close>
    loses it when the collector's file is merged, while a file without such values
    and with distinct links merges back field for field with its name appended;
    \<open>main\<close> returns on every stateless API whose two page sequences end, and
    when nothing raises its files and printed lines are those of the stargazer
    pipeline followed by the forker pipeline (\<open>pipeline_output\<close>).

  \<^bold>\<open>Not modelled.\<close>  The \<open>requests\<close> client beyond its observable outcome;
  tqdm's rendering (only the state the code reads back); pandas' dtype
  inference (numeric columns would be re-printed as numbers) and duplicate-header
  mangling; the identity of NaN values as dict keys (all missing links are one
  key, as for the shared \<open>np.nan\<close> of an object column); \<open>glob\<close> character
  classes and recursive \<open>**\<close>; JSON floats (GitHub's fields used here
  are strings, integers and null).

  Every line of the two source files that is not blank, an import or a comment is
  translated by a definition of the map; what remains unmodelled is library
  behaviour, listed above.

  \<^bold>\<open>Plan.\<close>  Next: a duplicated identity (C39's witness) carried through the
  Enricher and the CSV file into the Merger, where it becomes one row whose
  \<open>source_files\<close> names the file twice; later runs of the merge script once
  \<open>combined_data.csv\<close> exists; the Merger over files with differing headers beyond
  the mixed-order example (C20).
\<close>

text \<open>Specification-side vocabulary for the two scripts run one after the other: a
  collected profile as pandas reads it back from the collector's file, and the (file, row)
  pairs the Merger then reads from the stargazer and the forker files; a stub GitHub on
  which one person both starred and forked the repository.\<close>

definition profile_frame :: "py_dict \<Rightarrow> frame_row" where
  "profile_frame d = map (\<lambda>kv. (fst kv, to_cell (csv_cell (snd kv)))) d"

definition collected_rows :: "py_dict list \<Rightarrow> py_dict list \<Rightarrow> (string \<times> frame_row) list" where
  "collected_rows S F =
     map (\<lambda>d. (STARGAZERS_CSV, profile_frame d)) S @ map (\<lambda>d. (FORKERS_CSV, profile_frame d)) F"

definition shared_api :: "request \<Rightarrow> http_reply" where
  "shared_api rq =
     (if rq = github_request repo_url []
        then Reply 200 (Some (JDict [(''stargazers_count'', JInt 1), (''forks_count'', JInt 1)]))
      else if rq = page_request (repo_url @ ''/stargazers'') 1
        then Reply 200 (Some (JList [JDict [(''login'', JStr ''ann'')]]))
      else if rq = page_request (repo_url @ ''/forks'') 1
        then Reply 200 (Some (JList [JDict [(''owner'', JDict [(''login'', JStr ''ann'')])]]))
      else ann_api rq)"

lemma profile_row_link:
  assumes "map fst r = profile_columns"
  shows "row_link (zip profile_columns (map (\<lambda>kv. to_cell (csv_cell (snd kv))) r)) =
         to_cell (csv_cell (dict_get r ''github_profile_link'' JNull))"
proof -
  have "''github_profile_link'' \<in> set (map fst r)" using assms by (simp add: profile_columns_def profile_fields_def)
  then obtain v where "map_of r ''github_profile_link'' = Some v"
    by (cases "map_of r ''github_profile_link''") (auto simp: map_of_eq_None_iff)
  then show ?thesis
    using map_of_zip_keys [of r "\<lambda>v. to_cell (csv_cell v)" "''github_profile_link''"] assms [symmetric]
    by (simp add: row_link_def dict_get_def comp_def)
qed

lemma profile_links_distinct:
  assumes cols: "\<forall>r \<in> set info. map fst r = profile_columns"
    and na: "\<forall>r \<in> set info. \<forall>kv \<in> set r. csv_cell (snd kv) \<in> set na_strings \<longrightarrow> csv_cell (snd kv) = []"
    and dl: "distinct (map (\<lambda>r. csv_cell (dict_get r ''github_profile_link'' JNull)) info)"
  shows "distinct (map (\<lambda>r. row_link (zip profile_columns (map to_cell r))) (map (map (\<lambda>kv. csv_cell (snd kv))) info))"
proof -
  let ?links = "map (\<lambda>r. csv_cell (dict_get r ''github_profile_link'' JNull)) info"
  have eq: "map (\<lambda>r. row_link (zip profile_columns (map to_cell r))) (map (map (\<lambda>kv. csv_cell (snd kv))) info) =
            map to_cell ?links"
    using cols by (simp add: comp_def profile_row_link)
  have ok: "z \<in> set na_strings \<longrightarrow> z = []" if "z \<in> set ?links" for z
  proof -
    from that obtain r where r: "r \<in> set info" "z = csv_cell (dict_get r ''github_profile_link'' JNull)" by auto
    with cols have "''github_profile_link'' \<in> set (map fst r)" by (simp add: profile_columns_def profile_fields_def)
    with na r show ?thesis by (fastforce dest: dict_get_mem [where d = JNull])
  qed
  have "inj_on to_cell (set ?links)"
    using ok to_cell_inj by (blast intro: inj_onI)
  then show ?thesis unfolding eq using distinct_map [of to_cell] dl by blast
qed

lemma zip_keys_profile: "zip (map fst d) (map to_cell (map (\<lambda>kv. csv_cell (snd kv)) d)) = profile_frame d"
  by (induction d) (simp_all add: profile_frame_def)

lemma read_frame_profiles:
  assumes "read_file fn w = Some (csv_text CRLF (profile_columns # map (map (\<lambda>kv. csv_cell (snd kv))) S))"
    and "\<forall>d \<in> set S. map fst d = profile_columns"
  shows "read_frame w fn = Inr (map profile_frame S)"
proof -
  have "\<forall>r \<in> set (map (map (\<lambda>kv. csv_cell (snd kv))) S). length r = length profile_columns"
    using assms(2) by (auto simp flip: length_map [of fst])
  with read_csv_uniform [OF csv_parse_csv_text [of CRLF] _ this]
  have "read_csv (csv_text CRLF (profile_columns # map (map (\<lambda>kv. csv_cell (snd kv))) S)) =
        Inr (profile_columns, map (map to_cell) (map (map (\<lambda>kv. csv_cell (snd kv))) S))"
    by (simp add: CRLF_def profile_columns_def profile_fields_def)
  moreover have "map (zip profile_columns) (map (map to_cell) (map (map (\<lambda>kv. csv_cell (snd kv))) S)) = map profile_frame S"
    using assms(2) zip_keys_profile by (auto intro!: map_cong simp flip: zip_keys_profile)
  ultimately show ?thesis using assms(1) by (simp add: read_frame_def frame_rows_def)
qed

lemma profile_frame_keys: "map fst d = profile_columns \<Longrightarrow> map fst (profile_frame d) = profile_columns"
  by (simp add: profile_frame_def comp_def)

text \<open>C14. Enricher and CsvWriter: the records \<open>collect_user_info\<close> returns, when there are
  any, are always saved without error, and the file reads back as the header of the five
  profile columns followed by each record's values.\<close>

theorem collected_records_saved:
  assumes "collect_user_info srv users ex w = (Inr info, w1)" and "info \<noteq> []"
  shows "\<exists>w2. save_to_csv info fn w1 = (Inr (), w2) \<and>
     map_option csv_parse (read_file fn w2) = Some (profile_columns # map (map (\<lambda>kv. csv_cell (snd kv))) info)"
proof -
  from assms(1) have cols: "\<forall>r \<in> set info. map fst r = profile_columns"
    unfolding collect_user_info_def by (rule collect_loop_columns) simp
  from assms(2) obtain d0 ds where info: "info = d0 # ds" by (cases info) auto
  with cols have "\<forall>d \<in> set (d0 # ds). map fst d = map fst d0" and "map fst d0 = profile_columns" by auto
  with save_to_csv_uniform [of d0 ds fn w1] profile_columns_distinct info show ?thesis by simp
qed



lemma ann_collected:
  "collect_user_info (\<lambda>_. ann_api) [JDict [(''login'', JStr ''ann'')]] stargazer_login empty_world =
     (Inr [profile_of [(''name'', JStr ''Ann''), (''html_url'', JStr ''https://github.com/ann'')]],
      empty_world\<lparr>sent := [user_request (JStr ''ann'')], shown := [1]\<rparr>)"
  by (simp add: collect_user_info_def collect_step_def stargazer_login_def get_user_info_def
                get_github_data_def ann_api_def show_count_def empty_world_def api_simps)


text \<open>C35. Collector then Merger, safety, on any server: however the collector script
  ends (normally or by an exception) and whatever the merge script then does, the two runs
  together sent only authenticated requests to the GitHub API (the merge sends none),
  created or changed no file but \<open>ai-town_stargazers.csv\<close>, \<open>ai-town_forkers.csv\<close> and
  \<open>combined_data.csv\<close>, and only appended to the printed lines and the counts shown.\<close>

theorem scripts_effect:
  assumes "collector_script srv w = Some (r1, w1)" and "merge_script w1 = (r2, w2)"
  shows "world_effect [STARGAZERS_CSV, FORKERS_CSV, ''combined_data.csv''] w w2 \<and> sent w2 = sent w1"
proof -
  have "world_effect [STARGAZERS_CSV, FORKERS_CSV] w w1"
    using assms(1) unfolding collector_script_def by (rule collector_main_world_effect)
  moreover have "world_effect [''combined_data.csv''] w1 w2 \<and> sent w2 = sent w1"
    using assms(2) unfolding merge_script_def Let_def by (rule combine_csv_files_effect)
  ultimately show ?thesis using world_effect_trans by fastforce
qed

theorem collected_records_saved_witness:
  "\<exists>w2. save_to_csv [profile_of [(''name'', JStr ''Ann''), (''html_url'', JStr ''https://github.com/ann'')]]
          STARGAZERS_CSV (empty_world\<lparr>sent := [user_request (JStr ''ann'')], shown := [1]\<rparr>) = (Inr (), w2) \<and>
        map_option csv_parse (read_file STARGAZERS_CSV w2) =
          Some (profile_columns # [[''Ann'', ''https://github.com/ann'', [], [], []]])"
  using collected_records_saved [OF ann_collected, of STARGAZERS_CSV]
  by (simp add: profile_of_def profile_fields_def py_simps csv_cell_def)



theorem scripts_effect_witness:
  "\<exists>r1 w1 r2 w2. collector_script (\<lambda>_ _. Reply 404 None) notes_world = Some (r1, w1) \<and>
     merge_script w1 = (r2, w2) \<and> read_file ''notes.txt'' w2 = Some ''x''"
proof -
  obtain w1 where c: "collector_script (\<lambda>_ _. Reply 404 None) notes_world = Some (Inr (), w1)"
    using notes_world_main by (simp add: collector_script_def)
  obtain r2 w2 where m: "merge_script w1 = (r2, w2)" by fastforce
  from scripts_effect [OF c m] have "world_effect [STARGAZERS_CSV, FORKERS_CSV, ''combined_data.csv''] notes_world w2"
    by blast
  from world_effect_files [OF this, of "''notes.txt''"] c m show ?thesis
    by (auto simp: STARGAZERS_CSV_def FORKERS_CSV_def notes_world_def empty_world_def read_file_def)
qed

end
